(* ===== verification/Py_Base.thy ===== *)
theory Py_Base
  imports Complex_Main "HOL-Library.AList" "HOL-Library.Log_Nat" "HOL-Library.Sublist"
begin

text \<open>
  The prelude of the development: the values the Python code of the repository computes with.

  \<^item> \<open>dbl\<close>: binary64 floating-point numbers as CPython's \<open>float\<close> computes with them. A finite
    number is the rational it denotes, so the two zeros are one value: the code compares them as
    equal, and only the text that \<open>json.dumps\<close> gives them differs, which is left out; arithmetic rounds to nearest, ties to even, and overflows to
    an infinity.
  \<^item> \<open>val\<close>: the Python objects that travel through the SDK: the JSON types, tuples, instances of
    a \<open>UEnvModel\<close> class, dataclass instances, and opaque objects. A \<open>dict\<close> is an association
    list in insertion order; \<open>d[k] = v\<close> is \<open>AList.update\<close>, which keeps the position of an
    existing key and appends a new one. A \<open>str\<close> is a list of code points below 256.
  \<^item> \<open>pyerr\<close> and \<open>'a res\<close>: the exceptions the code raises, and a computation that may raise.
  \<^item> \<open>deepcopy\<close> is the identity on these values, since they are immutable.

  Further down: subscripts, truth value and equality of values, and the simplification rules
  for \<open>rbind\<close> and the dictionary operations that the component proofs rest on.
\<close>

named_theorems res_simps \<open>rewriting of computations that may raise\<close>
named_theorems dict_simps \<open>dictionary lookup and update\<close>

section \<open>Floating-point numbers\<close>

datatype dbl = Fin rat | PInf | NInf | NaN

definition ilog2 :: "rat \<Rightarrow> int" where
  "ilog2 a = (let (n, d) = quotient_of a;
                  k = bitlen n - bitlen d
              in if 2 powi k \<le> a then k else k - 1)"

definition half_even :: "rat \<Rightarrow> int" where
  "half_even a = (let f = \<lfloor>a\<rfloor>; r = a - of_int f
                  in if r < 1/2 then f else if r > 1/2 then f + 1
                     else if even f then f else f + 1)"

definition rnd_pos :: "rat \<Rightarrow> rat" where
  "rnd_pos a = (let q = max (ilog2 a - 52) (- 1074)
                in of_int (half_even (a / 2 powi q)) * 2 powi q)"

definition max_dbl :: rat where
  "max_dbl = 2 ^ 1024"

definition rnd :: "rat \<Rightarrow> dbl" where
  "rnd x = (if x = 0 then Fin 0
            else let v = rnd_pos \<bar>x\<bar>
                 in if v \<ge> max_dbl then (if x > 0 then PInf else NInf)
                    else Fin (sgn x * v))"

fun dbl_abs :: "dbl \<Rightarrow> dbl" where
  "dbl_abs (Fin x) = Fin \<bar>x\<bar>"
| "dbl_abs NaN = NaN"
| "dbl_abs _ = PInf"

fun dbl_sub :: "dbl \<Rightarrow> dbl \<Rightarrow> dbl" where
  "dbl_sub (Fin x) (Fin y) = rnd (x - y)"
| "dbl_sub NaN _ = NaN"
| "dbl_sub _ NaN = NaN"
| "dbl_sub (Fin x) PInf = NInf"
| "dbl_sub (Fin x) NInf = PInf"
| "dbl_sub PInf PInf = NaN"
| "dbl_sub NInf NInf = NaN"
| "dbl_sub PInf _ = PInf"
| "dbl_sub NInf _ = NInf"

fun dbl_mul_pos :: "rat \<Rightarrow> dbl \<Rightarrow> dbl" where
  \<comment> \<open>a positive finite factor times a number\<close>
  "dbl_mul_pos c (Fin y) = rnd (c * y)"
| "dbl_mul_pos c PInf = PInf"
| "dbl_mul_pos c NInf = NInf"
| "dbl_mul_pos c NaN = NaN"

fun dbl_le :: "dbl \<Rightarrow> dbl \<Rightarrow> bool" where
  "dbl_le NaN _ = False"
| "dbl_le _ NaN = False"
| "dbl_le (Fin x) (Fin y) = (x \<le> y)"
| "dbl_le NInf _ = True"
| "dbl_le _ PInf = True"
| "dbl_le _ _ = False"

definition dbl_lt :: "dbl \<Rightarrow> dbl \<Rightarrow> bool" where
  "dbl_lt a b = (dbl_le a b \<and> a \<noteq> b)"

definition dbl_max :: "dbl \<Rightarrow> dbl \<Rightarrow> dbl" where
  \<comment> \<open>\<open>max(a, b)\<close> keeps its first argument unless the second is greater\<close>
  "dbl_max a b = (if dbl_lt a b then b else a)"

fun is_finite :: "dbl \<Rightarrow> bool" where
  "is_finite (Fin _) = True"
| "is_finite _ = False"

section \<open>Values, exceptions, results\<close>

datatype val =
    VNone
  | VBool bool
  | VInt int
  | VFloat dbl
  | VStr string
  | VBytes "nat list"
  | VList "val list"
  | VTuple "val list"
  | VDict "(string \<times> val) list"
  | VModel string "(string \<times> val) list"   \<comment> \<open>instance of the model class of that name\<close>
  | VObj string "(string \<times> val) list"     \<comment> \<open>dataclass instance: class and fields\<close>
  | VOpaque string                        \<comment> \<open>any other object\<close>

type_synonym dict = "(string \<times> val) list"

datatype pyerr =
    TypeError string
  | ValueError string
  | RuntimeError string
  | KeyError string
  | IndexError
  | AttributeError string
  | TimeoutError string
  | RecursionError
  | OverflowError
  | OSError string
  | HTTPError int
  | ValidationError string
  | RpcError string
  | AgentRuntimeError val

type_synonym 'a res = "pyerr + 'a"

primrec rbind :: "'a res \<Rightarrow> ('a \<Rightarrow> 'b res) \<Rightarrow> 'b res" where
  "rbind (Inl e) f = Inl e"
| "rbind (Inr x) f = f x"

definition guard :: "bool \<Rightarrow> pyerr \<Rightarrow> unit res" where
  \<comment> \<open>\<open>if not ok: raise e\<close>\<close>
  "guard ok e = (if ok then Inr () else Inl e)"

fun rmap :: "('a \<Rightarrow> 'b res) \<Rightarrow> 'a list \<Rightarrow> 'b list res" where
  "rmap f [] = Inr []"
| "rmap f (x # xs) = rbind (f x) (\<lambda>y. rbind (rmap f xs) (\<lambda>ys. Inr (y # ys)))"

fun rfold :: "('a \<Rightarrow> 'b \<Rightarrow> 'b res) \<Rightarrow> 'a list \<Rightarrow> 'b \<Rightarrow> 'b res" where
  "rfold f [] b = Inr b"
| "rfold f (x # xs) b = rbind (f x b) (rfold f xs)"

fun rany :: "('a \<Rightarrow> bool res) \<Rightarrow> 'a list \<Rightarrow> bool res" where
  \<comment> \<open>\<open>any(f(x) for x in xs)\<close>: stops at the first true element\<close>
  "rany f [] = Inr False"
| "rany f (x # xs) = rbind (f x) (\<lambda>b. if b then Inr True else rany f xs)"

fun rfilter :: "('a \<Rightarrow> bool res) \<Rightarrow> 'a list \<Rightarrow> 'a list res" where
  "rfilter f [] = Inr []"
| "rfilter f (x # xs) = rbind (f x) (\<lambda>b. rbind (rfilter f xs) (\<lambda>ys. Inr (if b then x # ys else ys)))"

definition ok :: "'a res \<Rightarrow> bool" where
  "ok r = (case r of Inl _ \<Rightarrow> False | Inr _ \<Rightarrow> True)"

section \<open>Dictionaries and subscripts\<close>

definition has_key :: "dict \<Rightarrow> string \<Rightarrow> bool" where
  "has_key d k = (map_of d k \<noteq> None)"

definition get_or :: "dict \<Rightarrow> string \<Rightarrow> val \<Rightarrow> val" where
  \<comment> \<open>\<open>d.get(k, default)\<close>\<close>
  "get_or d k v = (case map_of d k of None \<Rightarrow> v | Some x \<Rightarrow> x)"

definition ditem :: "dict \<Rightarrow> string \<Rightarrow> val res" where
  "ditem d k = (case map_of d k of None \<Rightarrow> Inl (KeyError k) | Some x \<Rightarrow> Inr x)"

fun item :: "val \<Rightarrow> string \<Rightarrow> val res" where
  \<comment> \<open>\<open>v[k]\<close>; a model instance reads its attribute\<close>
  "item (VDict d) k = ditem d k"
| "item (VModel c d) k = (case map_of d k of None \<Rightarrow> Inl (AttributeError k) | Some x \<Rightarrow> Inr x)"
| "item _ k = Inl (TypeError k)"

fun get :: "val \<Rightarrow> string \<Rightarrow> val \<Rightarrow> val res" where
  \<comment> \<open>\<open>v.get(k, default)\<close>\<close>
  "get (VDict d) k v = Inr (get_or d k v)"
| "get _ k v = Inl (AttributeError ''get'')"

fun has :: "val \<Rightarrow> string \<Rightarrow> bool res" where
  \<comment> \<open>\<open>k in v\<close> for the dictionaries and lists of strings the code asks it of\<close>
  "has (VDict d) k = Inr (has_key d k)"
| "has (VList xs) k = Inr (VStr k \<in> set xs)"
| "has (VTuple xs) k = Inr (VStr k \<in> set xs)"
| "has (VStr s) k = Inr (sublist k s)"
| "has _ k = Inl (TypeError k)"

fun as_list :: "val \<Rightarrow> val list res" where
  \<comment> \<open>\<open>for x in v\<close> over the containers the code iterates\<close>
  "as_list (VList xs) = Inr xs"
| "as_list (VTuple xs) = Inr xs"
| "as_list (VDict d) = Inr (map (\<lambda>(k, _). VStr k) d)"
| "as_list (VStr s) = Inr (map (\<lambda>c. VStr [c]) s)"
| "as_list _ = Inl (TypeError ''not iterable'')"

fun as_str :: "val \<Rightarrow> string res" where
  "as_str (VStr s) = Inr s"
| "as_str _ = Inl (TypeError ''str'')"

fun as_dict :: "val \<Rightarrow> dict res" where
  "as_dict (VDict d) = Inr d"
| "as_dict _ = Inl (AttributeError ''items'')"

fun as_int :: "val \<Rightarrow> int res" where
  "as_int (VInt i) = Inr i"
| "as_int (VBool b) = Inr (of_bool b)"
| "as_int _ = Inl (TypeError ''int'')"

fun is_dict :: "val \<Rightarrow> bool" where
  "is_dict (VDict _) = True"
| "is_dict _ = False"

fun is_list :: "val \<Rightarrow> bool" where
  "is_list (VList _) = True"
| "is_list _ = False"

fun is_str :: "val \<Rightarrow> bool" where
  "is_str (VStr _) = True"
| "is_str _ = False"

fun is_bool :: "val \<Rightarrow> bool" where
  \<comment> \<open>\<open>type(v) is bool\<close>\<close>
  "is_bool (VBool _) = True"
| "is_bool _ = False"

fun truthy :: "val \<Rightarrow> bool" where
  "truthy VNone = False"
| "truthy (VBool b) = b"
| "truthy (VInt i) = (i \<noteq> 0)"
| "truthy (VFloat x) = (x \<noteq> Fin 0)"
| "truthy (VStr s) = (s \<noteq> [])"
| "truthy (VBytes s) = (s \<noteq> [])"
| "truthy (VList xs) = (xs \<noteq> [])"
| "truthy (VTuple xs) = (xs \<noteq> [])"
| "truthy (VDict d) = (d \<noteq> [])"
| "truthy _ = True"

text \<open>The number a value stands for in comparisons: \<open>True == 1 == 1.0\<close>.\<close>

fun num_of :: "val \<Rightarrow> dbl option" where
  "num_of (VBool b) = Some (Fin (of_bool b))"
| "num_of (VInt i) = Some (Fin (of_int i))"
| "num_of (VFloat x) = Some x"
| "num_of _ = None"

text \<open>
  \<open>a == b\<close>. Dictionaries compare by keys and values, not by order; a list is never equal to a
  tuple; numbers compare by value. Model and dataclass instances compare by class and fields
  (\<open>UEnvModel\<close> inherits identity comparison, which the code never relies on).
\<close>

fun py_eq :: "val \<Rightarrow> val \<Rightarrow> bool" where
  "py_eq (VStr s) w = (case w of VStr t \<Rightarrow> s = t | _ \<Rightarrow> False)"
| "py_eq (VBytes s) w = (case w of VBytes t \<Rightarrow> s = t | _ \<Rightarrow> False)"
| "py_eq VNone w = (case w of VNone \<Rightarrow> True | _ \<Rightarrow> False)"
| "py_eq (VList xs) w = (case w of VList ys \<Rightarrow> list_all2 py_eq xs ys | _ \<Rightarrow> False)"
| "py_eq (VTuple xs) w = (case w of VTuple ys \<Rightarrow> list_all2 py_eq xs ys | _ \<Rightarrow> False)"
| "py_eq (VDict d) w =
     (case w of
        VDict e \<Rightarrow> length d = length e \<and>
          (\<forall>p \<in> set d. case map_of e (fst p) of None \<Rightarrow> False | Some y \<Rightarrow> py_eq (snd p) y)
      | _ \<Rightarrow> False)"
| "py_eq (VModel c d) w = (case w of VModel c' d' \<Rightarrow> c = c' \<and> d = d' | _ \<Rightarrow> False)"
| "py_eq (VObj c d) w = (case w of VObj c' d' \<Rightarrow> c = c' \<and> d = d' | _ \<Rightarrow> False)"
| "py_eq (VOpaque s) w = (case w of VOpaque t \<Rightarrow> s = t | _ \<Rightarrow> False)"
| "py_eq v w = (num_of w \<noteq> None \<and> num_of v \<noteq> Some NaN \<and> num_of v = num_of w)"

definition py_in :: "val \<Rightarrow> val list \<Rightarrow> bool" where
  \<comment> \<open>\<open>x in xs\<close>\<close>
  "py_in x xs = (\<exists>y \<in> set xs. py_eq x y)"

text \<open>Well-formed values: every dictionary has distinct keys and no number is a NaN.\<close>

fun wf_val :: "val \<Rightarrow> bool" where
  "wf_val (VFloat x) = (x \<noteq> NaN)"
| "wf_val (VList xs) = (\<forall>x \<in> set xs. wf_val x)"
| "wf_val (VTuple xs) = (\<forall>x \<in> set xs. wf_val x)"
| "wf_val (VDict d) = (distinct (map fst d) \<and> (\<forall>p \<in> set d. wf_val (snd p)))"
| "wf_val _ = True"

text \<open>Values made of JSON types only, as \<open>json.loads\<close> returns them.\<close>

fun json_val :: "val \<Rightarrow> bool" where
  "json_val (VList xs) = (\<forall>x \<in> set xs. json_val x)"
| "json_val (VDict d) = (\<forall>p \<in> set d. json_val (snd p))"
| "json_val (VBytes _) = False"
| "json_val (VTuple _) = False"
| "json_val (VModel _ _) = False"
| "json_val (VObj _ _) = False"
| "json_val (VOpaque _) = False"
| "json_val _ = True"

section \<open>Computations that may raise\<close>

lemma rbind_Inr_iff [res_simps]: "rbind m f = Inr y \<longleftrightarrow> (\<exists>x. m = Inr x \<and> f x = Inr y)"
  by (cases m) auto

lemma rbind_Inl_iff [res_simps]:
  "rbind m f = Inl e \<longleftrightarrow> m = Inl e \<or> (\<exists>x. m = Inr x \<and> f x = Inl e)"
  by (cases m) auto

lemma rbind_assoc: "rbind (rbind m f) g = rbind m (\<lambda>x. rbind (f x) g)"
  by (cases m) auto

lemma rbind_cong [fundef_cong]:
  "m = m' \<Longrightarrow> (\<And>x. m' = Inr x \<Longrightarrow> f x = g x) \<Longrightarrow> rbind m f = rbind m' g"
  by (cases m') auto

lemma guard_Inr_iff [res_simps]: "guard b e = Inr u \<longleftrightarrow> b"
  by (simp add: guard_def)

lemma guard_Inl_iff [res_simps]: "guard b e = Inl e' \<longleftrightarrow> \<not> b \<and> e' = e"
  by (auto simp: guard_def)

lemma guard_simps [simp]: "guard True e = Inr ()" "guard False e = Inl e"
  by (simp_all add: guard_def)

lemma rmap_cong [fundef_cong]:
  "xs = ys \<Longrightarrow> (\<And>x. x \<in> set ys \<Longrightarrow> f x = g x) \<Longrightarrow> rmap f xs = rmap g ys"
  by (induction ys arbitrary: xs) auto

lemma rfold_cong [fundef_cong]:
  "xs = ys \<Longrightarrow> a = b \<Longrightarrow> (\<And>x c. x \<in> set ys \<Longrightarrow> f x c = g x c) \<Longrightarrow> rfold f xs a = rfold g ys b"
  by (induction ys arbitrary: xs a b) (auto intro: rbind_cong)

lemma rany_cong [fundef_cong]:
  "xs = ys \<Longrightarrow> (\<And>x. x \<in> set ys \<Longrightarrow> f x = g x) \<Longrightarrow> rany f xs = rany g ys"
  by (induction ys arbitrary: xs) (auto intro!: rbind_cong)

lemma rmap_Inr_iff [res_simps]: "rmap f xs = Inr ys \<longleftrightarrow> list_all2 (\<lambda>x y. f x = Inr y) xs ys"
  by (induction xs arbitrary: ys) (auto simp: rbind_Inr_iff list_all2_Cons1)

lemma rmap_Inr [simp]: "rmap (\<lambda>x. Inr (f x)) xs = Inr (map f xs)"
  by (induction xs) auto

lemma rmap_map: "rmap f (map g xs) = rmap (\<lambda>x. f (g x)) xs"
  by (induction xs) auto

lemma rany_False_iff: "rany f xs = Inr False \<longleftrightarrow> (\<forall>x \<in> set xs. f x = Inr False)"
  by (induction xs) (auto simp: rbind_Inr_iff split: if_splits)

lemma rany_Inr [simp]: "rany (\<lambda>x. Inr (p x)) xs = Inr (\<exists>x \<in> set xs. p x)"
  by (induction xs) auto

lemma rfold_Inr [simp]: "rfold (\<lambda>x b. Inr (f x b)) xs b = Inr (fold f xs b)"
  by (induction xs arbitrary: b) auto

lemma rfold_append: "rfold f (xs @ ys) b = rbind (rfold f xs b) (rfold f ys)"
  by (induction xs arbitrary: b) (auto simp: rbind_assoc intro: rbind_cong)

lemma rfold_invariant:
  assumes "rfold f xs b = Inr c" "P b" "\<And>x b c. x \<in> set xs \<Longrightarrow> P b \<Longrightarrow> f x b = Inr c \<Longrightarrow> P c"
  shows "P c"
  using assms by (induction xs arbitrary: b) (auto simp: rbind_Inr_iff)

lemma ok_simps [simp]: "ok (Inr x)" "\<not> ok (Inl e)"
  by (simp_all add: ok_def)

lemma ok_iff: "ok r \<longleftrightarrow> (\<exists>x. r = Inr x)"
  by (cases r) auto

section \<open>Dictionaries\<close>

lemma map_of_update [dict_simps, simp]:
  "map_of (AList.update k v d) k' = (if k' = k then Some v else map_of d k')"
  by (simp add: update_conv')

lemma ditem_Inr_iff [res_simps]: "ditem d k = Inr x \<longleftrightarrow> map_of d k = Some x"
  by (auto simp: ditem_def split: option.splits)

lemma ditem_Inl_iff [res_simps]: "ditem d k = Inl e \<longleftrightarrow> map_of d k = None \<and> e = KeyError k"
  by (auto simp: ditem_def split: option.splits)

lemma ditem_Some [simp]: "map_of d k = Some x \<Longrightarrow> ditem d k = Inr x"
  by (simp add: ditem_def)

lemma has_key_update [dict_simps, simp]: "has_key (AList.update k v d) k' \<longleftrightarrow> k' = k \<or> has_key d k'"
  by (auto simp: has_key_def)

lemma has_key_delete [dict_simps, simp]: "has_key (AList.delete k d) k' \<longleftrightarrow> k' \<noteq> k \<and> has_key d k'"
  by (auto simp: has_key_def delete_conv')

lemma has_key_iff: "has_key d k \<longleftrightarrow> k \<in> fst ` set d"
  by (simp add: has_key_def map_of_eq_None_iff)

lemma get_or_update [dict_simps, simp]:
  "get_or (AList.update k v d) k' w = (if k' = k then v else get_or d k' w)"
  by (simp add: get_or_def)

lemma set_update_subset: "set (AList.update k v d) \<subseteq> insert (k, v) (set d)"
  by (induction d) auto

section \<open>Equality of values\<close>

lemma list_all2_same_set: "(\<And>x. x \<in> set xs \<Longrightarrow> P x x) \<Longrightarrow> list_all2 P xs xs"
  by (induction xs) auto

lemma py_eq_refl: "wf_val v \<Longrightarrow> py_eq v v"
proof (induction v rule: wf_val.induct)
  case (4 d)
  have "map_of d (fst p) = Some (snd p)" if "p \<in> set d" for p
    using 4 that by (auto intro: map_of_is_SomeI)
  with 4 show ?case by auto
qed (auto intro: list_all2_same_set)

lemma py_eq_str [simp]: "py_eq (VStr s) w \<longleftrightarrow> w = VStr s" "py_eq w (VStr s) \<longleftrightarrow> w = VStr s"
  by (cases w; auto)+

lemma py_eq_bool [simp]: "py_eq (VBool a) (VBool b) \<longleftrightarrow> a = b"
  by (cases a; cases b; simp)

end
