(* ===== verification/Py_Text.thy ===== *)
theory Py_Text
  imports Py_Base
begin

text \<open>
  The string operations of Python that the code uses, on code points below 256:
  \<open>strip\<close>, \<open>find\<close>/\<open>index\<close>, \<open>rfind\<close>, one-step \<open>split\<close> and \<open>rsplit\<close>, ASCII case folding and
  character classes, UTF-8 encoding, decimal numerals and the decimal subset of \<open>float()\<close>;
  with the lemmas that relate a search to a decomposition of the text.
\<close>

section \<open>Characters\<close>

abbreviation code :: "char \<Rightarrow> nat" where
  "code c \<equiv> of_char c"

definition is_space :: "char \<Rightarrow> bool" where
  \<comment> \<open>the code points below 256 for which \<open>str.isspace\<close> holds\<close>
  "is_space c = (code c \<in> {9, 10, 11, 12, 13, 28, 29, 30, 31, 32, 133, 160})"

definition is_digit :: "char \<Rightarrow> bool" where
  "is_digit c = (48 \<le> code c \<and> code c \<le> 57)"

definition is_upper :: "char \<Rightarrow> bool" where
  "is_upper c = (65 \<le> code c \<and> code c \<le> 90)"

definition is_lower :: "char \<Rightarrow> bool" where
  "is_lower c = (97 \<le> code c \<and> code c \<le> 122)"

definition is_letter :: "char \<Rightarrow> bool" where
  "is_letter c = (is_upper c \<or> is_lower c)"

definition is_alnum :: "char \<Rightarrow> bool" where
  \<comment> \<open>\<open>[A-Za-z0-9]\<close>\<close>
  "is_alnum c = (is_letter c \<or> is_digit c)"

definition to_lower :: "char \<Rightarrow> char" where
  "to_lower c = (if is_upper c then char_of (code c + 32) else c)"

definition lower :: "string \<Rightarrow> string" where
  "lower s = map to_lower s"

definition digit_val :: "char \<Rightarrow> nat" where
  "digit_val c = code c - 48"

section \<open>Searching and splitting\<close>

definition lstrip :: "string \<Rightarrow> string" where
  "lstrip s = dropWhile is_space s"

definition strip :: "string \<Rightarrow> string" where
  "strip s = rev (lstrip (rev (lstrip s)))"

definition prefix_of :: "string \<Rightarrow> string \<Rightarrow> bool" where
  \<comment> \<open>\<open>s.startswith(p)\<close>\<close>
  "prefix_of p s = (take (length p) s = p)"

definition starts_at :: "string \<Rightarrow> string \<Rightarrow> nat \<Rightarrow> bool" where
  \<comment> \<open>\<open>s.startswith(p, i)\<close> for \<open>i \<le> len(s)\<close>\<close>
  "starts_at p s i = prefix_of p (drop i s)"

fun find_sub :: "string \<Rightarrow> string \<Rightarrow> nat option" where
  \<comment> \<open>\<open>s.find(p)\<close>: the leftmost position\<close>
  "find_sub p s = (if prefix_of p s then Some 0
                   else (case s of [] \<Rightarrow> None | c # s' \<Rightarrow> map_option Suc (find_sub p s')))"

declare find_sub.simps [simp del]

definition contains :: "string \<Rightarrow> string \<Rightarrow> bool" where
  \<comment> \<open>\<open>p in s\<close>\<close>
  "contains p s = (find_sub p s \<noteq> None)"

fun rfind_sub :: "string \<Rightarrow> string \<Rightarrow> nat option" where
  \<comment> \<open>\<open>s.rfind(p)\<close>: the rightmost position\<close>
  "rfind_sub p [] = (if p = [] then Some 0 else None)"
| "rfind_sub p (c # s) =
     (case rfind_sub p s of
        Some i \<Rightarrow> Some (Suc i)
      | None \<Rightarrow> (if prefix_of p (c # s) then Some 0 else None))"

definition rsplit_last :: "string \<Rightarrow> string \<Rightarrow> string" where
  \<comment> \<open>\<open>s.rsplit(p, 1)[-1]\<close>\<close>
  "rsplit_last p s = (case rfind_sub p s of None \<Rightarrow> s | Some i \<Rightarrow> drop (i + length p) s)"

definition split_once :: "char \<Rightarrow> string \<Rightarrow> string \<times> string" where
  \<comment> \<open>\<open>s.split(c, 1)\<close> where \<open>c\<close> occurs in \<open>s\<close>\<close>
  "split_once c s = (takeWhile (\<lambda>x. x \<noteq> c) s, tl (dropWhile (\<lambda>x. x \<noteq> c) s))"

fun split_all :: "char \<Rightarrow> string \<Rightarrow> string list" where
  \<comment> \<open>\<open>s.split(c)\<close>\<close>
  "split_all c [] = [[]]"
| "split_all c (x # s) =
     (if x = c then [] # split_all c s
      else (case split_all c s of [] \<Rightarrow> [[x]] | w # ws \<Rightarrow> (x # w) # ws))"

fun join :: "string \<Rightarrow> string list \<Rightarrow> string" where
  \<comment> \<open>\<open>sep.join(parts)\<close>\<close>
  "join sep [] = []"
| "join sep [x] = x"
| "join sep (x # y # ys) = x @ sep @ join sep (y # ys)"

section \<open>Encodings and numerals\<close>

definition utf8_char :: "char \<Rightarrow> nat list" where
  "utf8_char c = (if code c < 128 then [code c] else [192 + code c div 64, 128 + code c mod 64])"

definition utf8 :: "string \<Rightarrow> nat list" where
  \<comment> \<open>\<open>s.encode()\<close>\<close>
  "utf8 s = concat (map utf8_char s)"

fun show_nat :: "nat \<Rightarrow> string" where
  "show_nat n = (if n < 10 then [char_of (48 + n)]
                 else show_nat (n div 10) @ [char_of (48 + n mod 10)])"

declare show_nat.simps [simp del]

definition show_int :: "int \<Rightarrow> string" where
  \<comment> \<open>\<open>str(i)\<close>\<close>
  "show_int i = (if i < 0 then CHR ''-'' # show_nat (nat (- i)) else show_nat (nat i))"

definition nat_of_digits :: "string \<Rightarrow> nat" where
  "nat_of_digits s = foldl (\<lambda>n c. 10 * n + digit_val c) 0 s"

definition decimal_of :: "string \<Rightarrow> rat option" where
  \<comment> \<open>an unsigned decimal: digits, at most one point, at least one digit\<close>
  "decimal_of s =
     (let ip = takeWhile is_digit s; r = dropWhile is_digit s
      in case r of
           [] \<Rightarrow> if ip = [] then None else Some (of_nat (nat_of_digits ip))
         | c # fp \<Rightarrow>
             if c = CHR ''.'' \<and> list_all is_digit fp \<and> (ip \<noteq> [] \<or> fp \<noteq> [])
             then Some (of_nat (nat_of_digits (ip @ fp)) / 10 ^ length fp) else None)"

definition float_of :: "string \<Rightarrow> dbl option" where
  \<comment> \<open>\<open>float(s)\<close> for a text over \<open>0-9 . / -\<close>; \<open>None\<close> is \<open>ValueError\<close>\<close>
  "float_of s = (case s of
      CHR ''-'' # r \<Rightarrow> map_option (\<lambda>x. rnd (- x)) (decimal_of r)
    | _ \<Rightarrow> map_option rnd (decimal_of s))"

definition float_div :: "dbl \<Rightarrow> dbl \<Rightarrow> dbl option" where
  \<comment> \<open>\<open>a / b\<close>; \<open>None\<close> is \<open>ZeroDivisionError\<close>\<close>
  "float_div a b = (case (a, b) of
      (_, Fin y) \<Rightarrow> if y = 0 then None
                    else (case a of Fin x \<Rightarrow> Some (rnd (x / y))
                          | NaN \<Rightarrow> Some NaN
                          | PInf \<Rightarrow> Some (if y > 0 then PInf else NInf)
                          | NInf \<Rightarrow> Some (if y > 0 then NInf else PInf))
    | (Fin x, NaN) \<Rightarrow> Some NaN
    | (Fin x, _) \<Rightarrow> Some (Fin 0)
    | _ \<Rightarrow> Some NaN)"

section \<open>Lemmas\<close>

lemma prefix_of_iff: "prefix_of p s \<longleftrightarrow> (\<exists>t. s = p @ t)"
  by (metis append_eq_conv_conj append_take_drop_id prefix_of_def)

lemma prefix_of_append [simp]: "prefix_of p (p @ s)"
  by (simp add: prefix_of_def)

lemma prefix_of_Nil [simp]: "prefix_of [] s" "prefix_of p [] \<longleftrightarrow> p = []"
  by (auto simp: prefix_of_def)

lemma prefix_of_Cons [simp]: "prefix_of (a # p) (b # s) \<longleftrightarrow> a = b \<and> prefix_of p s"
  by (auto simp: prefix_of_def)

lemma find_sub_Some:
  "find_sub p s = Some i \<Longrightarrow> \<exists>u t. s = u @ p @ t \<and> length u = i"
proof (induction s arbitrary: i)
  case Nil
  then show ?case by (subst (asm) find_sub.simps) (auto split: if_splits)
next
  case (Cons c s)
  show ?case
  proof (cases "prefix_of p (c # s)")
    case True
    then obtain t where t: "c # s = p @ t" by (auto simp: prefix_of_iff)
    from True Cons.prems have "i = 0" by (subst (asm) find_sub.simps) simp
    with t show ?thesis by (intro exI [of _ "[]"] exI [of _ t]) simp
  next
    case False
    with Cons.prems obtain j where j: "find_sub p s = Some j" "i = Suc j"
      by (subst (asm) find_sub.simps) auto
    then obtain u t where "s = u @ p @ t" "length u = j" using Cons.IH by blast
    with j(2) show ?thesis by (intro exI [of _ "c # u"] exI [of _ t]) simp
  qed
qed

lemma find_sub_bound: "find_sub p s = Some i \<Longrightarrow> i + length p \<le> length s"
  by (auto dest: find_sub_Some)

lemma find_sub_None_iff: "find_sub p s = None \<longleftrightarrow> (\<nexists>u t. s = u @ p @ t)"
proof (induction s)
  case Nil
  then show ?case by (subst find_sub.simps) auto
next
  case (Cons c s)
  show ?case
  proof (cases "prefix_of p (c # s)")
    case True
    then have "\<exists>u t. c # s = u @ p @ t" by (metis append_Nil prefix_of_iff)
    with True show ?thesis by (subst find_sub.simps) simp
  next
    case False
    then have "(\<exists>u t. c # s = u @ p @ t) \<longleftrightarrow> (\<exists>u t. s = u @ p @ t)"
      by (auto simp: Cons_eq_append_conv prefix_of_iff)
    with False Cons.IH show ?thesis by (subst find_sub.simps) (auto split: option.splits)
  qed
qed

lemma contains_iff: "contains p s \<longleftrightarrow> (\<exists>u t. s = u @ p @ t)"
  by (simp add: contains_def find_sub_None_iff)

lemma rfind_sub_None_iff: "rfind_sub p s = None \<longleftrightarrow> \<not> contains p s"
proof (induction s)
  case Nil
  then show ?case by (auto simp: contains_iff)
next
  case (Cons c s)
  show ?case
  proof (cases "rfind_sub p s")
    case None
    with Cons have "\<not> contains p s" by simp
    then have "contains p (c # s) \<longleftrightarrow> prefix_of p (c # s)"
      by (auto simp: contains_iff prefix_of_iff Cons_eq_append_conv)
    with None show ?thesis by simp
  next
    case (Some i)
    with Cons obtain u t where "s = u @ p @ t" by (auto simp: contains_iff)
    then have "c # s = (c # u) @ p @ t" by simp
    then have "contains p (c # s)" unfolding contains_iff by blast
    with Some show ?thesis by simp
  qed
qed

lemma rfind_sub_Some:
  "rfind_sub p s = Some i \<Longrightarrow> i \<le> length s \<and> prefix_of p (drop i s) \<and>
     (\<forall>j. i < j \<longrightarrow> j \<le> length s \<longrightarrow> \<not> prefix_of p (drop j s))"
proof (induction s arbitrary: i)
  case Nil
  then show ?case by (auto split: if_splits)
next
  case (Cons c s)
  show ?case
  proof (cases "rfind_sub p s")
    case None
    with Cons.prems have i: "i = 0" "prefix_of p (c # s)" by (auto split: if_splits)
    have "\<not> prefix_of p (drop j s)" for j
    proof
      assume "prefix_of p (drop j s)"
      then have "contains p s"
        unfolding contains_iff prefix_of_iff by (metis append_take_drop_id)
      with None show False by (simp add: rfind_sub_None_iff)
    qed
    with i show ?thesis by (auto simp: drop_Cons split: nat.splits)
  next
    case (Some j)
    with Cons.prems Cons.IH [OF Some] show ?thesis
      by (auto simp: drop_Cons split: nat.splits)
  qed
qed

lemma rsplit_last_absent: "\<not> contains p s \<Longrightarrow> rsplit_last p s = s"
  by (metis option.simps(4) rfind_sub_None_iff rsplit_last_def)

lemma strip_Nil [simp]: "strip [] = []"
  by (simp add: strip_def lstrip_def)

lemma lstrip_id: "(\<And>c. c \<in> set s \<Longrightarrow> \<not> is_space c) \<Longrightarrow> lstrip s = s"
  by (cases s) (auto simp: lstrip_def)

lemma strip_id: "(\<And>c. c \<in> set s \<Longrightarrow> \<not> is_space c) \<Longrightarrow> strip s = s"
  by (metis lstrip_id rev_rev_ident set_rev strip_def)

lemma set_lstrip: "set (lstrip s) \<subseteq> set s"
  by (auto simp: lstrip_def dest: set_dropWhileD)

lemma set_strip: "set (strip s) \<subseteq> set s"
  unfolding strip_def using set_lstrip [of "rev (lstrip s)"] set_lstrip [of s] by auto

lemma length_lstrip: "length (lstrip s) \<le> length s"
  by (simp add: lstrip_def length_dropWhile_le)

lemma length_strip: "length (strip s) \<le> length s"
  unfolding strip_def using length_lstrip [of s] length_lstrip [of "rev (lstrip s)"] by simp

lemma strip_idem [simp]: "strip (strip s) = strip s"
proof -
  have l: "lstrip (lstrip t) = lstrip t" for t by (simp add: lstrip_def dropWhile_idem)
  have "\<not> is_space (hd (strip s))" if "strip s \<noteq> []"
  proof -
    obtain v where v: "lstrip s = strip s @ v" unfolding strip_def
      by (metis dropWhile_append3 lstrip_def rev_append rev_rev_ident takeWhile_dropWhile_id)
    with that have "hd (lstrip s) = hd (strip s)" "lstrip s \<noteq> []" by auto
    then show ?thesis by (metis hd_dropWhile lstrip_def)
  qed
  then have "lstrip (strip s) = strip s" by (cases "strip s") (auto simp: lstrip_def)
  then show ?thesis unfolding strip_def by (simp add: l)
qed

lemma code_char_of [simp]: "n < 256 \<Longrightarrow> code (char_of n) = n"
  by simp

lemma digit_char: "n < 10 \<Longrightarrow> is_digit (char_of (48 + n)) \<and> digit_val (char_of (48 + n)) = n"
  by (simp add: is_digit_def digit_val_def)

lemma show_nat_digits: "\<forall>c \<in> set (show_nat n). is_digit c"
proof (induction n rule: show_nat.induct)
  case (1 n)
  then show ?case
    by (subst show_nat.simps) (auto simp: digit_char)
qed

lemma show_nat_not_Nil [simp]: "show_nat n \<noteq> []"
  by (subst show_nat.simps) auto

lemma nat_of_digits_snoc: "nat_of_digits (s @ [c]) = 10 * nat_of_digits s + digit_val c"
  by (simp add: nat_of_digits_def)

lemma nat_of_digits_show_nat [simp]: "nat_of_digits (show_nat n) = n"
proof (induction n rule: show_nat.induct)
  case (1 n)
  show ?case
  proof (cases "n < 10")
    case True
    then show ?thesis
      by (subst show_nat.simps) (simp add: nat_of_digits_def digit_char)
  next
    case False
    with 1 show ?thesis
      by (subst show_nat.simps) (simp add: nat_of_digits_snoc digit_char)
  qed
qed

lemma show_nat_inject [simp]: "show_nat m = show_nat n \<longleftrightarrow> m = n"
  by (metis nat_of_digits_show_nat)

lemma decimal_of_digits:
  assumes "s \<noteq> []" "\<forall>c \<in> set s. is_digit c"
  shows "decimal_of s = Some (of_nat (nat_of_digits s))"
proof -
  have tw: "takeWhile is_digit s = s" and dw: "dropWhile is_digit s = []"
    using assms(2) by auto
  show ?thesis unfolding decimal_of_def tw dw Let_def using assms(1) by simp
qed

lemma is_digit_not_space: "is_digit c \<Longrightarrow> \<not> is_space c"
  by (auto simp: is_digit_def is_space_def)

lemma utf8_append [simp]: "utf8 (s @ t) = utf8 s @ utf8 t"
  by (simp add: utf8_def)

lemma split_once_join: "c \<in> set s \<Longrightarrow> s = fst (split_once c s) @ c # snd (split_once c s)"
  by (induction s) (auto simp: split_once_def)

lemma rsplit_last_uniform:
  assumes "p \<noteq> []" "set p = {c}" "c \<notin> set t"
  shows "rsplit_last p (u @ p @ t) = t"
proof -
  let ?s = "u @ p @ t"
  have "contains p ?s" unfolding contains_iff by blast
  then obtain i where i: "rfind_sub p ?s = Some i" using rfind_sub_None_iff by fastforce
  note spec = rfind_sub_Some [OF i]
  have "length u \<le> i"
  proof (rule ccontr)
    assume "\<not> length u \<le> i"
    then have "i < length u" "length u \<le> length ?s" by simp_all
    then have "\<not> prefix_of p (drop (length u) ?s)" using spec by blast
    then show False by simp
  qed
  have "i \<le> length u"
  proof (rule ccontr)
    assume "\<not> i \<le> length u"
    then obtain k where k: "i = length u + k" "0 < k" by (metis less_imp_add_positive not_le)
    obtain r where r: "drop i ?s = p @ r" using spec by (auto simp: prefix_of_iff)
    show False
    proof (cases "k < length p")
      case True
      have "drop i ?s = drop k p @ t" using k True by simp
      with r have "p @ r = drop k p @ t" by simp
      then have "(p @ r) ! (length p - k) = (drop k p @ t) ! (length p - k)" by simp
      moreover have "length p - k < length p" using k(2) assms(1) by simp
      ultimately have "p ! (length p - k) = t ! 0" by (simp add: nth_append)
      moreover have "p ! (length p - k) = c"
        using assms(2) \<open>length p - k < length p\<close> nth_mem by fastforce
      moreover have "t \<noteq> []" using \<open>p @ r = drop k p @ t\<close> k True
        by (metis append_Nil2 assms(1) diff_less length_append length_drop length_greater_0_conv not_add_less1)
      ultimately show False using assms(3) by (metis hd_conv_nth hd_in_set)
    next
      case False
      then have "drop i ?s = drop (k - length p) t" using k by simp
      with r have "set p \<subseteq> set t" by (metis Un_upper1 set_append set_drop_subset subset_trans)
      then show False using assms by auto
    qed
  qed
  with \<open>length u \<le> i\<close> i show ?thesis by (simp add: rsplit_last_def)
qed

lemma lstrip_keeps: "c \<in> set s \<Longrightarrow> \<not> is_space c \<Longrightarrow> c \<in> set (lstrip s)"
  by (induction s) (auto simp: lstrip_def)

lemma strip_keeps: "c \<in> set s \<Longrightarrow> \<not> is_space c \<Longrightarrow> c \<in> set (strip s)"
  unfolding strip_def by (simp add: lstrip_keeps)

lemma digit_cases: "is_digit c \<Longrightarrow> c \<in> set ''0123456789''"
proof -
  assume "is_digit c"
  then have "code c \<in> {48, 49, 50, 51, 52, 53, 54, 55, 56, 57}"
    unfolding is_digit_def insert_iff empty_iff by presburger
  then have "c \<in> char_of ` {48, 49, 50, 51, 52, 53, 54, 55, 56, 57 :: nat}"
    by (metis char_of_char image_eqI)
  then show ?thesis by (simp add: char_of_def bit_Suc_0_iff)
qed

lemma find_sub_Cons_skip: "\<not> prefix_of p (c # s) \<Longrightarrow> find_sub p (c # s) = map_option Suc (find_sub p s)"
  by (subst find_sub.simps) simp

lemma find_sub_char: "p \<noteq> [] \<Longrightarrow> hd p \<notin> set s \<Longrightarrow> find_sub p s = None"
  unfolding find_sub_None_iff by (metis UnCI hd_in_set hd_append2 set_append)


end
