(* ===== verification/Py_Float.thy ===== *)
theory Py_Float
  imports Py_Base
begin

text \<open>
  Facts about the rounding of binary64 arithmetic that the scoring rules need: rounding keeps
  the sign, is exact on integers below \<open>2 ^ 53\<close>, moves a number below one by at most
  \<open>2 ^ (- 54)\<close> and a number below \<open>2 ^ m\<close> by at most \<open>2 ^ (m - 54)\<close>.
\<close>

lemma half_even_of_int [simp]: "half_even (of_int k) = k"
  by (simp add: half_even_def)

lemma half_even_nonneg: "0 \<le> a \<Longrightarrow> 0 \<le> half_even a"
  by (simp add: half_even_def Let_def add_nonneg_nonneg)

lemma half_even_error: "\<bar>of_int (half_even a) - a\<bar> \<le> 1/2"
proof -
  have f: "of_int \<lfloor>a\<rfloor> \<le> a" "a < of_int \<lfloor>a\<rfloor> + 1" by linarith+
  show ?thesis
    using f unfolding half_even_def Let_def by (auto simp: abs_le_iff)
qed

lemma rnd_pos_nonneg: "0 \<le> a \<Longrightarrow> 0 \<le> rnd_pos a"
  by (auto simp: rnd_pos_def Let_def intro!: mult_nonneg_nonneg half_even_nonneg divide_nonneg_nonneg)

lemma rnd_0 [simp]: "rnd 0 = Fin 0"
  by (simp add: rnd_def)

lemma rnd_nonneg: "0 \<le> x \<Longrightarrow> rnd x = PInf \<or> (\<exists>y. rnd x = Fin y \<and> 0 \<le> y)"
  by (auto simp: rnd_def Let_def rnd_pos_nonneg)

lemma rnd_abs_minus: "dbl_abs (rnd (x - y)) = dbl_abs (rnd (y - x))"
proof (cases "x = y")
  case False
  have "\<bar>x - y\<bar> = \<bar>y - x\<bar>" by (rule abs_minus_commute)
  with False show ?thesis
    unfolding rnd_def Let_def by (simp add: abs_mult abs_sgn_eq del: abs_diff_less_iff)
qed simp

lemma dbl_abs_sub_commute: "dbl_abs (dbl_sub a b) = dbl_abs (dbl_sub b a)"
  by (cases a; cases b) (auto simp: rnd_abs_minus)

lemma dbl_max_commute:
  "a \<noteq> NaN \<Longrightarrow> b \<noteq> NaN \<Longrightarrow> dbl_max a b = dbl_max b a"
  by (cases a; cases b) (auto simp: dbl_max_def dbl_lt_def)

section \<open>The exponent of a rational\<close>

lemma ilog2_le:
  assumes "0 < a" shows "2 powi ilog2 a \<le> a"
proof -
  obtain n d where nd: "quotient_of a = (n, d)" by fastforce
  then have a: "a = of_int n / of_int d" "0 < d"
    using quotient_of_div quotient_of_denom_pos by blast+
  with assms have "0 < n" by (simp add: zero_less_divide_iff)
  define k where "k = bitlen n - bitlen d"
  have n1: "2 ^ nat (bitlen n - 1) \<le> n" using bitlen_bounds \<open>0 < n\<close> by blast
  have d1: "d < 2 ^ nat (bitlen d)" using bitlen_bounds \<open>0 < d\<close> by blast
  have pn: "0 < bitlen n" "0 < bitlen d"
    using \<open>0 < n\<close> \<open>0 < d\<close> bitlen_nonneg [of n] bitlen_nonneg [of d]
      bitlen_eq_zero_iff [of n] bitlen_eq_zero_iff [of d] by linarith+
  have n2: "(2::rat) powi (bitlen n - 1) \<le> of_int n"
  proof -
    have "(of_int (2 ^ nat (bitlen n - 1)) :: rat) \<le> of_int n" using n1 by linarith
    then show ?thesis using pn by (simp add: power_int_def)
  qed
  have d2: "(of_int d :: rat) \<le> 2 powi bitlen d"
  proof -
    have "(of_int d :: rat) < of_int (2 ^ nat (bitlen d))" using d1 by linarith
    then show ?thesis using pn by (simp add: power_int_def)
  qed
  have "(2::rat) powi (k - 1) = 2 powi (bitlen n - 1) / 2 powi bitlen d"
    by (simp add: k_def power_int_diff power_int_add field_simps)
  also have "\<dots> \<le> of_int n / of_int d"
    using n2 d2 \<open>0 < d\<close> \<open>0 < n\<close> by (intro frac_le) auto
  finally have "2 powi (k - 1) \<le> a" using a by simp
  then show ?thesis unfolding ilog2_def nd by (auto simp: Let_def k_def)
qed

lemma ilog2_less:
  assumes "0 < a" "a < 2 powi m" shows "ilog2 a < m"
proof -
  have "2 powi ilog2 a < (2::rat) powi m" using ilog2_le [OF assms(1)] assms(2) by linarith
  then show ?thesis using power_int_increasing [of m "ilog2 a" "2::rat"] by (meson leI not_less one_le_numeral)
qed

section \<open>Exactness and error\<close>

lemma rnd_pos_of_nat:
  assumes "0 < n" "n < 2 ^ 53" shows "rnd_pos (of_nat n) = of_nat n"
proof -
  have "(of_nat n :: rat) < 2 powi 53"
  proof -
    have "(of_nat n :: rat) < of_nat (2 ^ 53)" using assms(2) by (simp only: of_nat_less_iff)
    then show ?thesis by (simp add: power_int_def)
  qed
  with assms(1) have "ilog2 (of_nat n) < 53" by (intro ilog2_less) auto
  define q where "q = max (ilog2 (of_nat n) - 52) (- 1074)"
  from \<open>ilog2 (of_nat n) < 53\<close> have q: "q \<le> 0" by (auto simp: q_def)
  define k where "k = nat (- q)"
  have p: "(2::rat) powi q = 1 / 2 ^ k"
    using q by (cases "q = 0") (auto simp: k_def power_int_def power_inverse divide_simps)
  have "(of_nat n :: rat) / 2 powi q = of_int (int n * 2 ^ k)"
    by (simp add: p)
  then have "half_even (of_nat n / 2 powi q) = int n * 2 ^ k"
    by (metis half_even_of_int)
  then show ?thesis unfolding rnd_pos_def by (simp add: q_def [symmetric] Let_def p)
qed

lemma rnd_of_nat:
  assumes "n < 2 ^ 53" shows "rnd (of_nat n) = Fin (of_nat n)"
proof (cases "n = 0")
  case False
  with assms have r: "rnd_pos (of_nat n) = of_nat n" by (simp add: rnd_pos_of_nat)
  have "(of_nat n :: rat) < max_dbl"
  proof -
    have "(of_nat n :: rat) < of_nat (2 ^ 53)" using assms by (simp only: of_nat_less_iff)
    also have "\<dots> \<le> max_dbl" by (simp add: max_dbl_def)
    finally show ?thesis .
  qed
  with r False show ?thesis by (simp add: rnd_def Let_def)
qed simp

lemma rnd_of_int:
  assumes "\<bar>i\<bar> < 2 ^ 53" shows "rnd (of_int i) = Fin (of_int i)"
proof (cases "0 \<le> i")
  case True
  with assms rnd_of_nat [of "nat i"] show ?thesis by (simp add: nat_less_iff)
next
  case False
  define n where "n = nat (- i)"
  have i: "(of_int i :: rat) = - of_nat n" and n: "0 < n" "n < 2 ^ 53"
    using False assms by (auto simp: n_def nat_less_iff)
  from rnd_of_nat [OF n(2)] n(1) have "rnd_pos (of_nat n) < max_dbl" "rnd_pos (of_nat n) = of_nat n"
    by (auto simp: rnd_def Let_def rnd_pos_of_nat n split: if_splits)
  with n(1) show ?thesis by (simp add: i rnd_def Let_def)
qed

lemma rnd_pos_error:
  "\<bar>rnd_pos a - a\<bar> \<le> 2 powi (max (ilog2 a - 52) (- 1074)) / 2"
proof -
  define p where "p = (2::rat) powi (max (ilog2 a - 52) (- 1074))"
  have p: "0 < p" by (simp add: p_def)
  have "\<bar>rnd_pos a - a\<bar> = \<bar>of_int (half_even (a / p)) - a / p\<bar> * p"
    using p by (simp add: rnd_pos_def Let_def p_def [symmetric] abs_mult_pos [symmetric] field_simps)
  also have "\<dots> \<le> 1/2 * p" using p half_even_error [of "a / p"] by (intro mult_right_mono) auto
  finally show ?thesis by (simp add: p_def)
qed

lemma rnd_below_one:
  assumes "0 < a" "a \<le> 1 - 1 / 2 ^ 53" shows "\<exists>y. rnd a = Fin y \<and> 0 \<le> y \<and> y < 1"
proof -
  have "a < 2 powi 0" using assms(2) by (simp add: field_simps)
  with assms(1) have "ilog2 a < 0" by (rule ilog2_less)
  then have "max (ilog2 a - 52) (- 1074) \<le> - 53" by simp
  then have "(2::rat) powi (max (ilog2 a - 52) (- 1074)) \<le> 2 powi (- 53)"
    by (intro power_int_increasing) auto
  with rnd_pos_error [of a] have "\<bar>rnd_pos a - a\<bar> \<le> 2 powi (- 53) / 2" by linarith
  also have "\<dots> = (1 / 2 ^ 54 :: rat)" by (simp add: power_int_def power_one_over)
  finally have "\<bar>rnd_pos a - a\<bar> \<le> 1 / 2 ^ 54" .
  then have "rnd_pos a \<le> a + 1 / 2 ^ 54" by linarith
  with assms(2) have "rnd_pos a < 1" by simp
  moreover have "1 \<le> max_dbl" by (simp add: max_dbl_def)
  ultimately show ?thesis using assms(1) rnd_pos_nonneg [of a] by (auto simp: rnd_def Let_def)
qed

lemma rnd_error:
  assumes a: "0 \<le> a" "a < 2 ^ m" and m: "m \<le> 1000"
  shows "\<exists>y. rnd a = Fin y \<and> 0 \<le> y \<and> \<bar>y - a\<bar> \<le> 2 ^ m / 2 ^ 54"
proof (cases "a = 0")
  case False
  with a(1) have "0 < a" by simp
  have "a < 2 powi int m" using a(2) by (simp add: power_int_def)
  with \<open>0 < a\<close> have "ilog2 a < int m" by (rule ilog2_less)
  then have "max (ilog2 a - 52) (- 1074) \<le> int m - 53" by simp
  then have "(2::rat) powi (max (ilog2 a - 52) (- 1074)) \<le> 2 powi (int m - 53)"
    by (intro power_int_increasing) auto
  also have "\<dots> = 2 ^ m / 2 ^ 53" by (simp add: power_int_diff)
  finally have e: "\<bar>rnd_pos a - a\<bar> \<le> 2 ^ m / 2 ^ 54" using rnd_pos_error [of a] by simp
  have "(2::rat) ^ m \<le> 2 ^ 1000" using m by (intro power_increasing) auto
  moreover have "(2::rat) ^ m / 2 ^ 54 \<le> 2 ^ m" by (simp add: divide_le_eq)
  moreover have "(2::rat) ^ 1000 + 2 ^ 1000 \<le> max_dbl" by (simp add: max_dbl_def)
  ultimately have "rnd_pos a < max_dbl" using e a(2) by linarith
  with e \<open>0 < a\<close> show ?thesis using rnd_pos_nonneg [of a] by (auto simp: rnd_def Let_def)
qed simp

lemma rnd_nonpos:
  assumes "x \<le> 0" "rnd x = Fin y" shows "y \<le> 0"
proof -
  from assms have "y = sgn x * rnd_pos \<bar>x\<bar> \<or> y = 0" by (auto simp: rnd_def Let_def split: if_splits)
  with assms(1) rnd_pos_nonneg [of "\<bar>x\<bar>"] show ?thesis by (auto simp: sgn_if split: if_splits)
qed

end
