(* ===== verification/Score_Result.thy ===== *)
theory Score_Result
  imports Py_Base
begin

text \<open>
  The result of scoring one episode: \<open>ScoreResult\<close> and its \<open>binary\<close> constructor
  (\<open>reference/sdk/src/uenv/sdk/__init__.py\<close>), and its form as a dataclass instance, which
  \<open>to_wire\<close> reads field by field. Only the Worker fills \<open>status\<close>, \<open>scorer\<close> and \<open>error\<close>.
\<close>

record score_result =
  sr_success :: "bool option"
  sr_metrics :: "val list"
  sr_reward :: "dbl option"
  sr_evidence :: "val list"
  sr_generation_rewards :: "val list option"
  sr_status :: "string option"
  sr_scorer :: "val option"
  sr_error :: "val option"

definition empty_score :: score_result where
  "empty_score = \<lparr>sr_success = None, sr_metrics = [], sr_reward = None, sr_evidence = [],
     sr_generation_rewards = None, sr_status = None, sr_scorer = None, sr_error = None\<rparr>"

definition metric :: "string \<Rightarrow> val \<Rightarrow> string \<Rightarrow> string \<Rightarrow> val" where
  "metric name v unt dir = VDict [(''name'', VStr name), (''value'', v), (''unit'', VStr unt),
     (''direction'', VStr dir)]"

definition float_bool :: "bool \<Rightarrow> dbl" where
  \<comment> \<open>\<open>float(b)\<close>\<close>
  "float_bool b = Fin (of_bool b)"

definition binary_score :: "val \<Rightarrow> score_result res" where
  "binary_score passed =
     (case passed of
        VBool b \<Rightarrow>
          Inr (empty_score\<lparr>sr_success := Some b,
                 sr_metrics := [metric ''accuracy'' (VFloat (float_bool b)) ''ratio'' ''higher''],
                 sr_reward := Some (float_bool b)\<rparr>)
      | _ \<Rightarrow> Inl (TypeError ''Binary score requires an actual bool''))"

fun opt_val :: "('a \<Rightarrow> val) \<Rightarrow> 'a option \<Rightarrow> val" where
  "opt_val f None = VNone"
| "opt_val f (Some x) = f x"

definition score_obj :: "score_result \<Rightarrow> val" where
  \<comment> \<open>the instance as \<open>dataclasses.fields\<close> presents it\<close>
  "score_obj r = VObj ''ScoreResult'' [
     (''success'', opt_val VBool (sr_success r)),
     (''metrics'', VList (sr_metrics r)),
     (''reward'', opt_val VFloat (sr_reward r)),
     (''evidence'', VList (sr_evidence r)),
     (''generation_rewards'', opt_val VList (sr_generation_rewards r)),
     (''status'', opt_val VStr (sr_status r)),
     (''scorer'', opt_val id (sr_scorer r)),
     (''error'', opt_val id (sr_error r))]"

text \<open>What a binary result promises: the verdict, the reward and the one metric agree.\<close>

definition binary_result :: "bool \<Rightarrow> score_result \<Rightarrow> bool" where
  "binary_result b r =
     (sr_success r = Some b \<and> sr_reward r = Some (Fin (of_bool b)) \<and>
      sr_metrics r = [metric ''accuracy'' (VFloat (Fin (of_bool b))) ''ratio'' ''higher''] \<and>
      sr_generation_rewards r = None \<and> sr_status r = None \<and> sr_scorer r = None \<and> sr_error r = None)"

lemma binary_score_bool [simp]:
  "binary_score (VBool b) = Inr (empty_score\<lparr>sr_success := Some b,
     sr_metrics := [metric ''accuracy'' (VFloat (float_bool b)) ''ratio'' ''higher''],
     sr_reward := Some (float_bool b)\<rparr>)"
  by (simp add: binary_score_def)

lemma binary_score_Inr_iff:
  "binary_score v = Inr r \<longleftrightarrow>
     (\<exists>b. v = VBool b \<and> r = empty_score\<lparr>sr_success := Some b,
       sr_metrics := [metric ''accuracy'' (VFloat (float_bool b)) ''ratio'' ''higher''],
       sr_reward := Some (float_bool b)\<rparr>)"
  by (cases v) (auto simp: binary_score_def)

lemma binary_score_result: "binary_score v = Inr r \<Longrightarrow> \<exists>b. v = VBool b \<and> binary_result b r"
proof -
  assume "binary_score v = Inr r"
  then obtain b where "v = VBool b" "r = empty_score\<lparr>sr_success := Some b,
     sr_metrics := [metric ''accuracy'' (VFloat (float_bool b)) ''ratio'' ''higher''],
     sr_reward := Some (float_bool b)\<rparr>" by (cases v) (simp_all add: binary_score_def)
  then show ?thesis
    by (intro exI [of _ b]) (simp add: binary_result_def empty_score_def float_bool_def)
qed

lemma binary_score_success [simp]:
  "map_sum id sr_success (binary_score (VBool b)) = Inr (Some b)"
  by simp

end
