(* ===== verification/Scoring_Rules.thy ===== *)
theory Scoring_Rules
  imports Py_Text Py_Float Score_Result
begin

text \<open>
  The text scoring rules of \<open>reference/shared/src/uenv_reference_rules/__init__.py\<close>: numeric
  equivalence of decimal and LaTeX-fraction answers, extraction of the last \<open>\boxed{...}\<close>,
  the GSM8K and OlymMATH rules, and the label rules of PubMedQA and SciTab. Exceptions that
  \<open>_numeric\<close> catches and turns into \<open>None\<close> are \<open>None\<close> throughout.
\<close>

section \<open>Numbers\<close>

abbreviation bslash :: char where
  "bslash \<equiv> CHR 0x5C"

fun take_braced_go :: "int \<Rightarrow> string \<Rightarrow> string \<Rightarrow> (string \<times> string) option" where
  "take_braced_go depth taken [] = None"
| "take_braced_go depth taken (c # s) =
     (let depth' = depth + (of_bool (c = CHR ''{'') - of_bool (c = CHR ''}''))
      in if depth' = 0 then Some (rev taken, s) else take_braced_go depth' (c # taken) s)"

definition take_braced :: "string \<Rightarrow> (string \<times> string) option" where
  \<comment> \<open>\<open>None\<close> is the \<open>ValueError\<close> for unbalanced braces\<close>
  "take_braced text = take_braced_go 1 [] text"

lemma take_braced_go_split:
  "take_braced_go depth taken s = Some (a, b) \<Longrightarrow> \<exists>m c. a = rev taken @ m \<and> s = m @ c # b"
proof (induction depth taken s rule: take_braced_go.induct)
  case (2 depth taken c s)
  let ?d = "depth + (of_bool (c = CHR ''{'') - of_bool (c = CHR ''}''))"
  show ?case
  proof (cases "?d = 0")
    case True
    with "2.prems" show ?thesis by (auto simp: Let_def)
  next
    case False
    with "2.prems" have "take_braced_go ?d (c # taken) s = Some (a, b)" by (simp add: Let_def)
    with "2.IH" [OF refl False] obtain m c' where "a = rev (c # taken) @ m" "s = m @ c' # b"
      by blast
    then show ?thesis by (intro exI [of _ "c # m"] exI [of _ c']) simp
  qed
qed simp

lemma take_braced_length:
  "take_braced s = Some (a, b) \<Longrightarrow> length s = length a + length b + 1"
  by (auto simp: take_braced_def dest!: take_braced_go_split)

function elim_frac :: "string \<Rightarrow> string \<Rightarrow> string option" where
  "elim_frac command text =
     (case find_sub command text of
        None \<Rightarrow> Some text
      | Some start \<Rightarrow>
          (case take_braced (drop (start + length command) text) of
             None \<Rightarrow> None
           | Some (numerator, rest) \<Rightarrow>
               if \<not> prefix_of ''{'' rest then None
               else (case take_braced (drop 1 rest) of
                       None \<Rightarrow> None
                     | Some (denominator, tail) \<Rightarrow>
                         elim_frac command
                           (take start text @ strip numerator @ ''/'' @ strip denominator @ tail))))"
  by pat_completeness auto

lemma elim_frac_decreases:
  assumes "find_sub command text = Some start"
    and "take_braced (drop (start + length command) text) = Some (numerator, rest)"
    and "prefix_of ''{'' rest"
    and "take_braced (drop 1 rest) = Some (denominator, tail)"
  shows "length (take start text @ strip numerator @ ''/'' @ strip denominator @ tail) < length text"
proof -
  have "start + length command \<le> length text" using assms(1) by (rule find_sub_bound)
  moreover have "length text - (start + length command) = length numerator + length rest + 1"
    using take_braced_length [OF assms(2)] by simp
  moreover have "length rest = length denominator + length tail + 2"
    using take_braced_length [OF assms(4)] assms(3) by (auto simp: prefix_of_iff)
  ultimately show ?thesis
    using length_strip [of numerator] length_strip [of denominator] by simp
qed

termination elim_frac
  by (relation "measure (\<lambda>(command, text). length text)")
     (auto simp del: length_append simp: elim_frac_decreases [simplified])

declare elim_frac.simps [simp del]

fun clean_number :: "string \<Rightarrow> string \<Rightarrow> string option" where
  "clean_number cleaned [] = Some cleaned"
| "clean_number cleaned (c # s) =
     (if c \<in> set ''0123456789./-'' then clean_number (cleaned @ [c]) s
      else if c = CHR ''+'' \<and> cleaned = [] then clean_number cleaned s
      else if c \<in> {CHR '','', CHR ''$'', CHR '' '', CHR 0x09, CHR 0x0A, CHR 0x0D}
           then clean_number cleaned s
      else None)"

definition number_value :: "string \<Rightarrow> dbl option" where
  "number_value cleaned =
     (if CHR ''/'' \<in> set cleaned
      then (let (numerator, denominator) = split_once (CHR ''/'') cleaned
            in Option.bind (float_of numerator) (\<lambda>x. Option.bind (float_of denominator) (float_div x)))
      else float_of cleaned)"

definition numeric :: "string \<Rightarrow> dbl option" where
  "numeric text =
     Option.bind (elim_frac (bslash # ''dfrac{'') (strip text)) (\<lambda>t1.
     Option.bind (elim_frac (bslash # ''tfrac{'') t1) (\<lambda>t2.
     Option.bind (elim_frac (bslash # ''frac{'') t2) (\<lambda>t3.
     Option.bind (clean_number [] t3) (\<lambda>cleaned.
     Option.bind (number_value cleaned) (\<lambda>value.
       if is_finite value then Some value else None)))))"

definition tolerance :: rat where
  \<comment> \<open>the double \<open>1e-9\<close>\<close>
  "tolerance = (case rnd (1 / 10 ^ 9) of Fin x \<Rightarrow> x | _ \<Rightarrow> 0)"

definition numeric_equivalent :: "string \<Rightarrow> string \<Rightarrow> bool option" where
  "numeric_equivalent left right =
     (case (numeric left, numeric right) of
        (Some a, Some b) \<Rightarrow>
          Some (dbl_le (dbl_abs (dbl_sub a b))
                       (dbl_mul_pos tolerance
                          (dbl_max (dbl_max (dbl_abs a) (dbl_abs b)) (Fin 1))))
      | _ \<Rightarrow> None)"

section \<open>Boxed answers, assignments, normalisation\<close>

definition boxed_marker :: string where
  "boxed_marker = bslash # ''boxed{''"

function boxed_end :: "string \<Rightarrow> int \<Rightarrow> nat \<Rightarrow> nat option" where
  \<comment> \<open>the inner loop: the position of the closing brace, \<open>None\<close> when the text ends first\<close>
  "boxed_end text depth stop =
     (if stop < length text then
        let depth' = (if text ! (stop - 1) \<noteq> bslash
                      then depth + (of_bool (text ! stop = CHR ''{'') - of_bool (text ! stop = CHR ''}''))
                      else depth)
        in if depth' = 0 then Some stop else boxed_end text depth' (stop + 1)
      else None)"
  by pat_completeness auto
termination
  by (relation "measure (\<lambda>(text, depth, stop). length text - stop)") auto

declare boxed_end.simps [simp del]

lemma boxed_end_bounds: "boxed_end text depth stop = Some e \<Longrightarrow> stop \<le> e \<and> e < length text"
proof (induction "text" depth stop rule: boxed_end.induct)
  case (1 t depth stop)
  let ?d = "if t ! (stop - 1) \<noteq> bslash
            then depth + (of_bool (t ! stop = CHR ''{'') - of_bool (t ! stop = CHR ''}''))
            else depth"
  from "1.prems" have "stop < length t" by (subst (asm) boxed_end.simps) (simp split: if_splits)
  with "1.prems" have "?d = 0 \<and> e = stop \<or> ?d \<noteq> 0 \<and> boxed_end t ?d (stop + 1) = Some e"
    by (subst (asm) boxed_end.simps) (simp only: Let_def if_True split: if_splits, auto)
  with "1.IH" [OF \<open>stop < length t\<close> refl] \<open>stop < length t\<close> show ?case by fastforce
qed

function extract_boxed_from :: "string \<Rightarrow> nat \<Rightarrow> string option \<Rightarrow> string option" where
  "extract_boxed_from text index found =
     (if index < length text then
        if starts_at boxed_marker text index \<and> (index = 0 \<or> text ! (index - 1) \<noteq> bslash) then
          (let start = index + length boxed_marker
           in case boxed_end text 1 start of
                Some stop \<Rightarrow> extract_boxed_from text (stop + 1) (Some (take (stop - start) (drop start text)))
              | None \<Rightarrow> extract_boxed_from text start found)
        else extract_boxed_from text (index + 1) found
      else found)"
  by pat_completeness auto
termination
  by (relation "measure (\<lambda>(text, index, found). length text - index)")
     (auto dest!: boxed_end_bounds simp: boxed_marker_def)

declare extract_boxed_from.simps [simp del]

definition extract_boxed :: "string \<Rightarrow> string option" where
  "extract_boxed text = extract_boxed_from text 0 None"

definition is_name_char :: "char \<Rightarrow> bool" where
  "is_name_char c = (is_alnum c \<or> c = CHR ''_'')"

definition assignment :: "string \<Rightarrow> string" where
  "assignment text =
     (if CHR ''='' \<in> set text then
        (let (left, right) = split_once (CHR ''='') text
         in if list_all is_name_char (strip left) \<and> 1 \<le> length (strip left) \<and> length (strip left) \<le> 3
               \<and> strip right \<noteq> []
            then strip right else text)
      else text)"

function sub_commands :: "string \<Rightarrow> string" where
  \<comment> \<open>\<open>re.sub\<close> over a backslash and the letters after it\<close>
  "sub_commands [] = []"
| "sub_commands (c # s) =
     (if c = bslash
      then (if takeWhile is_letter s \<in> {''frac'', ''cdot'', ''times''} then ''*'' else [])
             @ sub_commands (dropWhile is_letter s)
      else c # sub_commands s)"
  by pat_completeness auto
termination
  by (relation "measure length") (auto simp: less_Suc_eq_le length_dropWhile_le)

definition math_normalize :: "string \<Rightarrow> string" where
  "math_normalize text =
     lower (filter (\<lambda>c. is_alnum c \<or> c \<in> set ''.+-*/[](),^'') (sub_commands text))"

function find_commands :: "string \<Rightarrow> string list" where
  \<comment> \<open>\<open>re.findall\<close> of the command names\<close>
  "find_commands [] = []"
| "find_commands (c # s) =
     (if c = bslash \<and> takeWhile is_letter s \<noteq> []
      then takeWhile is_letter s # find_commands (dropWhile is_letter s)
      else find_commands s)"
  by pat_completeness auto
termination
  by (relation "measure length") (auto simp: less_Suc_eq_le length_dropWhile_le)

section \<open>The rules\<close>

definition private_answer :: "val \<Rightarrow> string res" where
  \<comment> \<open>\<open>private_data["answer"]\<close>, used as a string\<close>
  "private_answer private_data = rbind (item private_data ''answer'') as_str"

definition gsm8k_normalize :: "string \<Rightarrow> string" where
  "gsm8k_normalize text = lower (filter (\<lambda>c. is_alnum c \<or> c \<in> set ''.-/'') text)"

definition score_gsm8k :: "string \<Rightarrow> val \<Rightarrow> score_result res" where
  "score_gsm8k answer private_data = rbind (private_answer private_data) (\<lambda>answer_text.
     let target = strip answer_text; predicted = strip (rsplit_last ''####'' answer)
     in if target = [] \<or> predicted = [] then binary_score (VBool False)
        else if strip answer = target \<or> predicted = target then binary_score (VBool True)
        else (case numeric_equivalent predicted target of
                Some equal \<Rightarrow> binary_score (VBool equal)
              | None \<Rightarrow>
                  (let left = gsm8k_normalize predicted; right = gsm8k_normalize target
                   in binary_score (VBool (left \<noteq> [] \<and> right \<noteq> [] \<and> left = right)))))"

definition supported_commands :: "string list" where
  "supported_commands = [''frac'', ''dfrac'', ''tfrac'', ''cdot'', ''times'', ''left'', ''right'']"

definition score_olymmath :: "string \<Rightarrow> val \<Rightarrow> score_result res" where
  "score_olymmath answer private_data = rbind (private_answer private_data) (\<lambda>answer_text.
     let target = strip answer_text;
         predicted = strip (case extract_boxed answer of Some boxed \<Rightarrow> boxed
                            | None \<Rightarrow> rsplit_last ''####'' answer)
     in if target = [] \<or> predicted = [] then binary_score (VBool False)
        else if predicted = target then binary_score (VBool True)
        else let predicted = assignment predicted
             in (case numeric_equivalent predicted target of
                   Some equal \<Rightarrow> binary_score (VBool equal)
                 | None \<Rightarrow>
                     if \<exists>command \<in> set (find_commands (predicted @ '' '' @ target)).
                          command \<notin> set supported_commands
                     then binary_score (VBool False)
                     else let left = assignment (math_normalize predicted);
                              right = math_normalize target
                          in binary_score (VBool (left \<noteq> [] \<and> right \<noteq> [] \<and> left = right))))"

type_synonym aliases = "(string \<times> string) list"

function word_matches :: "string \<Rightarrow> string \<Rightarrow> nat \<Rightarrow> nat list" where
  \<comment> \<open>\<open>re.finditer\<close>: starts of the non-overlapping matches of the word between non-alphanumerics\<close>
  "word_matches word text i =
     (if i \<le> length text then
        (if starts_at word text i \<and> (i = 0 \<or> \<not> is_alnum (text ! (i - 1)))
            \<and> (i + length word \<ge> length text \<or> \<not> is_alnum (text ! (i + length word)))
         then i # word_matches word text (i + max 1 (length word))
         else word_matches word text (i + 1))
      else [])"
  by pat_completeness auto
termination
  by (relation "measure (\<lambda>(word, text, i). Suc (length text) - i)") auto

declare word_matches.simps [simp del]

definition phrase_step :: "string \<Rightarrow> string \<times> string \<Rightarrow> int \<times> string option \<Rightarrow> int \<times> string option" where
  "phrase_step text entry best = (case entry of (canonical, phrase) \<Rightarrow>
     (case rfind_sub phrase text of
        Some position \<Rightarrow> if int position \<ge> fst best then (int position, Some canonical) else best
      | None \<Rightarrow> best))"

definition word_step :: "string \<Rightarrow> string \<times> string \<Rightarrow> int \<times> string option \<Rightarrow> int \<times> string option" where
  "word_step text entry best = (case entry of (canonical, word) \<Rightarrow>
     (let matches = word_matches word text 0
      in if matches \<noteq> [] \<and> int (List.last matches) \<ge> fst best
         then (int (List.last matches), Some canonical) else best))"

definition label :: "string \<Rightarrow> aliases \<Rightarrow> (string \<times> string) list \<Rightarrow> (string \<times> string) list \<Rightarrow> string option" where
  "label text aliases phrases words =
     (let lowered = lower (strip text)
      in case map_of aliases lowered of
           Some canonical \<Rightarrow> Some canonical
         | None \<Rightarrow> snd (fold (word_step lowered) words (fold (phrase_step lowered) phrases (- 1, None))))"

definition score_label ::
  "string \<Rightarrow> val \<Rightarrow> aliases \<Rightarrow> (string \<times> string) list \<Rightarrow> (string \<times> string) list \<Rightarrow> score_result res" where
  "score_label answer private_data aliases phrases words =
     rbind (private_answer private_data) (\<lambda>reference.
       let expected = label reference aliases phrases words;
           predicted = label answer aliases phrases words
       in binary_score (VBool (expected \<noteq> None \<and> predicted = expected)))"

definition pubmedqa_aliases :: aliases where
  "pubmedqa_aliases = [(''yes'', ''yes''), (''y'', ''yes''), (''no'', ''no''), (''n'', ''no''),
     (''maybe'', ''maybe''), (''uncertain'', ''maybe'')]"

definition pubmedqa_words :: "(string \<times> string) list" where
  "pubmedqa_words = [(''yes'', ''yes''), (''no'', ''no''), (''maybe'', ''maybe'')]"

definition score_pubmedqa :: "string \<Rightarrow> val \<Rightarrow> score_result res" where
  "score_pubmedqa answer private_data =
     score_label answer private_data pubmedqa_aliases [] pubmedqa_words"

definition scitab_aliases :: aliases where
  "scitab_aliases =
     map (\<lambda>k. (k, ''supports'')) [''supports'', ''support'', ''supported'', ''true'']
     @ map (\<lambda>k. (k, ''refutes'')) [''refutes'', ''refute'', ''refuted'', ''false'']
     @ map (\<lambda>k. (k, ''not enough info''))
         [''not enough info'', ''not enough information'', ''nei'', ''insufficient'',
          ''insufficient information'', ''unverifiable'']"

definition scitab_phrases :: "(string \<times> string) list" where
  "scitab_phrases = map (\<lambda>v. (''not enough info'', v))
     [''not enough info'', ''not enough information'', ''insufficient information'',
      ''insufficient evidence'']"

definition scitab_words :: "(string \<times> string) list" where
  "scitab_words =
     map (\<lambda>v. (''supports'', v)) [''supports'', ''support'', ''supported'']
     @ map (\<lambda>v. (''refutes'', v)) [''refutes'', ''refute'', ''refuted'']
     @ [(''not enough info'', ''nei'')]"

definition score_scitab :: "string \<Rightarrow> val \<Rightarrow> score_result res" where
  "score_scitab answer private_data =
     score_label answer private_data scitab_aliases scitab_phrases scitab_words"

end
