(* ===== verification/Scoring_Correct.thy ===== *)
theory Scoring_Correct
  imports Scoring_Rules
begin

text \<open>
  Correctness of the text scoring rules: plain integer answers are compared exactly, the numeric
  comparison is a tolerance relation, \<open>extract_boxed\<close> finds the last balanced box, a label is the
  last one mentioned, every rule gives a binary verdict, and an unknown LaTeX command never
  passes for its argument.
\<close>

section \<open>Plain integer answers\<close>

lemma elim_frac_absent: "hd command \<notin> set s \<Longrightarrow> command \<noteq> [] \<Longrightarrow> elim_frac command s = Some s"
proof -
  assume a: "hd command \<notin> set s" "command \<noteq> []"
  then have "find_sub command s = None" unfolding find_sub_None_iff
    by (metis append_is_Nil_conv hd_in_set in_set_conv_decomp UnCI set_append)
  then show ?thesis by (subst elim_frac.simps) simp
qed

lemma clean_number_digits:
  "\<forall>c \<in> set s. is_digit c \<Longrightarrow> clean_number acc s = Some (acc @ s)"
proof (induction s arbitrary: acc)
  case (Cons c s)
  then have "is_digit c" by simp
  then have "c \<in> set ''0123456789./-''" using digit_cases by fastforce
  with Cons show ?case by simp
qed simp

lemma numeric_digits:
  assumes "s \<noteq> []" "\<forall>c \<in> set s. is_digit c" "nat_of_digits s < 2 ^ 53"
  shows "numeric s = Some (Fin (of_nat (nat_of_digits s)))"
proof -
  have ns: "\<And>c. c \<in> set s \<Longrightarrow> \<not> is_space c" using assms(2) is_digit_not_space by blast
  have nb: "bslash \<notin> set s" "CHR ''/'' \<notin> set s" "CHR ''-'' \<notin> set s"
    using assms(2) by (auto simp: is_digit_def)
  have "hd s \<noteq> CHR ''-''" using nb(3) assms(1) by (metis hd_in_set)
  then have "float_of s = map_option rnd (decimal_of s)"
    unfolding float_of_def using assms(1) by (cases s) (auto split: list.splits if_splits char.splits bool.splits)
  then have "number_value s = Some (Fin (of_nat (nat_of_digits s)))"
    using assms nb(2) by (simp add: number_value_def decimal_of_digits rnd_of_nat)
  moreover have "strip s = s" using ns by (rule strip_id)
  ultimately show ?thesis
    using assms(2) nb(1) by (simp add: numeric_def elim_frac_absent clean_number_digits)
qed

lemma numeric_show_nat:
  "n < 2 ^ 53 \<Longrightarrow> numeric (show_nat n) = Some (Fin (of_nat n))"
  using numeric_digits [of "show_nat n"] show_nat_digits by simp

lemma tolerance_error: "\<bar>tolerance - 1 / 10 ^ 9\<bar> \<le> 1 / 2 ^ 83"
proof -
  define a :: rat where "a = 1 / 10 ^ 9"
  have "a < 2 powi (- 29)" by (simp add: a_def power_int_def power_one_over)
  moreover have "0 < a" by (simp add: a_def)
  ultimately have "ilog2 a < - 29" by (intro ilog2_less)
  then have "max (ilog2 a - 52) (- 1074) \<le> - 82" by simp
  then have "(2::rat) powi (max (ilog2 a - 52) (- 1074)) \<le> 2 powi (- 82)"
    by (intro power_int_increasing) auto
  then have "\<bar>rnd_pos a - a\<bar> \<le> 2 powi (- 82) / 2" using rnd_pos_error [of a] by linarith
  also have "\<dots> = 1 / 2 ^ 83" by (simp add: power_int_def power_one_over)
  finally have e: "\<bar>rnd_pos a - a\<bar> \<le> 1 / 2 ^ 83" .
  have "rnd_pos a \<le> a + 1 / 2 ^ 83" using e by linarith
  also have "\<dots> < 1" by (simp add: a_def)
  also have "\<dots> \<le> max_dbl" by (simp add: max_dbl_def)
  finally have "rnd a = Fin (rnd_pos a)" using \<open>0 < a\<close> by (simp add: rnd_def Let_def)
  with e show ?thesis by (simp add: tolerance_def a_def)
qed

lemma tolerance_bounds: "0 < tolerance" "tolerance * 999999999 \<le> 1 - 1 / 2 ^ 53"
proof -
  have t: "1 / 10 ^ 9 - 1 / 2 ^ 83 \<le> tolerance" "tolerance \<le> 1 / 10 ^ 9 + 1 / 2 ^ 83"
    using tolerance_error by linarith+
  show "0 < tolerance" by (rule less_le_trans [OF _ t(1)]) simp
  have "tolerance * 999999999 \<le> (1 / 10 ^ 9 + 1 / 2 ^ 83) * 999999999"
    using t(2) by (intro mult_right_mono) auto
  also have "\<dots> \<le> 1 - 1 / 2 ^ 53" by simp
  finally show "tolerance * 999999999 \<le> 1 - 1 / 2 ^ 53" .
qed

lemma numeric_equivalent_nat:
  assumes "m < 10 ^ 9" "n < 10 ^ 9"
  shows "numeric_equivalent (show_nat m) (show_nat n) = Some (m = n)"
proof -
  define top :: rat where "top = max (max (of_nat m) (of_nat n)) 1"
  have mn: "numeric (show_nat m) = Some (Fin (of_nat m))" "numeric (show_nat n) = Some (Fin (of_nat n))"
    using assms by (auto intro: numeric_show_nat)
  have "(of_nat m :: rat) \<le> of_nat 999999999" "(of_nat n :: rat) \<le> of_nat 999999999"
    using assms by (simp_all only: of_nat_le_iff, simp_all)
  then have top: "1 \<le> top" "top \<le> 999999999" by (auto simp: top_def)
  then have "tolerance * top \<le> tolerance * 999999999"
    using tolerance_bounds(1) by (intro mult_left_mono) auto
  then have "tolerance * top \<le> 1 - 1 / 2 ^ 53" using tolerance_bounds(2) by linarith
  moreover have "0 < tolerance * top" using tolerance_bounds(1) top(1) by simp
  ultimately obtain y where y: "rnd (tolerance * top) = Fin y" "0 \<le> y" "y < 1"
    using rnd_below_one by blast
  have "dbl_max (dbl_max (dbl_abs (Fin (of_nat m))) (dbl_abs (Fin (of_nat n)))) (Fin 1) = Fin top"
    by (auto simp: dbl_max_def dbl_lt_def top_def)
  moreover have "rnd (of_nat m - of_nat n) = Fin (of_int (int m - int n))"
  proof -
    have "\<bar>int m - int n\<bar> < 2 ^ 53" using assms by simp
    from rnd_of_int [OF this] show ?thesis by simp
  qed
  ultimately have "numeric_equivalent (show_nat m) (show_nat n) = Some (\<bar>of_int (int m - int n)\<bar> \<le> y)"
    by (simp add: numeric_equivalent_def mn y)
  moreover have "(\<bar>of_int (int m - int n)\<bar> \<le> y) = (m = n)"
  proof (cases "m = n")
    case False
    then have "1 \<le> \<bar>int m - int n\<bar>" by simp
    then have "(1::rat) \<le> \<bar>of_int (int m - int n)\<bar>" by (metis of_int_1_le_iff of_int_abs)
    with False y show ?thesis by linarith
  qed (simp add: y)
  ultimately show ?thesis by simp
qed


lemma hash_answer: "strip (rsplit_last ''####'' (work @ ''#### '' @ show_nat m)) = show_nat m"
proof -
  have hash: "CHR ''#'' \<notin> set (show_nat m)" using show_nat_digits [of m] by (auto simp: is_digit_def)
  have "rsplit_last ''####'' (work @ ''####'' @ ('' '' @ show_nat m)) = '' '' @ show_nat m"
    by (rule rsplit_last_uniform [where c = "CHR ''#''"]) (use hash in auto)
  moreover have "strip (show_nat m) = show_nat m"
    using show_nat_digits [of m] is_digit_not_space by (intro strip_id) blast
  ultimately show ?thesis by (simp add: strip_def lstrip_def is_space_def)
qed

lemma gsm8k_rule_integers:
  assumes "m < 10 ^ 9" "n < 10 ^ 9"
  shows "map_sum id sr_success
           (score_gsm8k (work @ ''#### '' @ show_nat m) (VDict [(''answer'', VStr (show_nat n))]))
         = Inr (Some (m = n))"
proof -
  let ?answer = "work @ ''#### '' @ show_nat m"
  have hash: "CHR ''#'' \<notin> set (show_nat k)" for k
    using show_nat_digits [of k] by (auto simp: is_digit_def)
  have st: "strip (show_nat k) = show_nat k" for k
    using show_nat_digits [of k] is_digit_not_space by (intro strip_id) blast
  have "strip ?answer \<noteq> show_nat n"
  proof
    assume "strip ?answer = show_nat n"
    moreover have "CHR ''#'' \<in> set (strip ?answer)"
      by (rule strip_keeps) (simp_all add: is_space_def)
    ultimately show False using hash [of n] by simp
  qed
  then show ?thesis
    using numeric_equivalent_nat [OF assms] hash_answer [of work m] st [of n]
    by (auto simp: score_gsm8k_def private_answer_def ditem_def Let_def)
qed

text \<open>C1: On non-negative integer answers below 10^9 the GSM8K rule passes exactly when the number after
  the last four hashes equals the reference, whatever working text precedes it; the double
  arithmetic of the tolerance test never confuses two of them.\<close>
theorem score_gsm8k_integers:
  assumes "m < 10 ^ 9" "n < 10 ^ 9"
  shows "map_sum id sr_success
           (score_gsm8k (work @ ''#### '' @ show_nat m) (VDict [(''answer'', VStr (show_nat n))]))
         = Inr (Some (m = n))"
  by (rule gsm8k_rule_integers [OF assms])

theorem score_gsm8k_integers_witness:
  "map_sum id sr_success
     (score_gsm8k (''6 * 12 is '' @ ''#### '' @ show_nat 72) (VDict [(''answer'', VStr (show_nat 27))]))
   = Inr (Some False)"
  using score_gsm8k_integers [of 72 27 "''6 * 12 is ''"] by simp

section \<open>Tolerance comparison\<close>

lemma numeric_finite: "numeric s = Some a \<Longrightarrow> \<exists>x. a = Fin x"
  by (cases a) (auto simp: numeric_def split: bind_splits if_splits)

text \<open>Numeric equivalence is symmetric, and every readable number is equivalent to itself.\<close>
theorem numeric_equivalent_tolerance:
  "numeric_equivalent s t = numeric_equivalent t s \<and>
   numeric_equivalent s s = map_option (\<lambda>_. True) (numeric s)"
proof
  have "numeric_equivalent s t = Some e \<longleftrightarrow> numeric_equivalent t s = Some e" for e
    using dbl_abs_sub_commute dbl_max_commute
    by (auto simp: numeric_equivalent_def split: option.splits dest!: numeric_finite)
  then show "numeric_equivalent s t = numeric_equivalent t s"
    by (metis not_Some_eq)
  show "numeric_equivalent s s = map_option (\<lambda>_. True) (numeric s)"
  proof (cases "numeric s")
    case (Some a)
    then obtain x where x: "a = Fin x" using numeric_finite by blast
    define top where "top = max \<bar>x\<bar> 1"
    have "dbl_max (dbl_max (dbl_abs (Fin x)) (dbl_abs (Fin x))) (Fin 1) = Fin top"
      by (auto simp: dbl_max_def dbl_lt_def top_def)
    moreover have "0 \<le> tolerance * top" using tolerance_bounds(1) by (simp add: top_def)
    then have "dbl_le (Fin 0) (rnd (tolerance * top))" using rnd_nonneg by fastforce
    ultimately show ?thesis using Some x by (simp add: numeric_equivalent_def)
  qed (simp add: numeric_equivalent_def)
qed

section \<open>Boxed answers\<close>

text \<open>
  The depth of a text after a character: braces count unless the character before them is a
  backslash. A text is balanced when no prefix closes more than it opens and it closes all.
\<close>

fun brace_depth :: "char \<Rightarrow> string \<Rightarrow> int" where
  "brace_depth prev [] = 0"
| "brace_depth prev (c # s) =
     (if prev \<noteq> bslash then of_bool (c = CHR ''{'') - of_bool (c = CHR ''}'') else 0) + brace_depth c s"

definition balanced :: "string \<Rightarrow> bool" where
  "balanced s = (brace_depth (CHR ''{'') s = 0 \<and>
     (\<forall>k \<le> length s. 0 \<le> brace_depth (CHR ''{'') (take k s)))"

lemma boxed_end_step:
  assumes "stop < length s"
  shows "boxed_end s depth stop =
    (if depth + brace_depth (s ! (stop - 1)) [s ! stop] = 0 then Some stop
     else boxed_end s (depth + brace_depth (s ! (stop - 1)) [s ! stop]) (stop + 1))"
  using assms by (subst boxed_end.simps) (simp add: Let_def)

lemma boxed_end_sound:
  assumes "boxed_end s depth stop = Some e" "0 < depth" "0 < stop"
  shows "s ! e = CHR ''}'' \<and> depth + brace_depth (s ! (stop - 1)) (take (e - stop) (drop stop s)) = 1 \<and>
         (\<forall>k \<le> e - stop. 0 < depth + brace_depth (s ! (stop - 1)) (take k (drop stop s)))"
  using assms
proof (induction s depth stop rule: boxed_end.induct)
  case (1 s depth stop)
  define d where "d = depth + brace_depth (s ! (stop - 1)) [s ! stop]"
  have len: "stop < length s"
    using "1.prems"(1) by (subst (asm) boxed_end.simps) (simp split: if_splits)
  have dropS: "drop stop s = s ! stop # drop (stop + 1) s" using len by (simp add: Cons_nth_drop_Suc)
  show ?case
  proof (cases "d = 0")
    case True
    with "1.prems"(1) len have "e = stop" by (simp add: boxed_end_step d_def)
    moreover have "s ! stop = CHR ''}'' \<and> depth = 1"
      using True \<open>0 < depth\<close> by (auto simp: d_def of_bool_def split: if_splits)
    ultimately show ?thesis by simp
  next
    case False
    with "1.prems"(1) len have rec: "boxed_end s d (stop + 1) = Some e"
      by (simp add: boxed_end_step d_def)
    have "0 < d" using False \<open>0 < depth\<close> by (auto simp: d_def of_bool_def split: if_splits)
    have eq: "(if s ! (stop - 1) \<noteq> bslash
            then depth + (of_bool (s ! stop = CHR ''{'') - of_bool (s ! stop = CHR ''}''))
            else depth) = d" by (simp add: d_def)
    from "1.IH" [OF len refl, unfolded eq, OF False rec \<open>0 < d\<close>]
    have IH: "s ! e = CHR ''}''" "d + brace_depth (s ! stop) (take (e - (stop + 1)) (drop (stop + 1) s)) = 1"
      "\<forall>k \<le> e - (stop + 1). 0 < d + brace_depth (s ! stop) (take k (drop (stop + 1) s))" by simp_all
    have "stop < e" using boxed_end_bounds [OF rec] by simp
    then have step: "depth + brace_depth (s ! (stop - 1)) (take (Suc k) (drop stop s))
                     = d + brace_depth (s ! stop) (take k (drop (stop + 1) s))" for k
      by (simp add: dropS d_def)
    have "0 < depth + brace_depth (s ! (stop - 1)) (take k (drop stop s))" if "k \<le> e - stop" for k
      using that IH(3) step \<open>0 < depth\<close> by (cases k) auto
    moreover have "e - stop = Suc (e - (stop + 1))" using \<open>stop < e\<close> by simp
    ultimately show ?thesis using IH(1,2) step by simp
  qed
qed

lemma boxed_end_complete:
  assumes "0 < depth" "0 < stop" "stop \<le> e" "e < length s" "s ! e = CHR ''}''" "s ! (e - 1) \<noteq> bslash"
    and "depth + brace_depth (s ! (stop - 1)) (take (e - stop) (drop stop s)) = 1"
    and "\<forall>k \<le> e - stop. 0 < depth + brace_depth (s ! (stop - 1)) (take k (drop stop s))"
  shows "boxed_end s depth stop = Some e"
  using assms
proof (induction "e - stop" arbitrary: depth stop)
  case 0
  then have "stop = e" by simp
  with 0 show ?case by (simp add: boxed_end_step)
next
  case (Suc n)
  define d where "d = depth + brace_depth (s ! (stop - 1)) [s ! stop]"
  have len: "stop < length s" "stop + 1 \<le> e" using Suc by simp_all
  have dropS: "drop stop s = s ! stop # drop (stop + 1) s" using len by (simp add: Cons_nth_drop_Suc)
  have step: "depth + brace_depth (s ! (stop - 1)) (take (Suc k) (drop stop s))
              = d + brace_depth (s ! stop) (take k (drop (stop + 1) s))" for k
    by (simp add: dropS d_def)
  have pos: "0 < d + brace_depth (s ! stop) (take k (drop (stop + 1) s))" if "k \<le> e - (stop + 1)" for k
    using Suc.prems(8) [rule_format, of "Suc k"] step [of k] that len by simp
  have "0 < d" using pos [of 0] by simp
  moreover have "d + brace_depth (s ! stop) (take (e - (stop + 1)) (drop (stop + 1) s)) = 1"
    using Suc.prems(7) step [of "e - (stop + 1)"] len by (simp add: Suc_diff_Suc)
  ultimately have "boxed_end s d (stop + 1) = Some e"
    using Suc.hyps Suc.prems len pos by (intro Suc.hyps(1)) simp_all
  with \<open>0 < d\<close> len show ?case by (simp add: boxed_end_step d_def)
qed


lemma brace_depth_append:
  "brace_depth prev (s @ t) = brace_depth prev s + brace_depth (List.last (prev # s)) t"
  by (induction s arbitrary: prev) auto

lemma brace_depth_free:
  "CHR ''{'' \<notin> set s \<Longrightarrow> CHR ''}'' \<notin> set s \<Longrightarrow> brace_depth prev s = 0"
  by (induction s arbitrary: prev) auto

lemma balanced_group:
  assumes "CHR ''{'' \<notin> set a" "CHR ''}'' \<notin> set a" "a \<noteq> []" "List.last a \<noteq> bslash"
    and "CHR ''{'' \<notin> set s" "CHR ''}'' \<notin> set s" "s \<noteq> []" "List.last s \<noteq> bslash"
  shows "balanced (a @ ''{'' @ s @ ''}'')"
proof -
  let ?t = "a @ ''{'' @ s @ ''}''"
  have free: "brace_depth p (take k a) = 0" "brace_depth p (take k s) = 0" for p k
    using assms by (auto intro!: brace_depth_free dest: in_set_takeD)
  have full: "brace_depth p a = 0" "brace_depth p s = 0" for p
    using assms by (auto intro!: brace_depth_free)
  have "0 \<le> brace_depth (CHR ''{'') (take k ?t)" for k
  proof (cases "k \<le> length a")
    case True
    then show ?thesis by (simp add: free)
  next
    case False
    then obtain j where j: "k = Suc (length a + j)" by (metis less_natE not_le)
    then have "take k ?t = a @ ''{'' @ take j (s @ ''}'')" by simp
    then show ?thesis using assms
      by (cases "j \<le> length s") (auto simp: brace_depth_append free full take_Cons')
  qed
  moreover have "brace_depth (CHR ''{'') ?t = 0"
    using assms by (simp add: brace_depth_append full)
  ultimately show ?thesis by (simp add: balanced_def)
qed

definition boxed_at :: "string \<Rightarrow> string \<Rightarrow> bool" where
  "boxed_at s b = (\<exists>pre post. s = pre @ boxed_marker @ b @ ''}'' @ post \<and> balanced b)"

lemma starts_at_split:
  "starts_at p s i \<Longrightarrow> s = take i s @ p @ drop (i + length p) s"
  by (metis append_eq_conv_conj append_take_drop_id drop_drop add.commute prefix_of_iff starts_at_def)

lemma boxed_found:
  assumes "i < length s" "starts_at boxed_marker s i" "boxed_end s 1 (i + length boxed_marker) = Some e"
  shows "boxed_at s (take (e - (i + length boxed_marker)) (drop (i + length boxed_marker) s))"
proof -
  let ?start = "i + length boxed_marker"
  let ?b = "take (e - ?start) (drop ?start s)"
  have s: "s = take i s @ boxed_marker @ drop ?start s" using starts_at_split [OF assms(2)] .
  have "?start \<le> e" "e < length s" using boxed_end_bounds [OF assms(3)] by auto
  have "0 < ?start" by (simp add: boxed_marker_def)
  have prev: "s ! (?start - 1) = CHR ''{''"
  proof -
    have "s ! (i + 6) = (boxed_marker @ drop ?start s) ! 6"
      using s assms(1) by (metis length_take less_or_eq_imp_le min.absorb2 nth_append_length_plus)
    moreover have "?start - 1 = i + 6" by (simp add: boxed_marker_def)
    ultimately show ?thesis by (simp only: \<open>?start - 1 = i + 6\<close>) (simp add: boxed_marker_def)
  qed
  from boxed_end_sound [OF assms(3) _ \<open>0 < ?start\<close>] prev
  have bs: "s ! e = CHR ''}''" "brace_depth (CHR ''{'') ?b = 0"
    "\<forall>k \<le> e - ?start. 0 \<le> brace_depth (CHR ''{'') (take k (drop ?start s))" by auto
  have "balanced ?b" unfolding balanced_def using bs(2,3) \<open>e < length s\<close> by (auto simp: min_def)
  moreover have "drop ?start s = ?b @ ''}'' @ drop (e + 1) s"
  proof -
    have "drop e s = CHR ''}'' # drop (e + 1) s" using bs(1) \<open>e < length s\<close> by (simp add: Cons_nth_drop_Suc [symmetric])
    then show ?thesis using \<open>?start \<le> e\<close>
      by (metis append_Cons append_Nil append_take_drop_id drop_drop le_add_diff_inverse2)
  qed
  ultimately show ?thesis unfolding boxed_at_def using s by metis
qed

lemma extract_boxed_from_sound:
  "extract_boxed_from s i found = Some b \<Longrightarrow> found = Some b \<or> boxed_at s b"
proof (induction s i found rule: extract_boxed_from.induct)
  case (1 s i found)
  show ?case
  proof (cases "i < length s \<and> starts_at boxed_marker s i \<and> (i = 0 \<or> s ! (i - 1) \<noteq> bslash)")
    case True
    then show ?thesis
      using "1.prems" "1.IH"(1,2) boxed_found
      by (subst (asm) extract_boxed_from.simps) (fastforce simp: Let_def split: option.splits)
  next
    case False
    with "1.prems" "1.IH"(3) show ?thesis
      by (subst (asm) extract_boxed_from.simps) (auto split: if_splits)
  qed
qed

text \<open>What the boxed-answer scanner returns stands in the text between an unescaped boxed marker and
  its closing brace, with balanced braces.\<close>
theorem extract_boxed_sound: "extract_boxed s = Some b \<Longrightarrow> boxed_at s b"
  unfolding extract_boxed_def using extract_boxed_from_sound by blast

theorem extract_boxed_sound_witness:
  "boxed_at (''so '' @ boxed_marker @ ''x{1}'' @ ''}'' @ ''.'') ''x{1}''"
  by (rule extract_boxed_sound) code_simp

lemma extract_boxed_from_skip:
  assumes "\<And>j. i \<le> j \<Longrightarrow> j < k \<Longrightarrow> \<not> starts_at boxed_marker s j" "i \<le> k" "k \<le> length s"
  shows "extract_boxed_from s i found = extract_boxed_from s k found"
  using assms
proof (induction "k - i" arbitrary: i)
  case (Suc n)
  then have "\<not> starts_at boxed_marker s i" "i < length s" by auto
  then have "extract_boxed_from s i found = extract_boxed_from s (i + 1) found"
    by (subst extract_boxed_from.simps) simp
  also have "\<dots> = extract_boxed_from s k found" using Suc by (intro Suc.hyps(1)) auto
  finally show ?case .
qed simp

lemma starts_at_bslash: "starts_at boxed_marker s j \<Longrightarrow> j < length s \<and> s ! j = bslash"
  unfolding starts_at_def boxed_marker_def prefix_of_def
  by (cases "drop j s") (auto simp: nth_via_drop intro: ccontr)

lemma extract_boxed_complete:
  assumes "bslash \<notin> set pre" "bslash \<notin> set post" "balanced b" "b = [] \<or> List.last b \<noteq> bslash"
  shows "extract_boxed (pre @ boxed_marker @ b @ ''}'' @ post) = Some b"
proof -
  let ?s = "pre @ boxed_marker @ b @ ''}'' @ post"
  let ?i = "length pre" and ?start = "length pre + length boxed_marker"
  let ?e = "?start + length b"
  have len: "length boxed_marker = 7" by (simp add: boxed_marker_def)
  have "\<not> starts_at boxed_marker ?s j" if "j < ?i" for j
    using starts_at_bslash [of ?s j] that assms(1) nth_mem by (fastforce simp: nth_append)
  then have 1: "extract_boxed ?s = extract_boxed_from ?s ?i None"
    unfolding extract_boxed_def by (intro extract_boxed_from_skip) auto
  have at: "starts_at boxed_marker ?s ?i" by (simp add: starts_at_def)
  have esc: "?i = 0 \<or> ?s ! (?i - 1) \<noteq> bslash"
    using assms(1) by (cases pre rule: rev_cases) (auto simp: nth_append)
  have drp: "drop ?start ?s = b @ ''}'' @ post" by simp
  have prev: "?s ! (?start - 1) = CHR ''{''" by (simp add: nth_append boxed_marker_def)
  have "?s ! ?e = CHR ''}''" by (simp add: nth_append)
  moreover have "?s ! (?e - 1) \<noteq> bslash"
    using assms(4) prev by (cases b rule: rev_cases) (auto simp: nth_append len)
  ultimately have "boxed_end ?s 1 ?start = Some ?e"
    using assms(3) prev unfolding balanced_def
    by (intro boxed_end_complete) (auto simp: len)
  then have 2: "extract_boxed_from ?s ?i None = extract_boxed_from ?s (?e + 1) (Some b)"
    using at esc by (subst extract_boxed_from.simps) (simp add: drp len)
  have "\<not> starts_at boxed_marker ?s j" if "?e + 1 \<le> j" "j < length ?s" for j
  proof
    assume "starts_at boxed_marker ?s j"
    then have "?s ! j = bslash" by (simp add: starts_at_bslash)
    moreover have "?s ! j \<in> set post"
      using that by (auto simp: nth_append len)
    ultimately show False using assms(2) by simp
  qed
  then have "extract_boxed_from ?s (?e + 1) (Some b) = extract_boxed_from ?s (length ?s) (Some b)"
    by (intro extract_boxed_from_skip) auto
  also have "\<dots> = Some b" by (subst extract_boxed_from.simps) simp
  finally show ?thesis using 1 2 by simp
qed

text \<open>The boxed-answer scanner finds a balanced boxed answer that no other backslash of the
  surrounding text disturbs.\<close>
theorem extract_boxed_last:
  assumes "bslash \<notin> set pre" "bslash \<notin> set post" "balanced b" "b = [] \<or> List.last b \<noteq> bslash"
  shows "extract_boxed (pre @ boxed_marker @ b @ ''}'' @ post) = Some b"
  using assms by (rule extract_boxed_complete)

theorem extract_boxed_last_witness:
  "extract_boxed (''so '' @ boxed_marker @ ''x{1}'' @ ''}'' @ ''.'') = Some ''x{1}''"
proof (rule extract_boxed_last)
  have "balanced (''x'' @ ''{'' @ ''1'' @ ''}'')" by (rule balanced_group) simp_all
  then show "balanced ''x{1}''" by simp
qed simp_all

section \<open>Labels: the last mention wins\<close>

definition phrase_mentions :: "string \<Rightarrow> (string \<times> string) list \<Rightarrow> (int \<times> string) set" where
  "phrase_mentions lowered phrases =
     {(int p, c) | p c phrase. (c, phrase) \<in> set phrases \<and> rfind_sub phrase lowered = Some p}"

definition word_mentions :: "string \<Rightarrow> (string \<times> string) list \<Rightarrow> (int \<times> string) set" where
  "word_mentions lowered words =
     {(int (List.last (word_matches w lowered 0)), c) | c w.
        (c, w) \<in> set words \<and> word_matches w lowered 0 \<noteq> []}"

definition label_mentions ::
  "string \<Rightarrow> (string \<times> string) list \<Rightarrow> (string \<times> string) list \<Rightarrow> (int \<times> string) set" where
  "label_mentions text phrases words =
     phrase_mentions (lower (strip text)) phrases \<union> word_mentions (lower (strip text)) words"

definition best_of :: "(int \<times> string) set \<Rightarrow> int \<times> string option \<Rightarrow> bool" where
  "best_of M best =
     (case snd best of None \<Rightarrow> M = {} \<and> fst best = - 1
      | Some c \<Rightarrow> (fst best, c) \<in> M \<and> (\<forall>m \<in> M. fst m \<le> fst best))"

lemma best_of_step:
  "best_of M best \<Longrightarrow>
   best_of (insert (int p, c) M) (if int p \<ge> fst best then (int p, Some c) else best)"
  by (auto simp: best_of_def split: option.splits)

lemma best_of_phrases:
  "best_of M best \<Longrightarrow> best_of (M \<union> phrase_mentions lowered phrases) (fold (phrase_step lowered) phrases best)"
proof (induction phrases arbitrary: M best)
  case (Cons e phrases)
  obtain c ph where e: "e = (c, ph)" by fastforce
  show ?case
  proof (cases "rfind_sub ph lowered")
    case None
    then have "phrase_mentions lowered (e # phrases) = phrase_mentions lowered phrases"
      by (auto simp: phrase_mentions_def e)
    with Cons None show ?thesis by (simp add: phrase_step_def e)
  next
    case (Some p)
    then have "M \<union> phrase_mentions lowered (e # phrases) =
               insert (int p, c) M \<union> phrase_mentions lowered phrases"
      by (auto simp: phrase_mentions_def e)
    with Cons.IH [OF best_of_step [OF Cons.prems, of p c]] Some show ?thesis
      by (simp add: phrase_step_def e)
  qed
qed (simp add: phrase_mentions_def)

lemma best_of_words:
  "best_of M best \<Longrightarrow> best_of (M \<union> word_mentions lowered words) (fold (word_step lowered) words best)"
proof (induction words arbitrary: M best)
  case (Cons e words)
  obtain c w where e: "e = (c, w)" by fastforce
  let ?ms = "word_matches w lowered 0"
  show ?case
  proof (cases "?ms = []")
    case True
    then have "word_mentions lowered (e # words) = word_mentions lowered words"
      by (auto simp: word_mentions_def e)
    with Cons True show ?thesis by (simp add: word_step_def e)
  next
    case False
    then have "M \<union> word_mentions lowered (e # words) =
               insert (int (List.last ?ms), c) M \<union> word_mentions lowered words"
      by (auto simp: word_mentions_def e)
    with Cons.IH [OF best_of_step [OF Cons.prems, of "List.last ?ms" c]] False show ?thesis
      by (simp add: word_step_def e Let_def)
  qed
qed (simp add: word_mentions_def)

text \<open>A text that is not itself an alias is read as the label mentioned last in it, and as no label
  exactly when no phrase or word mentions one.\<close>
theorem label_last_mention:
  assumes "map_of aliases (lower (strip text)) = None"
  shows "(label text aliases phrases words = None \<longleftrightarrow> label_mentions text phrases words = {}) \<and>
         (\<forall>c. label text aliases phrases words = Some c \<longrightarrow>
            (\<exists>p. (p, c) \<in> label_mentions text phrases words \<and>
                 (\<forall>m \<in> label_mentions text phrases words. fst m \<le> p)))"
proof -
  have "best_of (label_mentions text phrases words)
          (fold (word_step (lower (strip text))) words
            (fold (phrase_step (lower (strip text))) phrases (- 1, None)))"
    using best_of_words [OF best_of_phrases [of "{}" "(- 1, None)"]]
    by (simp add: label_mentions_def best_of_def)
  then show ?thesis
    using assms by (auto simp: label_def Let_def best_of_def split: option.splits)
qed

theorem label_last_mention_witness:
  "label ''No. Overall: yes, probably'' pubmedqa_aliases [] pubmedqa_words = Some ''yes'' \<and>
   (\<exists>p. (p, ''yes'') \<in> label_mentions ''No. Overall: yes, probably'' [] pubmedqa_words \<and>
     (\<forall>m \<in> label_mentions ''No. Overall: yes, probably'' [] pubmedqa_words. fst m \<le> p))"
proof -
  have a: "map_of pubmedqa_aliases (lower (strip ''No. Overall: yes, probably'')) = None"
    by code_simp
  have y: "label ''No. Overall: yes, probably'' pubmedqa_aliases [] pubmedqa_words = Some ''yes''"
    by code_simp
  show ?thesis using label_last_mention [OF a, of "[]" pubmedqa_words] y by blast
qed

section \<open>Every rule returns a binary verdict\<close>

text \<open>Each of the four rules returns a binary score for every answer text once the private answer is a
  string, and raises what reading the private answer raised otherwise.\<close>
theorem scoring_rules_binary:
  assumes "rule \<in> {score_gsm8k, score_olymmath, score_pubmedqa, score_scitab}"
  shows "(\<forall>s. private_answer private_data = Inr s \<longrightarrow>
            (\<exists>b r. rule answer private_data = Inr r \<and> binary_result b r)) \<and>
         (\<forall>e. private_answer private_data = Inl e \<longrightarrow> rule answer private_data = Inl e)"
proof -
  have b: "\<exists>b r. binary_score (VBool v) = Inr r \<and> binary_result b r" for v
    using binary_score_result [OF binary_score_bool] by auto
  show ?thesis using assms b
    by (auto simp del: binary_score_bool
        simp: score_gsm8k_def score_olymmath_def score_pubmedqa_def score_scitab_def score_label_def Let_def
        split: option.splits)
qed

theorem scoring_rules_binary_witness:
  "\<exists>b r. score_pubmedqa ''yes'' (VDict [(''answer'', VStr ''yes'')]) = Inr r \<and> binary_result b r"
proof -
  have "private_answer (VDict [(''answer'', VStr ''yes'')]) = Inr ''yes''"
    by (simp add: private_answer_def ditem_def)
  then show ?thesis using scoring_rules_binary [of score_pubmedqa] by blast
qed

section \<open>Unknown LaTeX commands\<close>

lemma numeric_sqrt:
  assumes "bslash \<notin> set s" "s \<noteq> []" "\<not> is_space (List.last s)"
  shows "numeric (bslash # ''sqrt'' @ s) = None"
proof -
  let ?t = "bslash # ''sqrt'' @ s"
  have st: "strip ?t = ?t"
    using assms(2,3) by (cases s rule: rev_cases) (auto simp: strip_def lstrip_def is_space_def)
  have nf: "find_sub (bslash # c # p) ?t = None" if "c \<noteq> CHR ''s''" for c p
    using that assms(1) by (simp add: find_sub_Cons_skip find_sub_char)
  have "elim_frac (bslash # c # p) ?t = Some ?t" if "c \<noteq> CHR ''s''" for c p
    using nf [OF that] by (subst elim_frac.simps) simp
  then have "elim_frac (bslash # ''dfrac{'') ?t = Some ?t" "elim_frac (bslash # ''tfrac{'') ?t = Some ?t"
    "elim_frac (bslash # ''frac{'') ?t = Some ?t" by simp_all
  then show ?thesis unfolding numeric_def st by simp
qed

text \<open>A boxed square root of a number is never scored as that number or any other number: unknown
  commands are not erased to make a match.\<close>
theorem score_olymmath_sqrt:
  "map_sum id sr_success
     (score_olymmath (boxed_marker @ (bslash # ''sqrt{'' @ show_nat m @ ''}'') @ ''}'')
        (VDict [(''answer'', VStr (show_nat n))])) = Inr (Some False)"
proof -
  let ?p = "bslash # ''sqrt{'' @ show_nat m @ ''}''"
  have digits: "\<forall>c \<in> set (show_nat k). is_digit c" for k by (rule show_nat_digits)
  have absent: "CHR ''='' \<notin> set (show_nat k)" "bslash \<notin> set (show_nat k)"
    "CHR ''{'' \<notin> set (show_nat k)" "CHR ''}'' \<notin> set (show_nat k)" for k
    using digits [of k] by (auto simp: is_digit_def)
  have st: "strip (show_nat n) = show_nat n"
    using digits [of n] is_digit_not_space by (intro strip_id) blast
  have "List.last (show_nat m) \<noteq> bslash" using absent(2) [of m] by (metis last_in_set show_nat_not_Nil)
  then have "balanced ((bslash # ''sqrt'') @ ''{'' @ show_nat m @ ''}'')"
    using absent [of m] by (intro balanced_group) auto
  then have ex: "extract_boxed (boxed_marker @ ?p @ ''}'') = Some ?p"
    using extract_boxed_complete [of "[]" "[]" ?p] by simp
  have sp: "strip ?p = ?p" by (simp add: strip_def lstrip_def is_space_def)
  have "show_nat n \<noteq> ?p" using absent(2) [of n] by (metis list.set_intros(1))
  moreover have "assignment ?p = ?p" using absent(1) [of m] by (simp add: assignment_def)
  moreover have "numeric ?p = None"
    using numeric_sqrt [of "''{'' @ show_nat m @ ''}''"] absent(2) [of m] by (simp add: is_space_def)
  then have "numeric_equivalent ?p t = None" for t by (simp add: numeric_equivalent_def)
  moreover have "''sqrt'' \<in> set (find_commands (?p @ '' '' @ t))" for t
    by (simp add: is_letter_def is_lower_def is_upper_def)
  then have "\<exists>c \<in> set (find_commands (?p @ '' '' @ show_nat n)). c \<notin> set supported_commands"
    by (intro bexI [of _ "''sqrt''"]) (simp add: supported_commands_def)
  ultimately show ?thesis
    unfolding score_olymmath_def private_answer_def Let_def
    using ex sp st by (simp add: ditem_def)
qed

end
