(* ===== verification/Modeling.thy ===== *)
theory Modeling
  imports Py_Text
begin

text \<open>
  The typed-model layer of dataset packages (\<open>reference/sdk/src/uenv/sdk/modeling.py\<close>).

  A class table \<open>ctab\<close> gives every \<open>UEnvModel\<close> class its name, docstring, type hints (in the
  order of \<open>get_type_hints\<close>) and the class attributes that serve as defaults; an annotation
  refers to a model class by name, so that classes may refer to themselves, which the schema
  generator has to detect. The schema identifiers that \<open>bind_schema\<close> writes into the classes
  are the state \<open>sids\<close>. Constructing an instance and restoring nested instances recurse through
  the class table, in Python up to the recursion limit: the number of frames left is the first
  \<open>nat\<close> argument, and running out is \<open>RecursionError\<close>.
\<close>

section \<open>Classes and annotations\<close>

datatype meta =
    MField string "val option" "int option"   \<comment> \<open>\<open>Field(description, minimum, min_length)\<close>\<close>
  | MOther string                            \<comment> \<open>any other metadata, as \<open>str(item)\<close>\<close>

datatype ann =
    AStr | AInt | AFloat | ABool | ANoneType
  | AClassVar
  | AOther string                  \<comment> \<open>an annotation the generator does not know\<close>
  | ALiteral "val list"
  | AListOf ann
  | ADictOf ann ann
  | AUnion "ann list"
  | AExternal string               \<comment> \<open>an \<open>_ExternalSchema\<close> class and its \<open>__schema_ref__\<close>\<close>
  | AModel string
  | AAnnotated ann "meta list"

record cls =
  cls_doc :: string
  cls_hints :: "(string \<times> ann) list"
  cls_defaults :: dict

type_synonym ctab = "(string \<times> cls) list"
type_synonym sids = "(string \<times> string) list"

definition artifact_ref :: ann where
  "artifact_ref = AExternal ''urn:uenv:vnext:contracts#/$defs/ArtifactRef''"

definition content_part :: ann where
  "content_part = AExternal ''urn:uenv:vnext:contracts#/$defs/ContentPart''"

definition evaluation_plan :: ann where
  "evaluation_plan = AExternal ''uenv://schemas/vnext/EvaluationPlan''"

definition model_hints :: "cls \<Rightarrow> (string \<times> ann) list" where
  "model_hints c = filter (\<lambda>(name, annotation). annotation \<noteq> AClassVar \<and> \<not> prefix_of ''__'' name)
                     (cls_hints c)"

section \<open>Values\<close>

fun dump :: "val \<Rightarrow> val" where
  "dump (VModel c d) = VDict (map (\<lambda>p. (fst p, dump (snd p))) d)"
| "dump (VList xs) = VList (map dump xs)"
| "dump (VTuple xs) = VList (map dump xs)"
| "dump (VDict d) = VDict (map (\<lambda>p. (fst p, dump (snd p))) d)"
| "dump v = v"

fun model_dump :: "val \<Rightarrow> val res" where
  "model_dump (VModel c d) = Inr (dump (VModel c d))"
| "model_dump v = Inl (AttributeError ''model_dump'')"

fun strip_annotated :: "ann \<Rightarrow> ann" where
  "strip_annotated (AAnnotated a ms) = a"
| "strip_annotated a = a"

fun is_optional_of :: "ann \<Rightarrow> ann option" where
  \<comment> \<open>the single candidate of a union besides \<open>None\<close>\<close>
  "is_optional_of (AUnion args) =
     (case filter (\<lambda>a. a \<noteq> ANoneType) args of [a] \<Rightarrow> Some a | _ \<Rightarrow> None)"
| "is_optional_of _ = None"

fun is_union :: "ann \<Rightarrow> bool" where
  "is_union (AUnion _) = True"
| "is_union _ = False"

definition field_source :: "cls \<Rightarrow> dict \<Rightarrow> string \<Rightarrow> val option" where
  \<comment> \<open>the given value, else the class attribute, else nothing\<close>
  "field_source c values name =
     (case map_of values name of Some v \<Rightarrow> Some v | None \<Rightarrow> map_of (cls_defaults c) name)"

fun restore :: "nat \<Rightarrow> ctab \<Rightarrow> ann \<Rightarrow> val \<Rightarrow> val res"
and init_model :: "nat \<Rightarrow> ctab \<Rightarrow> string \<Rightarrow> dict \<Rightarrow> val res" where
  "restore 0 ct annotation v = Inl RecursionError"
| "restore (Suc n) ct annotation v =
     (let a = strip_annotated annotation
      in if is_union a \<and> v = VNone then Inr VNone
         else case is_optional_of a of
           Some candidate \<Rightarrow> restore n ct candidate v
         | None \<Rightarrow>
             (case a of
                AModel c \<Rightarrow> (case v of VDict d \<Rightarrow> init_model n ct c d | _ \<Rightarrow> Inr v)
              | AListOf b \<Rightarrow>
                  (case v of
                     VList xs \<Rightarrow> rbind (rmap (restore n ct b) xs) (\<lambda>ys. Inr (VList ys))
                   | _ \<Rightarrow> Inr v)
              | ADictOf k b \<Rightarrow>
                  (case v of
                     VDict d \<Rightarrow>
                       rbind (rmap (\<lambda>p. rbind (restore n ct b (snd p)) (\<lambda>x. Inr (fst p, x))) d)
                             (\<lambda>e. Inr (VDict e))
                   | _ \<Rightarrow> Inr v)
              | _ \<Rightarrow> Inr v))"
| "init_model 0 ct name values = Inl RecursionError"
| "init_model (Suc n) ct name values =
     (case map_of ct name of
        None \<Rightarrow> Inl (TypeError ''Package model must inherit UEnvModel'')
      | Some c \<Rightarrow>
          let hints = model_hints c
          in if \<exists>k \<in> set (map fst values). k \<notin> set (map fst hints)
             then Inl (TypeError (''Unknown fields for '' @ name))
             else rbind (rmap (\<lambda>h. case field_source c values (fst h) of
                                     None \<Rightarrow> Inl (TypeError (''Missing field for '' @ name @ '': '' @ fst h))
                                   | Some v \<Rightarrow> rbind (restore n ct (snd h) v) (\<lambda>x. Inr (fst h, x)))
                              hints)
                        (\<lambda>d. Inr (VModel name d)))"

section \<open>Schema binding and envelopes\<close>

definition bind_schema :: "ctab \<Rightarrow> string \<Rightarrow> string \<Rightarrow> sids \<Rightarrow> sids res" where
  "bind_schema ct model schema_id sids =
     rbind (guard (map_of ct model \<noteq> None) (TypeError ''Package model must inherit UEnvModel'')) (\<lambda>_.
       case map_of sids model of
         Some existing \<Rightarrow>
           if existing \<noteq> schema_id
           then Inl (ValueError (''Model already bound to another schema: '' @ model))
           else Inr (AList.update model schema_id sids)
       | None \<Rightarrow> Inr (AList.update model schema_id sids))"

fun model_to_envelope :: "sids \<Rightarrow> val \<Rightarrow> val res" where
  "model_to_envelope sids (VModel c d) =
     (case map_of sids c of
        None \<Rightarrow> Inl (ValueError (''Model is not bound to a published schema: '' @ c))
      | Some schema_id \<Rightarrow>
          if schema_id = [] then Inl (ValueError (''Model is not bound to a published schema: '' @ c))
          else Inr (VDict [(''schema_ref'', VStr schema_id), (''data'', dump (VModel c d))]))"
| "model_to_envelope sids v = Inl (AttributeError ''__schema_id__'')"

definition schema_id_val :: "sids \<Rightarrow> string \<Rightarrow> val" where
  "schema_id_val sids model = (case map_of sids model of None \<Rightarrow> VNone | Some s \<Rightarrow> VStr s)"

definition model_from_envelope :: "nat \<Rightarrow> ctab \<Rightarrow> sids \<Rightarrow> string \<Rightarrow> val \<Rightarrow> val res" where
  "model_from_envelope n ct sids model v =
     rbind (get v ''schema_ref'' VNone) (\<lambda>schema_ref.
       if \<not> py_eq schema_ref (schema_id_val sids model)
       then Inl (ValueError (''Schema does not match '' @ model))
       else rbind (item v ''data'') (\<lambda>data.
              case data of VDict d \<Rightarrow> init_model n ct model d
              | _ \<Rightarrow> Inl (TypeError ''argument after ** must be a mapping'')))"

section \<open>Schema generation\<close>

fun literal_type :: "val list \<Rightarrow> string" where
  "literal_type (VInt _ # _) = ''integer''"
| "literal_type (VBool _ # _) = ''boolean''"
| "literal_type _ = ''string''"

fun apply_meta :: "meta \<Rightarrow> dict \<Rightarrow> dict" where
  "apply_meta (MField description minimum min_length) schema =
     (let s1 = (if description \<noteq> [] then AList.update ''description'' (VStr description) schema else schema);
          s2 = (case minimum of None \<Rightarrow> s1 | Some m \<Rightarrow> AList.update ''minimum'' m s1)
      in case min_length of None \<Rightarrow> s2 | Some l \<Rightarrow> AList.update ''minLength'' (VInt l) s2)"
| "apply_meta (MOther text) schema =
     (if text \<noteq> [] then AList.update ''description'' (VStr text) schema else schema)"

fun metadata_of :: "ann \<Rightarrow> meta list" where
  "metadata_of (AAnnotated a ms) = ms"
| "metadata_of _ = []"

definition open_classes :: "ctab \<Rightarrow> string list \<Rightarrow> nat" where
  \<comment> \<open>how many classes of the table are not yet among the ancestors\<close>
  "open_classes ct ancestors = card (set (map fst ct) - set ancestors)"

lemma open_classes_less:
  "map_of ct m = Some c \<Longrightarrow> m \<notin> set ancestors \<Longrightarrow> open_classes ct (ancestors @ [m]) < open_classes ct ancestors"
proof -
  assume a: "map_of ct m = Some c" "m \<notin> set ancestors"
  then have "m \<in> set (map fst ct)" by (metis list.set_map map_of_eq_None_iff not_None_eq)
  with a(2) show ?thesis unfolding open_classes_def by (intro psubset_card_mono) auto
qed

lemma size_strip_annotated: "size (strip_annotated a) \<le> size a"
  by (cases a) auto

lemma is_optional_of_size: "is_optional_of a = Some b \<Longrightarrow> size b < size a"
proof (cases a)
  case (AUnion args)
  assume "is_optional_of a = Some b"
  with AUnion have "filter (\<lambda>a. a \<noteq> ANoneType) args = [b]" by (simp split: list.splits)
  then have "b \<in> set args" by (metis filter_is_subset list.set_intros(1) subsetD)
  with AUnion show ?thesis using size_list_estimation' [of b args "size b" size] by simp
qed auto

function model_schema :: "ctab \<Rightarrow> string \<Rightarrow> string list \<Rightarrow> dict res"
and annotation_schema :: "ctab \<Rightarrow> ann \<Rightarrow> string list \<Rightarrow> dict res" where
  "model_schema ct model ancestors =
     (if model \<in> set ancestors
      then Inl (TypeError ''Recursive package models are not supported by the reference generator'')
      else case map_of ct model of
        None \<Rightarrow> Inl (TypeError ''Package model must inherit UEnvModel'')
      | Some c \<Rightarrow>
          rbind (rmap (\<lambda>h. rbind (annotation_schema ct (snd h) (ancestors @ [model])) (\<lambda>s.
                   Inr (fst h, VDict (case map_of (cls_defaults c) (fst h) of
                                        None \<Rightarrow> s
                                      | Some v \<Rightarrow> AList.update ''default'' (dump v) s))))
                 (model_hints c)) (\<lambda>properties.
            Inr [(''title'', VStr model), (''description'', VStr (strip (cls_doc c))),
                 (''type'', VStr ''object''), (''properties'', VDict properties),
                 (''required'', VList (map (\<lambda>h. VStr (fst h))
                     (filter (\<lambda>h. \<not> has_key (cls_defaults c) (fst h)) (model_hints c)))),
                 (''additionalProperties'', VBool False)]))"
| "annotation_schema ct annotation ancestors =
     rbind (case strip_annotated annotation of
        AStr \<Rightarrow> Inr [(''type'', VStr ''string'')]
      | AInt \<Rightarrow> Inr [(''type'', VStr ''integer'')]
      | AFloat \<Rightarrow> Inr [(''type'', VStr ''number'')]
      | ABool \<Rightarrow> Inr [(''type'', VStr ''boolean'')]
      | ALiteral values \<Rightarrow> Inr [(''type'', VStr (literal_type values)), (''enum'', VList values)]
      | AListOf b \<Rightarrow> rbind (annotation_schema ct b ancestors) (\<lambda>s.
          Inr [(''type'', VStr ''array''), (''items'', VDict s)])
      | ADictOf k b \<Rightarrow>
          if k \<noteq> AStr then Inl (TypeError ''JSON object keys must be strings'')
          else rbind (annotation_schema ct b ancestors) (\<lambda>s.
            Inr [(''type'', VStr ''object''), (''additionalProperties'', VDict s)])
      | AUnion args \<Rightarrow>
          (case is_optional_of (AUnion args) of
             Some b \<Rightarrow>
               if length args \<noteq> 1
               then rbind (annotation_schema ct b ancestors) (\<lambda>s.
                      Inr [(''anyOf'', VList [VDict s, VDict [(''type'', VStr ''null'')]])])
               else Inl (TypeError ''Reference models support optional types, not ambiguous unions'')
           | None \<Rightarrow> Inl (TypeError ''Reference models support optional types, not ambiguous unions''))
      | AExternal ref \<Rightarrow> Inr [(''$ref'', VStr ref)]
      | AModel m \<Rightarrow> model_schema ct m ancestors
      | _ \<Rightarrow> Inl (TypeError ''Unsupported model annotation''))
     (\<lambda>schema. Inr (fold apply_meta (metadata_of annotation) schema))"
  by pat_completeness auto
termination
proof (relation "inv_image (less_than <*lex*> less_than)
    (\<lambda>x. case x of Inl (ct, m, anc) \<Rightarrow> (open_classes ct anc, 0)
           | Inr (ct, a, anc) \<Rightarrow> (open_classes ct anc, Suc (size a)))", goal_cases)
  case (2 ct model ancestors c h)
  then show ?case using open_classes_less by simp
next
  case (3 ct annotation ancestors b)
  then show ?case using size_strip_annotated [of annotation] by simp
next
  case (4 ct annotation ancestors k b)
  then show ?case using size_strip_annotated [of annotation] by simp
next
  case (5 ct annotation ancestors args b)
  then show ?case using size_strip_annotated [of annotation] is_optional_of_size [of "AUnion args" b] by simp
qed auto

declare model_schema.simps [simp del] annotation_schema.simps [simp del]

definition model_json_schema :: "ctab \<Rightarrow> string \<Rightarrow> string \<Rightarrow> sids \<Rightarrow> sids \<times> dict res" where
  \<comment> \<open>the binding stays when the generator raises\<close>
  "model_json_schema ct model schema_id sids =
     (case bind_schema ct model schema_id sids of
        Inl e \<Rightarrow> (sids, Inl e)
      | Inr sids' \<Rightarrow>
          (sids', rbind (model_schema ct model []) (\<lambda>schema.
             Inr ([(''$schema'', VStr ''https://json-schema.org/draft/2020-12/schema''),
                   (''$id'', VStr schema_id)] @ schema))))"

end
