(* ===== verification/Dataset_Models.thy ===== *)
theory Dataset_Models
  imports Modeling
begin

text \<open>
  The model classes of the nine dataset packages
  (\<open>reference/datasets/*/src/*/models.py\<close>) as entries of one class table. The input class of a
  package is what the model sees; the private class is read by its scorer only.
\<close>

abbreviation field :: "ann \<Rightarrow> string \<Rightarrow> ann" where
  "field a description \<equiv> AAnnotated a [MField description None None]"

abbreviation field_min_length :: "ann \<Rightarrow> string \<Rightarrow> int \<Rightarrow> ann" where
  "field_min_length a description n \<equiv> AAnnotated a [MField description None (Some n)]"

abbreviation field_minimum :: "ann \<Rightarrow> string \<Rightarrow> int \<Rightarrow> ann" where
  "field_minimum a description n \<equiv> AAnnotated a [MField description (Some (VInt n)) None]"

abbreviation optional :: "ann \<Rightarrow> ann" where
  "optional a \<equiv> AUnion [a, ANoneType]"

definition Gsm8kInput :: cls where
  "Gsm8kInput =
     \<lparr>cls_doc = ''Model-visible GSM8K task data.'',
      cls_hints =
      [(''instruction'', field_min_length AStr ''Task question'' 1)],
      cls_defaults = []\<rparr>"

definition Gsm8kPrivateData :: cls where
  "Gsm8kPrivateData =
     \<lparr>cls_doc = ''Scorer-only GSM8K reference data.'',
      cls_hints =
      [(''answer'', field_min_length AStr ''Reference answer'' 1)],
      cls_defaults = []\<rparr>"

definition OlymmathInput :: cls where
  "OlymmathInput =
     \<lparr>cls_doc = ''Model-visible OlymMATH problem.'',
      cls_hints =
      [(''instruction'', field_min_length AStr ''Math problem'' 1),
       (''language'', field (ALiteral [VStr ''en'', VStr ''zh'']) ''Problem language''),
       (''difficulty'', field (ALiteral [VStr ''easy'', VStr ''hard'']) ''Problem difficulty''),
       (''subject'', field AStr ''Math subject'')],
      cls_defaults = []\<rparr>"

definition OlymmathPrivateData :: cls where
  "OlymmathPrivateData =
     \<lparr>cls_doc = ''Scorer-only OlymMATH reference answer.'',
      cls_hints =
      [(''answer'', field_min_length AStr ''Reference answer'' 1)],
      cls_defaults = []\<rparr>"

definition PubmedqaInput :: cls where
  "PubmedqaInput =
     \<lparr>cls_doc = ''Model-visible PubMedQA task data.'',
      cls_hints =
      [(''instruction'', field_min_length AStr ''Question'' 1),
       (''contexts'', field (AListOf AStr) ''Abstract passages in source order'')],
      cls_defaults = []\<rparr>"

definition PubmedqaPrivateData :: cls where
  "PubmedqaPrivateData =
     \<lparr>cls_doc = ''Scorer-only PubMedQA label.'',
      cls_hints =
      [(''answer'', field_min_length AStr ''Reference label'' 1)],
      cls_defaults = []\<rparr>"

definition ScitabInput :: cls where
  "ScitabInput =
     \<lparr>cls_doc = ''Model-visible SciTab claim and table.'',
      cls_hints =
      [(''claim'', field_min_length AStr ''Claim to verify'' 1),
       (''paper'', field AStr ''Paper title''),
       (''paper_id'', field AStr ''Source paper identifier''),
       (''table_id'', field AStr ''Source table identifier''),
       (''caption'', field AStr ''Table caption''),
       (''columns'', field (AListOf AStr) ''Table column names''),
       (''rows'', field (AListOf (AListOf AStr)) ''Table rows'')],
      cls_defaults = []\<rparr>"

definition ScitabPrivateData :: cls where
  "ScitabPrivateData =
     \<lparr>cls_doc = ''Scorer-only SciTab label.'',
      cls_hints =
      [(''answer'', field_min_length AStr ''Reference label'' 1)],
      cls_defaults = []\<rparr>"

definition DscodebenchInput :: cls where
  "DscodebenchInput =
     \<lparr>cls_doc = ''Model-visible DSCodeBench problem.'',
      cls_hints =
      [(''instruction'', field_min_length AStr ''Programming problem'' 1),
       (''library'', field AStr ''Required library''),
       (''entry_point'', field AStr ''Required callable entry point'')],
      cls_defaults = []\<rparr>"

definition DscodebenchPrivateData :: cls where
  "DscodebenchPrivateData =
     \<lparr>cls_doc = ''Scorer-only DSCodeBench tests and evaluation plan.'',
      cls_hints =
      [(''tests'', field artifact_ref ''Versioned test artifact''),
       (''reference_solution'', field (optional artifact_ref) ''Optional reference solution''),
       (''num_tests'', field_minimum AInt ''Number of tests'' 1),
       (''test_seed'', field_minimum AInt ''Test sampling seed'' 0),
       (''evaluation_plan'', field evaluation_plan ''Only harness execution configuration'')],
      cls_defaults = [(''reference_solution'', VNone)]\<rparr>"

definition SweLiteInput :: cls where
  "SweLiteInput =
     \<lparr>cls_doc = ''Model-visible SWE-bench Lite task.'',
      cls_hints =
      [(''instruction'', field_min_length AStr ''Repository repair request'' 1),
       (''repo'', field_min_length AStr ''Repository identity'' 1),
       (''base_commit'', field_min_length AStr ''Exact starting commit'' 1),
       (''workspace_path'', field_min_length AStr ''Sandbox workspace path'' 1),
       (''runtime_assets'', field (AListOf artifact_ref) ''Versioned repository and dependency inputs'')],
      cls_defaults = []\<rparr>"

definition SweLitePrivateData :: cls where
  "SweLitePrivateData =
     \<lparr>cls_doc = ''Scorer-only SWE-bench Lite tests.'',
      cls_hints =
      [(''test_patch'', field artifact_ref ''Hidden test patch''),
       (''reference_patch'', field (optional artifact_ref) ''Optional reference patch''),
       (''fail_to_pass'', field (AListOf AStr) ''Tests that must change from failing to passing''),
       (''pass_to_pass'', field (AListOf AStr) ''Tests that must remain passing''),
       (''evaluation_plan'', field evaluation_plan ''Only harness execution configuration'')],
      cls_defaults = [(''reference_patch'', VNone)]\<rparr>"

definition SweProInput :: cls where
  "SweProInput =
     \<lparr>cls_doc = ''Model-visible SWE-bench Pro task.'',
      cls_hints =
      [(''instruction'', field_min_length AStr ''Repository repair request'' 1),
       (''repo'', field_min_length AStr ''Repository identity'' 1),
       (''base_commit'', field_min_length AStr ''Exact starting commit'' 1),
       (''workspace_path'', field_min_length AStr ''Sandbox workspace path'' 1),
       (''runtime_assets'', field (AListOf artifact_ref) ''Versioned repository and dependency inputs'')],
      cls_defaults = []\<rparr>"

definition SweProPrivateData :: cls where
  "SweProPrivateData =
     \<lparr>cls_doc = ''Scorer-only SWE-bench Pro tests.'',
      cls_hints =
      [(''test_patch'', field artifact_ref ''Hidden test patch''),
       (''reference_patch'', field (optional artifact_ref) ''Optional reference patch''),
       (''fail_to_pass'', field (AListOf AStr) ''Tests that must change from failing to passing''),
       (''pass_to_pass'', field (AListOf AStr) ''Tests that must remain passing''),
       (''evaluation_plan'', field evaluation_plan ''Only harness execution configuration'')],
      cls_defaults = [(''reference_patch'', VNone)]\<rparr>"

definition SweSmithInput :: cls where
  "SweSmithInput =
     \<lparr>cls_doc = ''Model-visible SWE-smith task.'',
      cls_hints =
      [(''instruction'', field_min_length AStr ''Repository repair request'' 1),
       (''repo'', field_min_length AStr ''Repository identity'' 1),
       (''base_commit'', field_min_length AStr ''Exact starting commit'' 1),
       (''workspace_path'', field_min_length AStr ''Sandbox workspace path'' 1),
       (''runtime_assets'', field (AListOf artifact_ref) ''Versioned repository and dependency inputs'')],
      cls_defaults = []\<rparr>"

definition SweSmithPrivateData :: cls where
  "SweSmithPrivateData =
     \<lparr>cls_doc = ''Scorer-only SWE-smith tests.'',
      cls_hints =
      [(''test_patch'', field artifact_ref ''Hidden test patch''),
       (''reference_patch'', field (optional artifact_ref) ''Optional reference patch''),
       (''fail_to_pass'', field (AListOf AStr) ''Tests that must change from failing to passing''),
       (''pass_to_pass'', field (AListOf AStr) ''Tests that must remain passing''),
       (''evaluation_plan'', field evaluation_plan ''Only harness execution configuration'')],
      cls_defaults = [(''reference_patch'', VNone)]\<rparr>"

definition SweVerifiedInput :: cls where
  "SweVerifiedInput =
     \<lparr>cls_doc = ''Model-visible SWE-bench Verified task.'',
      cls_hints =
      [(''instruction'', field_min_length AStr ''Repository repair request'' 1),
       (''repo'', field_min_length AStr ''Repository identity'' 1),
       (''base_commit'', field_min_length AStr ''Exact starting commit'' 1),
       (''workspace_path'', field_min_length AStr ''Sandbox workspace path'' 1),
       (''runtime_assets'', field (AListOf artifact_ref) ''Versioned repository and dependency inputs'')],
      cls_defaults = []\<rparr>"

definition SweVerifiedPrivateData :: cls where
  "SweVerifiedPrivateData =
     \<lparr>cls_doc = ''Scorer-only SWE-bench Verified tests.'',
      cls_hints =
      [(''test_patch'', field artifact_ref ''Hidden test patch''),
       (''reference_patch'', field (optional artifact_ref) ''Optional reference patch''),
       (''fail_to_pass'', field (AListOf AStr) ''Tests that must change from failing to passing''),
       (''pass_to_pass'', field (AListOf AStr) ''Tests that must remain passing''),
       (''evaluation_plan'', field evaluation_plan ''Only harness execution configuration'')],
      cls_defaults = [(''reference_patch'', VNone)]\<rparr>"

definition package_models :: ctab where
  "package_models =
     [(''Gsm8kInput'', Gsm8kInput),
      (''Gsm8kPrivateData'', Gsm8kPrivateData),
      (''OlymmathInput'', OlymmathInput),
      (''OlymmathPrivateData'', OlymmathPrivateData),
      (''PubmedqaInput'', PubmedqaInput),
      (''PubmedqaPrivateData'', PubmedqaPrivateData),
      (''ScitabInput'', ScitabInput),
      (''ScitabPrivateData'', ScitabPrivateData),
      (''DscodebenchInput'', DscodebenchInput),
      (''DscodebenchPrivateData'', DscodebenchPrivateData),
      (''SweLiteInput'', SweLiteInput),
      (''SweLitePrivateData'', SweLitePrivateData),
      (''SweProInput'', SweProInput),
      (''SweProPrivateData'', SweProPrivateData),
      (''SweSmithInput'', SweSmithInput),
      (''SweSmithPrivateData'', SweSmithPrivateData),
      (''SweVerifiedInput'', SweVerifiedInput),
      (''SweVerifiedPrivateData'', SweVerifiedPrivateData)]"

lemmas model_class_defs = Gsm8kInput_def Gsm8kPrivateData_def OlymmathInput_def OlymmathPrivateData_def PubmedqaInput_def PubmedqaPrivateData_def ScitabInput_def ScitabPrivateData_def DscodebenchInput_def DscodebenchPrivateData_def SweLiteInput_def SweLitePrivateData_def SweProInput_def SweProPrivateData_def SweSmithInput_def SweSmithPrivateData_def SweVerifiedInput_def SweVerifiedPrivateData_def
  artifact_ref_def evaluation_plan_def

end
