(* ===== verification/Modeling_Correct.thy ===== *)
theory Modeling_Correct
  imports Dataset_Models
begin

text \<open>
  What package authors rely on in \<open>modeling.py\<close>: an instance written to an envelope and read back
  is the same instance; the generated schema demands and allows exactly the fields the constructor
  demands and allows; a class that reaches itself through its annotations gets no schema.
\<close>

section \<open>Instances survive the envelope\<close>

definition wf_ctab :: "ctab \<Rightarrow> bool" where
  \<comment> \<open>hints have distinct names, defaults are JSON values\<close>
  "wf_ctab ct = (\<forall>e \<in> set ct. distinct (map fst (cls_hints (snd e))) \<and>
                   (\<forall>p \<in> set (cls_defaults (snd e)). json_val (snd p)))"

lemma dump_json [simp]: "json_val v \<Longrightarrow> dump v = v"
proof (induction v rule: json_val.induct)
  case (1 xs)
  then show ?case by (simp add: map_idI)
next
  case (2 d)
  then show ?case by (auto intro!: map_idI)
qed auto

lemma dump_VNone [simp]: "dump w = VNone \<longleftrightarrow> w = VNone"
  by (cases w) auto

lemma distinct_model_hints: "distinct (map fst (cls_hints c)) \<Longrightarrow> distinct (map fst (model_hints c))"
  unfolding model_hints_def by (rule distinct_map_filter)

lemma map_of_list_all2:
  assumes "list_all2 (\<lambda>h p. fst p = fst h \<and> Q h (snd p)) hs e" "distinct (map fst hs)" "h \<in> set hs"
  shows "\<exists>x. map_of e (fst h) = Some x \<and> Q h x"
  using assms
proof (induction hs e rule: list_all2_induct)
  case (Cons h' hs p e)
  then show ?case by (cases p) (force simp: rev_image_eqI)
qed simp

lemma list_all2_keys:
  "list_all2 (\<lambda>h p. fst p = fst h \<and> Q h (snd p)) hs e \<Longrightarrow> map fst e = map fst hs"
  by (induction rule: list_all2_induct) auto

lemma init_model_Inr_iff:
  assumes "map_of ct m = Some c"
  shows "init_model (Suc n) ct m values = Inr w \<longleftrightarrow>
    (\<forall>k \<in> set (map fst values). k \<in> set (map fst (model_hints c))) \<and>
    (\<exists>e. w = VModel m e \<and>
       list_all2 (\<lambda>h p. fst p = fst h \<and>
           (\<exists>v. field_source c values (fst h) = Some v \<and> restore n ct (snd h) v = Inr (snd p)))
         (model_hints c) e)"
proof -
  have eq: "(case field_source c values (fst h) of
              None \<Rightarrow> Inl (TypeError (''Missing field for '' @ m @ '': '' @ fst h))
            | Some v \<Rightarrow> rbind (restore n ct (snd h) v) (\<lambda>x. Inr (fst h, x))) = Inr p \<longleftrightarrow>
         fst p = fst h \<and> (\<exists>v. field_source c values (fst h) = Some v \<and> restore n ct (snd h) v = Inr (snd p))"
    for h p by (cases p) (auto simp: rbind_Inr_iff split: option.splits)
  show ?thesis
    using assms by (auto simp: Let_def rbind_Inr_iff rmap_Inr_iff eq)
qed

lemma rmap_restore_dump:
  assumes "rmap f xs = Inr ys" "\<And>x y. x \<in> set xs \<Longrightarrow> f x = Inr y \<Longrightarrow> f (dump y) = Inr y"
  shows "rmap f (map dump ys) = Inr ys"
proof -
  from assms(1) have "list_all2 (\<lambda>x y. f x = Inr y) xs ys" by (simp add: rmap_Inr_iff)
  then have "list_all2 (\<lambda>y' y. f y' = Inr y) (map dump ys) ys"
    using assms(2) by (induction rule: list_all2_induct) auto
  then show ?thesis by (simp add: rmap_Inr_iff)
qed

lemma rmap_items_dump:
  assumes "rmap (\<lambda>p. rbind (f (snd p)) (\<lambda>x. Inr (fst p, x))) d = Inr e"
    and "\<And>p y. p \<in> set d \<Longrightarrow> f (snd p) = Inr y \<Longrightarrow> f (dump y) = Inr y"
  shows "rmap (\<lambda>p. rbind (f (snd p)) (\<lambda>x. Inr (fst p, x))) (map (\<lambda>p. (fst p, dump (snd p))) e) = Inr e"
proof -
  from assms(1) have "list_all2 (\<lambda>p q. fst q = fst p \<and> f (snd p) = Inr (snd q)) d e"
    by (auto simp: rmap_Inr_iff rbind_Inr_iff elim!: list_all2_mono)
  then have "list_all2 (\<lambda>p q. fst q = fst p \<and> f (snd p) = Inr (snd q)) (map (\<lambda>p. (fst p, dump (snd p))) e) e"
    using assms(2) by (induction rule: list_all2_induct) auto
  then show ?thesis
    by (auto simp: rmap_Inr_iff rbind_Inr_iff elim!: list_all2_mono)
qed

definition restore_dumps :: "nat \<Rightarrow> ctab \<Rightarrow> bool" where
  "restore_dumps n ct \<longleftrightarrow>
     (\<forall>a v w. json_val v \<longrightarrow> restore n ct a v = Inr w \<longrightarrow> restore n ct a (dump w) = Inr w)"

definition init_dumps :: "nat \<Rightarrow> ctab \<Rightarrow> bool" where
  "init_dumps n ct \<longleftrightarrow>
     (\<forall>m d w. (\<forall>p \<in> set d. json_val (snd p)) \<longrightarrow> init_model n ct m d = Inr w \<longrightarrow>
        (\<exists>e. w = VModel m e \<and> init_model n ct m (map (\<lambda>p. (fst p, dump (snd p))) e) = Inr w))"

lemma restore_dumpsD:
  "restore_dumps n ct \<Longrightarrow> json_val v \<Longrightarrow> restore n ct a v = Inr w \<Longrightarrow> restore n ct a (dump w) = Inr w"
  by (simp add: restore_dumps_def)

lemma init_dumpsD:
  "init_dumps n ct \<Longrightarrow> \<forall>p \<in> set d. json_val (snd p) \<Longrightarrow> init_model n ct m d = Inr w \<Longrightarrow>
     \<exists>e. w = VModel m e \<and> init_model n ct m (map (\<lambda>p. (fst p, dump (snd p))) e) = Inr w"
  by (simp add: init_dumps_def)

lemma restore_plain:
  assumes "is_optional_of (strip_annotated a) = None" "\<not> (is_union (strip_annotated a) \<and> v = VNone)"
  shows "restore (Suc n) ct a v =
    (case strip_annotated a of
       AModel c \<Rightarrow> (case v of VDict d \<Rightarrow> init_model n ct c d | _ \<Rightarrow> Inr v)
     | AListOf b \<Rightarrow> (case v of VList xs \<Rightarrow> rbind (rmap (restore n ct b) xs) (\<lambda>ys. Inr (VList ys))
                     | _ \<Rightarrow> Inr v)
     | ADictOf k b \<Rightarrow> (case v of VDict d \<Rightarrow> rbind (rmap (\<lambda>p. rbind (restore n ct b (snd p))
                         (\<lambda>x. Inr (fst p, x))) d) (\<lambda>e. Inr (VDict e)) | _ \<Rightarrow> Inr v)
     | _ \<Rightarrow> Inr v)"
  by (simp only: restore.simps Let_def assms if_False option.case)

lemma restore_cases:
  assumes "is_optional_of (strip_annotated a) = None" "\<not> (is_union (strip_annotated a) \<and> v = VNone)"
    and "restore (Suc n) ct a v = Inr w"
  obtains (model) c d where "strip_annotated a = AModel c" "v = VDict d" "init_model n ct c d = Inr w"
  | (list) b xs ys where "strip_annotated a = AListOf b" "v = VList xs" "w = VList ys"
      "rmap (restore n ct b) xs = Inr ys"
  | (dict) k b d e where "strip_annotated a = ADictOf k b" "v = VDict d" "w = VDict e"
      "rmap (\<lambda>p. rbind (restore n ct b (snd p)) (\<lambda>x. Inr (fst p, x))) d = Inr e"
  | (other) "w = v"
  using assms(3) unfolding restore_plain [OF assms(1,2)]
  by (cases "strip_annotated a"; cases v) (auto simp: rbind_Inr_iff)

lemma restore_step_dump:
  assumes IHr: "restore_dumps n ct" and IHi: "init_dumps n ct"
    and j: "json_val v" and r: "restore (Suc n) ct a v = Inr w"
  shows "restore (Suc n) ct a (dump w) = Inr w"
proof (cases "is_union (strip_annotated a) \<and> v = VNone")
  case True
  with r show ?thesis by (simp add: Let_def)
next
  case no_none: False
  show ?thesis
  proof (cases "is_optional_of (strip_annotated a)")
    case (Some b)
    with r no_none have "restore n ct b v = Inr w" by (simp add: Let_def)
    from restore_dumpsD [OF IHr j this] Some show ?thesis by (auto simp: Let_def)
  next
    case None
    from None no_none r show ?thesis
    proof (cases rule: restore_cases)
      case (model c d)
      with init_dumpsD [OF IHi _ model(3)] j obtain e where "w = VModel c e"
        "init_model n ct c (map (\<lambda>p. (fst p, dump (snd p))) e) = Inr w" by auto
      with model show ?thesis by (subst restore_plain [OF None]) simp_all
    next
      case (list b xs ys)
      have "rmap (restore n ct b) (map dump ys) = Inr ys"
        using j list restore_dumpsD [OF IHr] by (intro rmap_restore_dump [OF list(4)]) auto
      with list show ?thesis by (subst restore_plain [OF None]) simp_all
    next
      case (dict k b d e)
      have "rmap (\<lambda>p. rbind (restore n ct b (snd p)) (\<lambda>x. Inr (fst p, x)))
              (map (\<lambda>p. (fst p, dump (snd p))) e) = Inr e"
        using j dict restore_dumpsD [OF IHr] by (intro rmap_items_dump [OF dict(4)]) auto
      with dict show ?thesis by (subst restore_plain [OF None]) simp_all
    next
      case other
      with j r show ?thesis by simp
    qed
  qed
qed

lemma list_all2_mono':
  "(\<And>x y. y \<in> set ys \<Longrightarrow> P x y \<Longrightarrow> Q x y) \<Longrightarrow> list_all2 P xs ys \<Longrightarrow> list_all2 Q xs ys"
  by (auto simp: list_all2_conv_all_nth)

lemma init_step_dump:
  assumes "wf_ctab ct"
    and IHr: "restore_dumps n ct"
    and j: "\<forall>p \<in> set d. json_val (snd p)" and r: "init_model (Suc n) ct m d = Inr w"
  shows "\<exists>e. w = VModel m e \<and> init_model (Suc n) ct m (map (\<lambda>p. (fst p, dump (snd p))) e) = Inr w"
proof -
  from r obtain c where c: "map_of ct m = Some c" by (auto split: option.splits)
  then have wf: "distinct (map fst (model_hints c))" "\<forall>p \<in> set (cls_defaults c). json_val (snd p)"
    using assms(1) distinct_model_hints unfolding wf_ctab_def by (metis map_of_SomeD snd_conv)+
  from r c obtain e where e: "w = VModel m e"
    "list_all2 (\<lambda>h p. fst p = fst h \<and>
         (\<exists>v. field_source c d (fst h) = Some v \<and> restore n ct (snd h) v = Inr (snd p))) (model_hints c) e"
    using init_model_Inr_iff by blast
  have "json_val v" if "field_source c d k = Some v" for k v
    using that j wf(2) by (auto simp: field_source_def split: option.splits dest!: map_of_SomeD)
  then have re: "list_all2 (\<lambda>h p. fst p = fst h \<and> restore n ct (snd h) (dump (snd p)) = Inr (snd p))
              (model_hints c) e"
    using restore_dumpsD [OF IHr] by (intro list_all2_mono [OF e(2)]) blast
  let ?d = "map (\<lambda>p. (fst p, dump (snd p))) e"
  have keys: "map fst e = map fst (model_hints c)" using list_all2_keys [OF e(2)] .
  have src: "field_source c ?d (fst p) = Some (dump (snd p))" if "p \<in> set e" for p
  proof -
    have "distinct (map fst ?d)" using wf(1) keys by (simp add: comp_def)
    moreover have "(fst p, dump (snd p)) \<in> set ?d" using that by auto
    ultimately have "map_of ?d (fst p) = Some (dump (snd p))" by simp
    then show ?thesis by (simp add: field_source_def)
  qed
  have "map fst ?d = map fst (model_hints c)" using keys by (simp add: comp_def)
  then have "\<forall>k \<in> set (map fst ?d). k \<in> set (map fst (model_hints c))" by simp
  moreover have "list_all2 (\<lambda>h p. fst p = fst h \<and>
       (\<exists>v. field_source c ?d (fst h) = Some v \<and> restore n ct (snd h) v = Inr (snd p))) (model_hints c) e"
  proof (rule list_all2_mono' [OF _ re])
    fix h p assume "p \<in> set e" "fst p = fst h \<and> restore n ct (snd h) (dump (snd p)) = Inr (snd p)"
    then show "fst p = fst h \<and>
       (\<exists>v. field_source c ?d (fst h) = Some v \<and> restore n ct (snd h) v = Inr (snd p))"
      using src by metis
  qed
  ultimately show ?thesis using e(1) unfolding init_model_Inr_iff [OF c] by blast
qed

lemma restore_init_dump:
  assumes "wf_ctab ct"
  shows "restore_dumps n ct \<and> init_dumps n ct"
proof (induction n)
  case 0
  then show ?case by (simp add: restore_dumps_def init_dumps_def)
next
  case (Suc n)
  then have IH: "restore_dumps n ct" "init_dumps n ct" by simp_all
  have "restore_dumps (Suc n) ct"
    unfolding restore_dumps_def using restore_step_dump [OF IH] by blast
  moreover have "init_dumps (Suc n) ct"
    unfolding init_dumps_def using init_step_dump [OF assms IH(1)] by blast
  ultimately show ?case ..
qed

text \<open>C2: A model instance built from JSON values, written to its envelope and read back by the same
  class, is the same instance, nested models, optional fields and defaults included.\<close>
theorem model_envelope_roundtrip:
  assumes "wf_ctab ct" "\<forall>p \<in> set d. json_val (snd p)" "init_model n ct m d = Inr w"
    and "model_to_envelope sids w = Inr env"
  shows "model_from_envelope n ct sids m env = Inr w"
proof -
  obtain e where e: "w = VModel m e" "init_model n ct m (map (\<lambda>p. (fst p, dump (snd p))) e) = Inr w"
    using restore_init_dump [OF assms(1), of n] init_dumpsD assms(2,3) by blast
  from assms(4) e(1) obtain s where "map_of sids m = Some s"
    "env = VDict [(''schema_ref'', VStr s), (''data'', dump w)]"
    by (auto split: option.splits if_splits)
  with e show ?thesis
    by (simp add: model_from_envelope_def get_or_def schema_id_val_def ditem_def)
qed

definition ds_private_row :: dict where
  "ds_private_row = [(''tests'', VDict [(''digest'', VStr ''d'')]), (''num_tests'', VInt 2),
     (''test_seed'', VInt 7), (''evaluation_plan'', VDict [(''timeout_ms'', VInt 10)])]"

definition ds_private_model :: val where
  "ds_private_model = VModel ''DscodebenchPrivateData''
     [(''tests'', VDict [(''digest'', VStr ''d'')]), (''reference_solution'', VNone),
      (''num_tests'', VInt 2), (''test_seed'', VInt 7),
      (''evaluation_plan'', VDict [(''timeout_ms'', VInt 10)])]"

theorem model_envelope_roundtrip_witness:
  "\<exists>env. model_to_envelope [(''DscodebenchPrivateData'', ''urn:ds'')] ds_private_model = Inr env \<and>
     model_from_envelope 9 package_models [(''DscodebenchPrivateData'', ''urn:ds'')]
       ''DscodebenchPrivateData'' env = Inr ds_private_model"
proof -
  have 1: "wf_ctab package_models" by code_simp
  have 2: "\<forall>p \<in> set ds_private_row. json_val (snd p)" by code_simp
  have 3: "init_model 9 package_models ''DscodebenchPrivateData'' ds_private_row = Inr ds_private_model"
    by code_simp
  have 4: "\<exists>env. model_to_envelope [(''DscodebenchPrivateData'', ''urn:ds'')] ds_private_model = Inr env"
    by (simp add: ds_private_model_def)
  from 4 model_envelope_roundtrip [OF 1 2 3] show ?thesis by blast
qed

section \<open>The generated schema and the constructor agree\<close>

definition schema_keys :: "dict \<Rightarrow> string set" where
  "schema_keys schema = (case map_of schema ''properties'' of Some (VDict d) \<Rightarrow> fst ` set d | _ \<Rightarrow> {})"

definition schema_required :: "dict \<Rightarrow> string set" where
  "schema_required schema =
     (case map_of schema ''required'' of Some (VList xs) \<Rightarrow> {k. VStr k \<in> set xs} | _ \<Rightarrow> {})"

lemma model_schema_Inr:
  assumes "model_schema ct m anc = Inr s"
  obtains c props where "map_of ct m = Some c" "m \<notin> set anc"
    "map fst props = map fst (model_hints c)"
    "map_of s ''properties'' = Some (VDict props)"
    "map_of s ''required'' = Some (VList (map (\<lambda>h. VStr (fst h))
       (filter (\<lambda>h. \<not> has_key (cls_defaults c) (fst h)) (model_hints c))))"
    "\<forall>h \<in> set (model_hints c). \<exists>t. annotation_schema ct (snd h) (anc @ [m]) = Inr t"
proof -
  from assms obtain c props where c: "m \<notin> set anc" "map_of ct m = Some c" and
    p: "rmap (\<lambda>h. rbind (annotation_schema ct (snd h) (anc @ [m])) (\<lambda>s.
                   Inr (fst h, VDict (case map_of (cls_defaults c) (fst h) of
                                        None \<Rightarrow> s
                                      | Some v \<Rightarrow> AList.update ''default'' (dump v) s))))
                 (model_hints c) = Inr props" and
    s: "s = [(''title'', VStr m), (''description'', VStr (strip (cls_doc c))),
             (''type'', VStr ''object''), (''properties'', VDict props),
             (''required'', VList (map (\<lambda>h. VStr (fst h))
                 (filter (\<lambda>h. \<not> has_key (cls_defaults c) (fst h)) (model_hints c)))),
             (''additionalProperties'', VBool False)]"
    by (subst (asm) model_schema.simps) (auto simp: rbind_Inr_iff split: if_splits option.splits)
  have all: "list_all2 (\<lambda>h q. fst q = fst h \<and> (\<exists>t. annotation_schema ct (snd h) (anc @ [m]) = Inr t))
          (model_hints c) props"
    using p by (auto simp: rmap_Inr_iff rbind_Inr_iff elim!: list_all2_mono)
  then have k: "map fst props = map fst (model_hints c)"
    by (induction rule: list_all2_induct) auto
  from all have "\<forall>h \<in> set (model_hints c). \<exists>t. annotation_schema ct (snd h) (anc @ [m]) = Inr t"
    by (induction rule: list_all2_induct) auto
  with c k s that show ?thesis by simp
qed

text \<open>C3: The generated schema and the constructor of a class agree: construction succeeds exactly when
  every field the schema requires is given, no field outside its properties is given, and every
  given or defaulted value can be restored.\<close>
theorem model_schema_matches_constructor:
  assumes "model_schema ct m anc = Inr s" "map_of ct m = Some c"
  shows "ok (init_model (Suc n) ct m values) \<longleftrightarrow>
           schema_required s \<subseteq> fst ` set values \<and> fst ` set values \<subseteq> schema_keys s \<and>
           (\<forall>h \<in> set (model_hints c). \<forall>v. field_source c values (fst h) = Some v \<longrightarrow> ok (restore n ct (snd h) v))"
proof -
  obtain c' props where "map_of ct m = Some c'" and p': "map fst props = map fst (model_hints c')"
    "map_of s ''properties'' = Some (VDict props)"
    "map_of s ''required'' = Some (VList (map (\<lambda>h. VStr (fst h))
       (filter (\<lambda>h. \<not> has_key (cls_defaults c') (fst h)) (model_hints c'))))"
    by (rule model_schema_Inr [OF assms(1)]) blast
  with assms(2) have "c' = c" by simp
  note p = p' [unfolded this]
  have keys: "schema_keys s = fst ` set (model_hints c)"
    using p(2) arg_cong [OF p(1), of set] by (simp add: schema_keys_def)
  have req: "schema_required s = {fst h | h. h \<in> set (model_hints c) \<and> \<not> has_key (cls_defaults c) (fst h)}"
    using p(3) by (force simp: schema_required_def)
  have src: "field_source c values k \<noteq> None \<longleftrightarrow> k \<in> fst ` set values \<or> has_key (cls_defaults c) k" for k
    using map_of_eq_None_iff [of "values" k]
    by (cases "map_of values k") (auto simp: field_source_def has_key_def)
  have req_iff: "schema_required s \<subseteq> fst ` set values \<longleftrightarrow>
      (\<forall>h \<in> set (model_hints c). field_source c values (fst h) \<noteq> None)"
    unfolding req src by blast
  have "ok (init_model (Suc n) ct m values) \<longleftrightarrow> fst ` set values \<subseteq> fst ` set (model_hints c) \<and>
     (\<forall>h \<in> set (model_hints c). \<exists>v x. field_source c values (fst h) = Some v \<and> restore n ct (snd h) v = Inr x)"
  proof -
    have "(\<exists>e. list_all2 (\<lambda>h p. fst p = fst h \<and> (\<exists>v. field_source c values (fst h) = Some v \<and>
             restore n ct (snd h) v = Inr (snd p))) hs e) \<longleftrightarrow>
          (\<forall>h \<in> set hs. \<exists>v x. field_source c values (fst h) = Some v \<and> restore n ct (snd h) v = Inr x)" for hs
      by (induction hs) (auto simp: list_all2_Cons1)
    then show ?thesis unfolding ok_iff init_model_Inr_iff [OF assms(2)] by auto
  qed
  also have "\<dots> \<longleftrightarrow> schema_required s \<subseteq> fst ` set values \<and> fst ` set values \<subseteq> schema_keys s \<and>
      (\<forall>h \<in> set (model_hints c). \<forall>v. field_source c values (fst h) = Some v \<longrightarrow> ok (restore n ct (snd h) v))"
    unfolding req_iff keys ok_iff by (metis not_None_eq option.inject)
  finally show ?thesis .
qed

theorem model_schema_matches_constructor_witness:
  "ok (init_model (Suc 8) package_models ''Gsm8kInput'' [(''instruction'', VStr ''q'')])"
proof -
  have 1: "model_schema package_models ''Gsm8kInput'' [] = Inr
      [(''title'', VStr ''Gsm8kInput''), (''description'', VStr ''Model-visible GSM8K task data.''),
       (''type'', VStr ''object''),
       (''properties'', VDict [(''instruction'', VDict [(''type'', VStr ''string''),
          (''description'', VStr ''Task question''), (''minLength'', VInt 1)])]),
       (''required'', VList [VStr ''instruction'']), (''additionalProperties'', VBool False)]"
    (is "_ = Inr ?s") by code_simp
  have 2: "map_of package_models ''Gsm8kInput'' = Some Gsm8kInput"
    by (simp add: package_models_def)
  have "schema_required ?s \<subseteq> {''instruction''}" "schema_keys ?s = {''instruction''}"
    by (auto simp: schema_required_def schema_keys_def)
  moreover have "model_hints Gsm8kInput = [(''instruction'', field_min_length AStr ''Task question'' 1)]"
    by code_simp
  ultimately show ?thesis
    unfolding model_schema_matches_constructor [OF 1 2] by (simp add: field_source_def eval_nat_numeral)
qed

section \<open>Recursive classes have no schema\<close>

fun ann_models :: "ann \<Rightarrow> string list" where
  "ann_models (AListOf b) = ann_models b"
| "ann_models (ADictOf k b) = ann_models b"
| "ann_models (AUnion args) = concat (map ann_models args)"
| "ann_models (AModel m) = [m]"
| "ann_models (AAnnotated a ms) = ann_models a"
| "ann_models _ = []"

definition class_refs :: "ctab \<Rightarrow> (string \<times> string) set" where
  "class_refs ct = {(m, m'). \<exists>c. map_of ct m = Some c \<and>
                      (\<exists>h \<in> set (model_hints c). m' \<in> set (ann_models (snd h)))}"

lemma annotation_schema_annotated:
  assumes "annotation_schema ct (AAnnotated a ms) anc = Inr s"
  shows "\<exists>t. annotation_schema ct a anc = Inr t"
proof (cases "\<exists>b ms'. a = AAnnotated b ms'")
  case True
  with assms show ?thesis by (subst (asm) annotation_schema.simps) auto
next
  case False
  then have "strip_annotated a = a" "metadata_of a = []" by (cases a; simp)+
  with assms show ?thesis
    by (subst (asm) annotation_schema.simps, subst annotation_schema.simps) (auto simp: rbind_Inr_iff)
qed

lemma annotation_schema_models:
  "annotation_schema ct a anc = Inr s \<Longrightarrow> m \<in> set (ann_models a) \<Longrightarrow> \<exists>t. model_schema ct m anc = Inr t"
proof (induction a arbitrary: s rule: ann_models.induct)
  case (3 args)
  from 3(2) obtain b t where b: "is_optional_of (AUnion args) = Some b" "annotation_schema ct b anc = Inr t"
    by (subst (asm) annotation_schema.simps) (auto simp: rbind_Inr_iff split: option.splits if_splits)
  from b(1) have f: "filter (\<lambda>a. a \<noteq> ANoneType) args = [b]" by (auto split: list.splits)
  from 3(3) obtain x where "x \<in> set args" "m \<in> set (ann_models x)" by auto
  moreover have "x \<noteq> ANoneType" using \<open>m \<in> set (ann_models x)\<close> by auto
  ultimately have "x = b" using f
    by (metis (mono_tags, lifting) filter_set filter_eq_Cons_iff in_set_conv_decomp list.set_intros(1) mem_Collect_eq set_ConsD set_filter empty_iff list.set(1))
  with 3(1) b \<open>x \<in> set args\<close> \<open>m \<in> set (ann_models x)\<close> show ?case by blast
next
  case (5 a ms)
  then show ?case using annotation_schema_annotated by fastforce
qed (subst (asm) annotation_schema.simps; auto simp: rbind_Inr_iff split: if_splits)+


lemma class_ref_schema:
  assumes "model_schema ct m anc = Inr s" "(m, m') \<in> class_refs ct"
  shows "\<exists>t. model_schema ct m' (anc @ [m]) = Inr t"
proof -
  obtain c where c: "map_of ct m = Some c"
    "\<forall>h \<in> set (model_hints c). \<exists>t. annotation_schema ct (snd h) (anc @ [m]) = Inr t"
    by (rule model_schema_Inr [OF assms(1)]) blast
  with assms(2) obtain h where "h \<in> set (model_hints c)" "m' \<in> set (ann_models (snd h))"
    by (auto simp: class_refs_def)
  with c(2) annotation_schema_models show ?thesis by blast
qed

lemma class_path_schema:
  assumes "(m, m') \<in> (class_refs ct)\<^sup>+" "model_schema ct m anc = Inr s"
  shows "\<exists>path t. m \<in> set path \<and> set anc \<subseteq> set path \<and> model_schema ct m' path = Inr t"
  using assms(1)
proof (induction rule: trancl_induct)
  case (base y)
  from class_ref_schema [OF assms(2) this] show ?case
    by (metis Un_iff list.set_intros(1) set_append subsetI)
next
  case (step y z)
  then obtain path t where p: "m \<in> set path" "set anc \<subseteq> set path" "model_schema ct y path = Inr t" by blast
  from class_ref_schema [OF p(3) step.hyps(2)] obtain u where "model_schema ct z (path @ [y]) = Inr u" by blast
  with p show ?case by (intro exI [of _ "path @ [y]"] exI [of _ u]) auto
qed

text \<open>When a class gets a schema, neither it nor any class it reaches through its annotations reaches
  itself, nor does it reach one of the enclosing classes: recursive models are always rejected, at
  any depth.\<close>
theorem model_schema_acyclic:
  assumes "model_schema ct m anc = Inr s"
  shows "(m, m) \<notin> (class_refs ct)\<^sup>+ \<and>
         (\<forall>m'. (m, m') \<in> (class_refs ct)\<^sup>+ \<longrightarrow> m' \<notin> set anc \<and> (m', m') \<notin> (class_refs ct)\<^sup>+)"
proof -
  have irr: "(y, y) \<notin> (class_refs ct)\<^sup>+" if "model_schema ct y path = Inr t" for y path t
    using class_path_schema [OF _ that] by (metis model_schema_Inr)
  have "m' \<notin> set anc \<and> (m', m') \<notin> (class_refs ct)\<^sup>+" if "(m, m') \<in> (class_refs ct)\<^sup>+" for m'
    using class_path_schema [OF that assms] irr by (metis model_schema_Inr subsetD)
  with irr [OF assms] show ?thesis by blast
qed

theorem model_schema_acyclic_witness:
  "(''Gsm8kInput'', ''Gsm8kInput'') \<notin> (class_refs package_models)\<^sup>+"
proof -
  have "ok (model_schema package_models ''Gsm8kInput'' [])" by code_simp
  then show ?thesis using model_schema_acyclic unfolding ok_iff by blast
qed

end
