(* ===== verification/Py_Json.thy ===== *)
theory Py_Json
  imports Py_Text "HOL-Library.List_Lexorder" "HOL-Library.Char_ord"
begin

text \<open>
  \<open>json.dumps\<close> with the options the code uses, and the library functions that stay parameters of
  the model: the shortest decimal text of a double, SHA-256, \<open>json.loads\<close>, and the two entry
  points of the JSON Schema validator. They are the fields of one record \<open>lib\<close>.
\<close>

record lib =
  float_repr :: "rat \<Rightarrow> string"                     \<comment> \<open>\<open>repr\<close> of a finite double\<close>
  sha256_hex :: "nat list \<Rightarrow> string"                \<comment> \<open>\<open>hashlib.sha256(b).hexdigest()\<close>\<close>
  json_loads :: "nat list \<Rightarrow> val res"
  check_schema :: "val \<Rightarrow> bool"                     \<comment> \<open>\<open>Draft202012Validator.check_schema\<close> does not raise\<close>
  conforms :: "(string \<times> val) list \<Rightarrow> val \<Rightarrow> val \<Rightarrow> bool"
    \<comment> \<open>\<open>Draft202012Validator(target, registry=resources).validate(v)\<close> does not raise\<close>

record json_opts =
  sort_keys :: bool
  item_sep :: string
  key_sep :: string
  allow_nan :: bool

definition hex_digit :: "nat \<Rightarrow> char" where
  "hex_digit n = (if n < 10 then char_of (48 + n) else char_of (87 + n))"

definition esc_char :: "char \<Rightarrow> string" where
  \<comment> \<open>one character inside a JSON string, with \<open>ensure_ascii=False\<close>\<close>
  "esc_char c =
     (if code c = 34 then [CHR 0x5C, CHR 0x22]
      else if code c = 92 then [CHR 0x5C, CHR 0x5C]
      else if code c = 8 then [CHR 0x5C, CHR ''b'']
      else if code c = 12 then [CHR 0x5C, CHR ''f'']
      else if code c = 10 then [CHR 0x5C, CHR ''n'']
      else if code c = 13 then [CHR 0x5C, CHR ''r'']
      else if code c = 9 then [CHR 0x5C, CHR ''t'']
      else if code c < 32 then [CHR 0x5C, CHR ''u'', CHR ''0'', CHR ''0'', hex_digit (code c div 16), hex_digit (code c mod 16)]
      else [c])"

definition json_string :: "string \<Rightarrow> string" where
  "json_string s = CHR 0x22 # concat (map esc_char s) @ [CHR 0x22]"

fun json_float :: "lib \<Rightarrow> json_opts \<Rightarrow> dbl \<Rightarrow> string res" where
  "json_float L opts (Fin x) = Inr (float_repr L x)"
| "json_float L opts x =
     (if allow_nan opts
      then Inr (case x of NaN \<Rightarrow> ''NaN'' | PInf \<Rightarrow> ''Infinity'' | _ \<Rightarrow> ''-Infinity'')
      else Inl (ValueError ''Out of range float values are not JSON compliant''))"

definition dict_items :: "json_opts \<Rightarrow> dict \<Rightarrow> dict" where
  "dict_items opts d = (if sort_keys opts then sort_key fst d else d)"

lemma set_dict_items [simp]: "set (dict_items opts d) = set d"
  by (simp add: dict_items_def)

lemma dict_items_size [termination_simp]: "(k, x) \<in> set d \<Longrightarrow> size x < size_list (size_prod (\<lambda>_. 0) size) d"
  by (induction d) auto

fun dumps :: "lib \<Rightarrow> json_opts \<Rightarrow> val \<Rightarrow> string res" where
  "dumps L opts VNone = Inr ''null''"
| "dumps L opts (VBool b) = Inr (if b then ''true'' else ''false'')"
| "dumps L opts (VInt i) = Inr (show_int i)"
| "dumps L opts (VFloat x) = json_float L opts x"
| "dumps L opts (VStr s) = Inr (json_string s)"
| "dumps L opts (VList xs) =
     rbind (rmap (dumps L opts) xs) (\<lambda>ts. Inr (''['' @ join (item_sep opts) ts @ '']''))"
| "dumps L opts (VTuple xs) =
     rbind (rmap (dumps L opts) xs) (\<lambda>ts. Inr (''['' @ join (item_sep opts) ts @ '']''))"
| "dumps L opts (VDict d) =
     rbind (rmap (\<lambda>p. rbind (dumps L opts (snd p)) (\<lambda>t. Inr (json_string (fst p) @ key_sep opts @ t)))
              (dict_items opts d))
       (\<lambda>ts. Inr (''{'' @ join (item_sep opts) ts @ ''}''))"
| "dumps L opts _ = Inl (TypeError ''Object is not JSON serializable'')"

definition canonical_opts :: json_opts where
  "canonical_opts = \<lparr>sort_keys = True, item_sep = '','', key_sep = '':'', allow_nan = False\<rparr>"

definition strict_opts :: json_opts where
  \<comment> \<open>default separators, \<open>allow_nan=False\<close>\<close>
  "strict_opts = \<lparr>sort_keys = False, item_sep = '', '', key_sep = '': '', allow_nan = False\<rparr>"

definition plain_opts :: json_opts where
  "plain_opts = \<lparr>sort_keys = False, item_sep = '', '', key_sep = '': '', allow_nan = True\<rparr>"

definition canonical_bytes :: "lib \<Rightarrow> val \<Rightarrow> nat list res" where
  "canonical_bytes L v = rbind (dumps L canonical_opts v) (\<lambda>t. Inr (utf8 t))"

definition sha256_ref :: "lib \<Rightarrow> nat list \<Rightarrow> string" where
  "sha256_ref L content = ''sha256:'' @ sha256_hex L content"

end
