(* ===== verification/Schema_Registry.thy ===== *)
theory Schema_Registry
  imports Py_Json
begin

text \<open>
  The schema registry (\<open>reference/sdk/src/uenv/sdk/schema_registry.py\<close>): the core contract and
  the extension schemas registered by identifier, the default filler and validation. The JSON
  Schema validator itself is a parameter (\<open>check_schema\<close>, \<open>conforms\<close>). An operation that raises
  leaves the registry as it was, so the operations return the new registry or the exception.
\<close>

section \<open>Registration\<close>

record registry =
  core :: val
  extensions :: "(string \<times> val) list"

definition core_id :: "registry \<Rightarrow> val res" where
  "core_id reg = item (core reg) ''$id''"

definition register :: "lib \<Rightarrow> registry \<Rightarrow> val \<Rightarrow> registry res" where
  "register L reg schema =
     rbind (guard (check_schema L schema) (ValidationError ''SchemaError'')) (\<lambda>_.
     rbind (get schema ''$id'' VNone) (\<lambda>identifier.
     case identifier of
       VStr s \<Rightarrow>
         if s = [] then Inl (ValueError ''Extension requires a unique explicit $id'')
         else rbind (core_id reg) (\<lambda>cid.
           if py_eq identifier cid then Inl (ValueError ''Extension requires a unique explicit $id'')
           else rbind (case map_of (extensions reg) s of
                  None \<Rightarrow> Inr ()
                | Some old \<Rightarrow>
                    rbind (canonical_bytes L old) (\<lambda>a. rbind (canonical_bytes L schema) (\<lambda>b.
                      guard (a = b) (ValueError ''Schema ID already registered with different content''))))
                (\<lambda>_. Inr (reg\<lparr>extensions := AList.update s schema (extensions reg)\<rparr>)))
     | _ \<Rightarrow> Inl (ValueError ''Extension requires a unique explicit $id'')))"

definition register_artifact :: "lib \<Rightarrow> registry \<Rightarrow> val \<Rightarrow> nat list \<Rightarrow> registry res" where
  "register_artifact L reg reference content =
     rbind (item reference ''size_bytes'') (\<lambda>size_bytes.
       if \<not> py_eq (VInt (int (length content))) size_bytes
       then Inl (ValueError ''Schema artifact integrity mismatch'')
       else rbind (item reference ''digest'') (\<lambda>digest.
         if \<not> py_eq (VStr (sha256_ref L content)) digest
         then Inl (ValueError ''Schema artifact integrity mismatch'')
         else rbind (json_loads L content) (register L reg)))"

definition new_registry :: "lib \<Rightarrow> nat list \<Rightarrow> registry res" where
  \<comment> \<open>\<open>SchemaRegistry(contract_path)\<close>: the content of the contract file is the argument\<close>
  "new_registry L contract = rbind (json_loads L contract) (\<lambda>c. Inr \<lparr>core = c, extensions = []\<rparr>)"

definition bundled :: "lib \<Rightarrow> nat list \<Rightarrow> nat list list \<Rightarrow> nat list list \<Rightarrow> registry res" where
  \<comment> \<open>the files under \<open>resources/extensions\<close>, then the sorted example package schemas\<close>
  "bundled L contract resources packages =
     rbind (new_registry L contract)
       (rfold (\<lambda>content reg. rbind (json_loads L content) (register L reg)) (resources @ packages))"

section \<open>The bound contract\<close>

definition set_item :: "val \<Rightarrow> string \<Rightarrow> val \<Rightarrow> val res" where
  \<comment> \<open>\<open>v[k] = x\<close>\<close>
  "set_item v k x = (case v of VDict d \<Rightarrow> Inr (VDict (AList.update k x d)) | _ \<Rightarrow> Inl (TypeError k))"

definition typed_config_case :: "string \<Rightarrow> val" where
  "typed_config_case identifier =
     VDict [(''type'', VStr ''object''),
            (''properties'', VDict [(''schema_ref'', VDict [(''const'', VStr identifier)]),
                                    (''data'', VDict [(''$ref'', VStr identifier)])]),
            (''required'', VList [VStr ''schema_ref'', VStr ''data'']),
            (''additionalProperties'', VBool False)]"

definition bound_schema :: "registry \<Rightarrow> val res" where
  "bound_schema reg =
     rbind (item (core reg) ''$defs'') (\<lambda>defs.
     rbind (set_item defs ''TypedConfig''
              (if extensions reg = [] then VBool False
               else VDict [(''oneOf'', VList (map typed_config_case (sort (map fst (extensions reg)))))]))
       (\<lambda>defs'. set_item (core reg) ''$defs'' defs'))"

section \<open>Defaults\<close>

fun replace_all :: "string \<Rightarrow> char \<Rightarrow> string \<Rightarrow> string" where
  \<comment> \<open>\<open>s.replace(p, c)\<close> for a two-character \<open>p\<close>\<close>
  "replace_all p c (x # y # s) = (if [x, y] = p then c # replace_all p c s else x # replace_all p c (y # s))"
| "replace_all p c s = s"

definition pointer_part :: "string \<Rightarrow> string" where
  "pointer_part part = replace_all ''~0'' (CHR ''~'') (replace_all ''~1'' (CHR ''/'') part)"

definition pointer_parts :: "string \<Rightarrow> string list" where
  "pointer_parts fragment =
     (if fragment = [] then []
      else map pointer_part (split_all (CHR ''/'') (dropWhile (\<lambda>c. c = CHR ''/'') fragment)))"

definition ref_target :: "registry \<Rightarrow> val \<Rightarrow> string \<Rightarrow> val res" where
  "ref_target reg document uri =
     (if uri = [] then Inr document
      else rbind (core_id reg) (\<lambda>cid.
        if py_eq (VStr uri) cid then Inr (core reg) else ditem (extensions reg) uri))"

definition resolve_ref :: "registry \<Rightarrow> val \<Rightarrow> string \<Rightarrow> (val \<times> val) res" where
  \<comment> \<open>the resolved schema and its document\<close>
  "resolve_ref reg document ref =
     rbind (ref_target reg document (takeWhile (\<lambda>c. c \<noteq> CHR ''#'') ref)) (\<lambda>target.
     rbind (rfold (\<lambda>part s. item s part) (pointer_parts (tl (dropWhile (\<lambda>c. c \<noteq> CHR ''#'') ref))) target)
       (\<lambda>resolved. Inr (resolved, target)))"

fun expand :: "nat \<Rightarrow> registry \<Rightarrow> val \<Rightarrow> val \<Rightarrow> val \<Rightarrow> val res"
and expand_property :: "nat \<Rightarrow> registry \<Rightarrow> val \<Rightarrow> string \<times> val \<Rightarrow> dict \<Rightarrow> dict res" where
  \<comment> \<open>the first argument is the number of Python frames left\<close>
  "expand 0 reg document schema v = Inl RecursionError"
| "expand (Suc n) reg document schema v =
     rbind (has schema ''$ref'') (\<lambda>is_ref.
     rbind (if is_ref
            then rbind (item schema ''$ref'') (\<lambda>r. rbind (as_str r) (\<lambda>ref.
                   rbind (resolve_ref reg document ref) (\<lambda>(resolved, target).
                     expand n reg target resolved v)))
            else Inr v) (\<lambda>v'.
     case v' of
       VDict d \<Rightarrow>
         rbind (get schema ''properties'' (VDict [])) (\<lambda>ps. rbind (as_dict ps) (\<lambda>properties.
         rbind (rfold (expand_property n reg document) properties d) (\<lambda>d'. Inr (VDict d'))))
     | VList xs \<Rightarrow>
         rbind (has schema ''items'') (\<lambda>b.
           if b then rbind (item schema ''items'') (\<lambda>items.
             rbind (rmap (expand n reg document items) xs) (\<lambda>ys. Inr (VList ys)))
           else Inr v')
     | _ \<Rightarrow> Inr v'))"
| "expand_property n reg document property d =
     rbind (if has_key d (fst property) then Inr d
            else rbind (has (snd property) ''default'') (\<lambda>b.
              if b then rbind (item (snd property) ''default'') (\<lambda>x. Inr (AList.update (fst property) x d))
              else Inr d)) (\<lambda>d'.
     case map_of d' (fst property) of
       None \<Rightarrow> Inr d'
     | Some x \<Rightarrow>
         rbind (expand n reg document (snd property) x) (\<lambda>y. Inr (AList.update (fst property) y d')))"

definition schema_document :: "registry \<Rightarrow> string \<Rightarrow> (val \<times> val) res" where
  \<comment> \<open>the schema of that name and the document that holds it\<close>
  "schema_document reg name =
     rbind (item (core reg) ''$defs'') (\<lambda>defs.
     rbind (has defs name) (\<lambda>b.
       if b then rbind (item defs name) (\<lambda>schema. Inr (schema, core reg))
       else rbind (ditem (extensions reg) name) (\<lambda>document. Inr (document, document))))"

definition apply_defaults :: "nat \<Rightarrow> registry \<Rightarrow> string \<Rightarrow> val \<Rightarrow> val res" where
  "apply_defaults n reg name v =
     rbind (schema_document reg name) (\<lambda>(schema, document). expand n reg document schema v)"

section \<open>Validation\<close>

fun hashable :: "val \<Rightarrow> bool" where
  "hashable (VList _) = False"
| "hashable (VDict _) = False"
| "hashable (VTuple xs) = (\<forall>x \<in> set xs. hashable x)"
| "hashable _ = True"

fun no_duplicates :: "val list \<Rightarrow> bool" where
  \<comment> \<open>\<open>len(xs) == len(set(xs))\<close>\<close>
  "no_duplicates [] = True"
| "no_duplicates (x # xs) = (\<not> py_in x xs \<and> no_duplicates xs)"

definition unique_metrics :: "val \<Rightarrow> unit res" where
  "unique_metrics v =
     rbind (item v ''metrics'') (\<lambda>m. rbind (as_list m) (\<lambda>metrics.
     rbind (rmap (\<lambda>x. item x ''name'') metrics) (\<lambda>names.
     rbind (guard (\<forall>x \<in> set names. hashable x) (TypeError ''unhashable type'')) (\<lambda>_.
       guard (no_duplicates names) (ValidationError ''Duplicate metric names'')))))"

definition validation_target :: "registry \<Rightarrow> val \<Rightarrow> string \<Rightarrow> val res" where
  "validation_target reg bound name =
     rbind (item bound ''$defs'') (\<lambda>defs.
     rbind (has defs name) (\<lambda>b.
       if b then rbind (item bound ''$id'') (\<lambda>i. rbind (as_str i) (\<lambda>cid.
              Inr (VDict [(''$ref'', VStr (cid @ ''#/$defs/'' @ name))])))
       else if has_key (extensions reg) name then Inr (VDict [(''$ref'', VStr name)])
       else Inl (ValidationError (''Unknown schema: '' @ name))))"

definition validate :: "lib \<Rightarrow> registry \<Rightarrow> string \<Rightarrow> val \<Rightarrow> unit res" where
  "validate L reg name v =
     rbind (canonical_bytes L v) (\<lambda>_.
     rbind (bound_schema reg) (\<lambda>bound.
     rbind (item bound ''$id'') (\<lambda>i. rbind (as_str i) (\<lambda>cid.
     rbind (validation_target reg bound name) (\<lambda>target.
     rbind (guard (conforms L ((cid, bound) # extensions reg) target v) (ValidationError name)) (\<lambda>_.
       if name = ''ScoreResult'' then unique_metrics v else Inr ()))))))"

end
