(* ===== verification/Canonical_Json.thy ===== *)
theory Canonical_Json
  imports Py_Json
begin

text \<open>
  The canonical JSON bytes that stand for a document in every digest: two JSON values have the
  same bytes exactly when they agree up to the order of keys. The proof reads the text back: no
  text of a value is confused with a text of another value, whatever character that may follow a
  value follows it.
\<close>

section \<open>Bytes determine the text\<close>

lemma code_less [simp]: "code c < 256"
  by (cases c) simp

lemma code_inject: "code c = code d \<longleftrightarrow> c = d"
  by simp

lemma utf8_char_append:
  assumes "utf8_char c @ x = utf8_char d @ y"
  shows "c = d \<and> x = y"
proof -
  have "code c = 64 * (code c div 64) + code c mod 64" "code d = 64 * (code d div 64) + code d mod 64"
    by simp_all
  then have "code c div 64 = code d div 64 \<Longrightarrow> code c mod 64 = code d mod 64 \<Longrightarrow> code c = code d" by presburger
  then show ?thesis
    using assms by (auto simp: utf8_char_def code_inject split: if_splits)
qed

lemma utf8_inject [simp]: "utf8 s = utf8 t \<longleftrightarrow> s = t"
proof
  assume "utf8 s = utf8 t"
  then show "s = t"
  proof (induction s arbitrary: t)
    case Nil
    then show ?case by (cases t) (auto simp: utf8_def utf8_char_def split: if_splits)
  next
    case (Cons c s)
    then obtain d u where t: "t = d # u"
      by (cases t) (auto simp: utf8_def utf8_char_def split: if_splits)
    with Cons.prems have "utf8_char c @ utf8 s = utf8_char d @ utf8 u" by (simp add: utf8_def)
    with Cons.IH [of u] t show ?case using utf8_char_append by blast
  qed
qed simp

section \<open>Strings\<close>

definition hex_val :: "char \<Rightarrow> nat" where
  "hex_val c = (if code c < 58 then code c - 48 else code c - 87)"

lemma hex_val_digit: "n < 16 \<Longrightarrow> hex_val (hex_digit n) = n"
  by (simp add: hex_val_def hex_digit_def code_char_of)

definition unesc :: "string \<Rightarrow> char \<times> string" where
  "unesc s = (case s of
      c # d # r \<Rightarrow>
        if c \<noteq> CHR 0x5C then (c, d # r)
        else if d = CHR ''b'' then (CHR 0x08, r) else if d = CHR ''f'' then (CHR 0x0C, r)
        else if d = CHR ''n'' then (CHR 0x0A, r) else if d = CHR ''r'' then (CHR 0x0D, r)
        else if d = CHR ''t'' then (CHR 0x09, r)
        else if d = CHR ''u'' then (char_of (16 * hex_val (r ! 2) + hex_val (r ! 3)), drop 4 r)
        else (d, r)
    | c # r \<Rightarrow> (c, r)
    | [] \<Rightarrow> (CHR 0x00, []))"

lemma unesc_esc: "x \<noteq> [] \<Longrightarrow> unesc (esc_char c @ x) = (c, x)"
proof -
  assume "x \<noteq> []"
  then obtain d r where x: "x = d # r" by (cases x) auto
  consider "code c = 34" | "code c = 92" | "code c = 8" | "code c = 12" | "code c = 10" | "code c = 13" | "code c = 9"
    | (u) "code c \<notin> {34, 92, 8, 12, 10, 13, 9}" "code c < 32" | (p) "code c \<notin> {34, 92, 8, 12, 10, 13, 9}" "\<not> code c < 32"
    by auto
  then show ?thesis
  proof cases
    case u
    then have "esc_char c = [CHR 0x5C, CHR ''u'', CHR ''0'', CHR ''0'', hex_digit (code c div 16), hex_digit (code c mod 16)]"
      by (simp add: esc_char_def)
    moreover have "16 * (code c div 16) + code c mod 16 = code c" by simp
    ultimately show ?thesis using u(2)
      by (simp add: unesc_def hex_val_digit del: of_char_eq_iff)
  next
    case p
    then have "c \<noteq> CHR 0x5C" by auto
    with p x show ?thesis by (simp add: esc_char_def unesc_def)
  qed (simp add: esc_char_def unesc_def x, rule of_char_eqI [where 'a = nat], simp)+
qed

lemma esc_char_append:
  "esc_char c @ x = esc_char d @ y \<Longrightarrow> x \<noteq> [] \<Longrightarrow> y \<noteq> [] \<Longrightarrow> c = d \<and> x = y"
  by (metis unesc_esc prod.inject)

lemma esc_char_hd: "\<exists>d t. esc_char c = d # t \<and> d \<noteq> CHR 0x22"
  by (auto simp: esc_char_def)

lemma json_string_append:
  "json_string s @ x = json_string t @ y \<Longrightarrow> s = t \<and> x = y"
proof -
  have "concat (map esc_char s) @ CHR 0x22 # x = concat (map esc_char t) @ CHR 0x22 # y \<Longrightarrow> s = t \<and> x = y"
  proof (induction s arbitrary: t)
    case Nil
    then show ?case
    proof (cases t)
      case (Cons d u)
      with Nil show ?thesis using esc_char_hd [of d] by auto
    qed simp
  next
    case (Cons c s)
    then obtain d u where t: "t = d # u" using esc_char_hd [of c] by (cases t) auto
    with Cons.prems have "esc_char c @ (concat (map esc_char s) @ CHR 0x22 # x) = esc_char d @ (concat (map esc_char u) @ CHR 0x22 # y)"
      by simp
    from esc_char_append [OF this] Cons.IH [of u] t show ?case by simp
  qed
  then show "json_string s @ x = json_string t @ y \<Longrightarrow> s = t \<and> x = y" by (simp add: json_string_def)
qed

section \<open>Sequences\<close>

fun join_tail :: "string list \<Rightarrow> string" where
  "join_tail [] = []"
| "join_tail (t # ts) = CHR '','' # t @ join_tail ts"

lemma join_Cons: "join '','' (t # ts) = t @ join_tail ts"
  by (induction ts arbitrary: t) auto

definition stop_chars :: "char set" where
  "stop_chars = {CHR '','', CHR '']'', CHR ''}''}"

definition stop :: "string \<Rightarrow> bool" where
  \<comment> \<open>what may follow a value: nothing, or a character that no value starts or continues with\<close>
  "stop r = (r = [] \<or> hd r \<in> stop_chars)"

definition starts_value :: "string \<Rightarrow> bool" where
  "starts_value t = (t \<noteq> [] \<and> hd t \<notin> stop_chars)"

lemma stop_Cons [simp]: "stop (c # r) \<longleftrightarrow> c \<in> stop_chars"
  by (simp add: stop_def)

lemma stop_join_tail: "c \<in> {CHR '']'', CHR ''}''} \<Longrightarrow> stop (join_tail ts @ c # r)"
  by (cases ts) (auto simp: stop_chars_def)

definition decodes :: "('a \<Rightarrow> string \<Rightarrow> bool) \<Rightarrow> ('a \<Rightarrow> 'a \<Rightarrow> bool) \<Rightarrow> 'a \<Rightarrow> bool" where
  \<comment> \<open>a text of \<open>x\<close> is not confused with a text of another element, whatever follows\<close>
  "decodes E R x \<longleftrightarrow> (\<forall>t y u r r'. E x t \<longrightarrow> E y u \<longrightarrow> t @ r = u @ r' \<longrightarrow> stop r \<longrightarrow> stop r' \<longrightarrow> R x y \<and> r = r')"

lemma join_tail_decodes:
  assumes "\<forall>x \<in> set xs. decodes E R x" "list_all2 E xs ts" "list_all2 E ys us"
    and c: "c \<in> {CHR '']'', CHR ''}''}"
    and "join_tail ts @ c # r = join_tail us @ c # r'"
  shows "list_all2 R xs ys \<and> r = r'"
  using assms
proof (induction xs arbitrary: ys ts us)
  case Nil
  then show ?case by (cases us) auto
next
  case (Cons x xs)
  from Cons.prems(2) obtain t ts' where ts: "ts = t # ts'" "E x t" "list_all2 E xs ts'"
    by (auto simp: list_all2_Cons1)
  with Cons.prems(4,5) obtain u us' where us: "us = u # us'" by (cases us) auto
  with Cons.prems(3) obtain y ys' where ys: "ys = y # ys'" "E y u" "list_all2 E ys' us'"
    by (auto simp: list_all2_Cons2)
  have "t @ (join_tail ts' @ c # r) = u @ (join_tail us' @ c # r')" using Cons.prems(5) ts us by simp
  with Cons.prems(1) ts ys stop_join_tail [OF c] have "R x y" "join_tail ts' @ c # r = join_tail us' @ c # r'"
    unfolding decodes_def by (metis list.set_intros(1))+
  with Cons.IH [OF _ ts(3) ys(3) c] Cons.prems(1) ys show ?case by simp
qed

lemma join_decodes:
  assumes "\<forall>x \<in> set xs. decodes E R x" "list_all2 E xs ts" "list_all2 E ys us"
    and "\<And>x t. E x t \<Longrightarrow> starts_value t"
    and "c \<in> {CHR '']'', CHR ''}''}"
    and "join '','' ts @ c # r = join '','' us @ c # r'"
  shows "list_all2 R xs ys \<and> r = r'"
proof -
  have head: "\<exists>d s. join '','' (t # ts) @ q = d # s \<and> d \<notin> stop_chars" if "E x t" for x t ts q
    using assms(4) [OF that] by (cases t) (auto simp: join_Cons starts_value_def)
  have c: "c \<in> stop_chars" using assms(5) by (auto simp: stop_chars_def)
  show ?thesis
  proof (cases xs)
    case Nil
    show ?thesis
    proof (cases ys)
      case (Cons y ys')
      with assms(3) obtain u us' where us: "us = u # us'" "E y u" by (auto simp: list_all2_Cons1)
      with head [OF us(2), of us' "c # r'"] Nil assms(2,6) c show ?thesis by auto
    qed (use Nil assms in auto)
  next
    case (Cons x xs')
    with assms obtain t ts' where ts: "ts = t # ts'" "E x t" by (auto simp: list_all2_Cons1)
    show ?thesis
    proof (cases us)
      case Nil
      with assms(6) c head [OF ts(2), of ts' "c # r"] ts show ?thesis by auto
    next
      case (Cons u us')
      with assms(6) ts have "join_tail ts @ c # r = join_tail us @ c # r'" by (simp add: join_Cons)
      then show ?thesis by (rule join_tail_decodes [OF assms(1,2,3,5)])
    qed
  qed
qed

section \<open>Values\<close>

text \<open>Values up to the order of keys.\<close>

function sorted_val :: "val \<Rightarrow> val" where
  "sorted_val (VList xs) = VList (map sorted_val xs)"
| "sorted_val (VDict d) = VDict (map (\<lambda>p. (fst p, sorted_val (snd p))) (sort_key fst d))"
| "\<not> is_list v \<Longrightarrow> \<not> is_dict v \<Longrightarrow> sorted_val v = v"
  apply (metis is_dict.elims(2) is_list.elims(2))
  by auto
termination
  by (relation "measure size") (auto simp: dict_items_size less_SucI size_list_estimation' termination_simp)

definition number_chars :: "char set" where
  "number_chars = {c. is_digit c} \<union> {CHR ''.'', CHR ''e'', CHR ''+'', CHR ''-''}"

definition float_repr_ok :: "lib \<Rightarrow> bool" where
  \<comment> \<open>\<open>repr\<close> of a double: different doubles differ, and a point or an exponent tells it from an integer\<close>
  "float_repr_ok L \<longleftrightarrow> inj (float_repr L) \<and>
     (\<forall>x. set (float_repr L x) \<subseteq> number_chars \<and> set (float_repr L x) \<inter> {CHR ''.'', CHR ''e''} \<noteq> {})"

abbreviation cdumps :: "lib \<Rightarrow> val \<Rightarrow> string res" where
  "cdumps L \<equiv> dumps L canonical_opts"

lemma number_append:
  assumes "set t \<subseteq> number_chars" "set u \<subseteq> number_chars" "stop r" "stop r'" "t @ r = u @ r'"
  shows "t = u \<and> r = r'"
proof -
  have tw: "takeWhile (\<lambda>c. c \<in> number_chars) (t @ r) = t" if "set t \<subseteq> number_chars" "stop r" for t r
  proof -
    have "takeWhile (\<lambda>c. c \<in> number_chars) r = []"
      using that(2) by (cases r) (auto simp: stop_chars_def number_chars_def is_digit_def)
    then show ?thesis using that(1) by (simp add: takeWhile_append2 subset_iff)
  qed
  from tw [OF assms(1,3)] tw [OF assms(2,4)] assms(5) show ?thesis by simp
qed

lemma show_int_chars: "\<forall>c \<in> set (show_int i). is_digit c \<or> c = CHR ''-''"
  using show_nat_digits by (simp add: show_int_def)

lemma show_int_inject [simp]: "show_int i = show_int j \<longleftrightarrow> i = j"
proof -
  have "show_nat n \<noteq> CHR ''-'' # t" for n t
  proof
    assume "show_nat n = CHR ''-'' # t"
    with show_nat_digits [of n] have "is_digit (CHR ''-'')" by simp
    then show False by (simp add: is_digit_def)
  qed
  note ne = this this [symmetric]
  show ?thesis by (auto simp: show_int_def ne)
qed


definition value_text :: "lib \<Rightarrow> val \<Rightarrow> string \<Rightarrow> bool" where
  "value_text L v t \<longleftrightarrow> json_val v \<and> cdumps L v = Inr t"

definition item_text :: "lib \<Rightarrow> string \<times> val \<Rightarrow> string \<Rightarrow> bool" where
  "item_text L p t \<longleftrightarrow> (\<exists>u. value_text L (snd p) u \<and> t = json_string (fst p) @ CHR '':'' # u)"

abbreviation same_val :: "val \<Rightarrow> val \<Rightarrow> bool" where
  "same_val v w \<equiv> sorted_val v = sorted_val w"

fun lead :: "val \<Rightarrow> nat" where
  "lead VNone = 0"
| "lead (VBool b) = (if b then 1 else 2)"
| "lead (VInt _) = 3"
| "lead (VFloat _) = 3"
| "lead (VStr _) = 4"
| "lead (VList _) = 5"
| "lead _ = 6"

definition lead_char :: "char \<Rightarrow> nat" where
  "lead_char c = (if c = CHR ''n'' then 0 else if c = CHR ''t'' then 1 else if c = CHR ''f'' then 2
     else if c \<in> number_chars then 3 else if c = CHR 0x22 then 4 else if c = CHR ''['' then 5
     else if c \<in> stop_chars then 7 else 6)"

lemma number_cases:
  assumes "value_text L v t" "lead v = 3"
  obtains i where "v = VInt i" "t = show_int i" | y where "v = VFloat (Fin y)" "t = float_repr L y"
proof (cases v)
  case (VFloat x)
  with assms that show thesis by (cases x) (auto simp: value_text_def canonical_opts_def)
qed (use assms that in \<open>auto simp: value_text_def split: if_splits\<close>)

lemma number_text:
  assumes "float_repr_ok L" "value_text L v t" "lead v = 3"
  shows "set t \<subseteq> number_chars \<and> t \<noteq> []"
  using assms(2,3)
proof (cases rule: number_cases)
  case (1 i)
  then show ?thesis using show_int_chars [of i]
    by (auto simp: number_chars_def show_int_def split: if_splits)
next
  case (2 y)
  from assms(1) have "set (float_repr L y) \<subseteq> number_chars" "float_repr L y \<noteq> []"
    unfolding float_repr_ok_def by (blast, metis empty_set inf_bot_left)
  with 2 show ?thesis by simp
qed

lemma number_inject:
  assumes "float_repr_ok L" "value_text L v t" "lead v = 3" "value_text L w t" "lead w = 3"
  shows "v = w"
proof -
  have f: "float_repr L x \<noteq> show_int i" for x i
  proof
    assume e: "float_repr L x = show_int i"
    from assms(1) obtain c where c: "c \<in> set (float_repr L x)" "c = CHR ''.'' \<or> c = CHR ''e''"
      unfolding float_repr_ok_def by blast
    from c(1) show_int_chars [of i] have "is_digit c \<or> c = CHR ''-''" unfolding e by blast
    with c(2) show False by (auto simp: is_digit_def)
  qed
  have inj: "inj (float_repr L)" using assms(1) by (simp add: float_repr_ok_def)
  show ?thesis using assms(2,3)
  proof (cases rule: number_cases)
    case (1 i)
    from assms(4,5) show ?thesis by (cases rule: number_cases) (use 1 f in \<open>auto simp: eq_commute\<close>)
  next
    case (2 y)
    from assms(4,5) show ?thesis by (cases rule: number_cases) (use 2 f inj in \<open>auto simp: inj_eq\<close>)
  qed
qed

lemma lead_text:
  assumes "float_repr_ok L" "value_text L v t"
  shows "t \<noteq> [] \<and> lead_char (hd t) = lead v"
proof (cases "lead v = 3")
  case True
  from number_text [OF assms this] have "t \<noteq> []" "hd t \<in> number_chars" by auto
  moreover have "CHR ''n'' \<notin> number_chars" "CHR ''t'' \<notin> number_chars" "CHR ''f'' \<notin> number_chars"
    by (simp_all add: number_chars_def is_digit_def)
  ultimately show ?thesis using True by (auto simp: lead_char_def)
next
  case False
  have n: "CHR 0x22 \<notin> number_chars" "CHR ''['' \<notin> number_chars" "CHR ''{'' \<notin> number_chars" "CHR ''{'' \<notin> stop_chars"
    by (simp_all add: number_chars_def stop_chars_def is_digit_def)
  show ?thesis using assms(2) False
    by (cases v) (auto simp: value_text_def lead_char_def json_string_def rbind_Inr_iff n split: if_splits)
qed

lemma value_text_starts: "float_repr_ok L \<Longrightarrow> value_text L v t \<Longrightarrow> starts_value t"
proof -
  assume "float_repr_ok L" "value_text L v t"
  from lead_text [OF this] have "t \<noteq> []" "lead_char (hd t) = lead v" by auto
  moreover have "lead v \<noteq> 7" by (cases v) auto
  moreover have "c \<in> stop_chars \<Longrightarrow> lead_char c = 7" for c
    by (auto simp: stop_chars_def lead_char_def number_chars_def is_digit_def)
  ultimately show ?thesis by (auto simp: starts_value_def)
qed

lemma item_decodes:
  assumes "decodes (value_text L) same_val (snd p)"
  shows "decodes (item_text L) (\<lambda>p q. fst p = fst q \<and> same_val (snd p) (snd q)) p"
  unfolding decodes_def
proof (intro allI impI)
  fix t q u r r'
  assume a: "item_text L p t" "item_text L q u" "t @ r = u @ r'" "stop r" "stop r'"
  then obtain x y where x: "value_text L (snd p) x" "t = json_string (fst p) @ CHR '':'' # x"
    and y: "value_text L (snd q) y" "u = json_string (fst q) @ CHR '':'' # y"
    by (auto simp: item_text_def)
  with a(3) have "json_string (fst p) @ (CHR '':'' # x @ r) = json_string (fst q) @ (CHR '':'' # y @ r')" by simp
  then have "fst p = fst q" "x @ r = y @ r'" by (auto dest: json_string_append)
  with assms x(1) y(1) a(4,5) show "(fst p = fst q \<and> same_val (snd p) (snd q)) \<and> r = r'"
    unfolding decodes_def by blast
qed

lemma list_text:
  "value_text L (VList xs) t \<longleftrightarrow> (\<exists>ts. list_all2 (value_text L) xs ts \<and> t = ''['' @ join '','' ts @ '']'')"
proof -
  have "list_all2 (value_text L) xs ts \<longleftrightarrow> (\<forall>x \<in> set xs. json_val x) \<and> list_all2 (\<lambda>x t. cdumps L x = Inr t) xs ts"
    for ts by (induction xs arbitrary: ts) (auto simp: value_text_def list_all2_Cons1)
  then show ?thesis by (auto simp: value_text_def rbind_Inr_iff rmap_Inr_iff canonical_opts_def)
qed

lemma dict_text:
  "value_text L (VDict d) t \<longleftrightarrow>
     (\<exists>ts. list_all2 (item_text L) (sort_key fst d) ts \<and> t = ''{'' @ join '','' ts @ ''}'')"
proof -
  have "list_all2 (item_text L) e ts \<longleftrightarrow> (\<forall>p \<in> set e. json_val (snd p)) \<and>
      list_all2 (\<lambda>p t. \<exists>u. cdumps L (snd p) = Inr u \<and> json_string (fst p) @ CHR '':'' # u = t) e ts" for e ts
    by (induction e arbitrary: ts) (auto simp: value_text_def item_text_def list_all2_Cons1)
  from this [of "sort_key fst d"] show ?thesis
    by (simp add: value_text_def rbind_Inr_iff rmap_Inr_iff dict_items_def, simp add: canonical_opts_def) blast
qed

lemma same_lead:
  assumes "float_repr_ok L" "value_text L v t" "value_text L w u" "t @ r = u @ r'"
  shows "lead v = lead w"
  using lead_text [OF assms(1,2)] lead_text [OF assms(1,3)] assms(4) by (metis hd_append2)

lemma scalar_decodes:
  assumes ok: "float_repr_ok L" and "\<not> is_list v" "\<not> is_dict v"
  shows "decodes (value_text L) same_val v"
  unfolding decodes_def
proof (intro allI impI)
  fix t w u r r'
  assume a: "value_text L v t" "value_text L w u" "t @ r = u @ r'" "stop r" "stop r'"
  from same_lead [OF ok a(1,2,3)] have l: "lead v = lead w" .
  show "same_val v w \<and> r = r'"
  proof (cases "lead v = 3")
    case True
    from number_text [OF ok a(1) True] number_text [OF ok a(2)] True l number_append [OF _ _ a(4,5,3)]
    have tu: "t = u" "r = r'" by auto
    with number_inject [OF ok a(1) True, of w] a(2) l True show ?thesis by simp
  next
    case False
    show ?thesis using False l a(1,2,3) assms(2,3)
      by (cases v; cases w) (auto simp: value_text_def split: if_splits dest: json_string_append)
  qed
qed

lemma value_decodes:
  assumes ok: "float_repr_ok L"
  shows "decodes (value_text L) same_val v"
proof (induction v rule: sorted_val.induct)
  case (1 xs)
  show ?case unfolding decodes_def
  proof (intro allI impI)
    fix t w u r r'
    assume a: "value_text L (VList xs) t" "value_text L w u" "t @ r = u @ r'" "stop r" "stop r'"
    from same_lead [OF ok a(1,2,3)] obtain ys where w: "w = VList ys" using a(2)
      by (cases w) (auto simp: value_text_def split: if_splits)
    from a(1,2,3) w obtain ts us where "list_all2 (value_text L) xs ts" "list_all2 (value_text L) ys us"
      "join '','' ts @ CHR '']'' # r = join '','' us @ CHR '']'' # r'" by (auto simp: list_text)
    note ts = this
    from 1 have "\<forall>x \<in> set xs. decodes (value_text L) same_val x" by blast
    from join_decodes [OF this ts(1,2) _ _ ts(3)] value_text_starts [OF ok] w
    show "same_val (VList xs) w \<and> r = r'" by (auto simp: list_all2_conv_all_nth intro!: nth_equalityI)
  qed
next
  case (2 d)
  show ?case unfolding decodes_def
  proof (intro allI impI)
    fix t w u r r'
    assume a: "value_text L (VDict d) t" "value_text L w u" "t @ r = u @ r'" "stop r" "stop r'"
    from same_lead [OF ok a(1,2,3)] obtain e where w: "w = VDict e" using a(2)
      by (cases w) (auto simp: value_text_def split: if_splits)
    from a(1,2,3) w obtain ts us where ts: "list_all2 (item_text L) (sort_key fst d) ts"
        "list_all2 (item_text L) (sort_key fst e) us"
      "join '','' ts @ CHR ''}'' # r = join '','' us @ CHR ''}'' # r'" by (auto simp: dict_text)
    have st: "item_text L p t \<Longrightarrow> starts_value t" for p t
      by (auto simp: item_text_def starts_value_def json_string_def stop_chars_def)
    have "\<forall>p \<in> set (sort_key fst d). decodes (item_text L) (\<lambda>p q. fst p = fst q \<and> same_val (snd p) (snd q)) p"
      using 2 item_decodes by blast
    from join_decodes [OF this ts(1,2) st _ ts(3)] w
    show "same_val (VDict d) w \<and> r = r'" by (auto simp: list_all2_conv_all_nth intro!: nth_equalityI)
  qed
next
  case (3 v)
  with ok show ?case by (intro scalar_decodes)
qed

lemma sorted_val_dumps:
  "json_val v \<Longrightarrow> cdumps L (sorted_val v) = cdumps L v"
proof (induction v rule: sorted_val.induct)
  case (1 xs)
  then have "rmap (cdumps L) (map sorted_val xs) = rmap (cdumps L) xs"
    by (auto simp: rmap_map intro: rmap_cong)
  then show ?case by simp
next
  case (2 d)
  have srt: "sort_key fst (map (\<lambda>p. (fst p, sorted_val (snd p))) (sort_key fst d)) =
      map (\<lambda>p. (fst p, sorted_val (snd p))) (sort_key fst d)"
    by (rule sort_key_id_if_sorted) (simp add: comp_def)
  have "rmap (\<lambda>p. rbind (cdumps L (snd p)) (\<lambda>t. Inr (json_string (fst p) @ k @ t)))
          (map (\<lambda>p. (fst p, sorted_val (snd p))) (sort_key fst d)) =
        rmap (\<lambda>p. rbind (cdumps L (snd p)) (\<lambda>t. Inr (json_string (fst p) @ k @ t))) (sort_key fst d)" for k
    using 2 by (auto simp: rmap_map intro!: rmap_cong)
  then show ?case by (simp add: dict_items_def srt canonical_opts_def [THEN arg_cong, of sort_keys])
qed simp

section \<open>The bytes identify the document\<close>

lemma cdumps_inject:
  assumes "float_repr_ok L" "json_val v" "json_val w" "cdumps L v = Inr t" "cdumps L w = Inr t"
  shows "same_val v w"
  using value_decodes [OF assms(1), of v] assms
  unfolding decodes_def value_text_def stop_def by blast

text \<open>C4: The canonical bytes of two JSON documents are equal exactly when the documents agree up to the
  order of keys, for any text of doubles that tells doubles apart and from integers: equal digests
  of canonical bytes stand for the same document.\<close>
theorem canonical_bytes_identifies:
  assumes "float_repr_ok L" "json_val v" "json_val w"
    and "canonical_bytes L v = Inr a" "canonical_bytes L w = Inr b"
  shows "a = b \<longleftrightarrow> sorted_val v = sorted_val w"
proof -
  from assms(4,5) obtain t u where t: "cdumps L v = Inr t" "a = utf8 t" and u: "cdumps L w = Inr u" "b = utf8 u"
    by (auto simp: canonical_bytes_def rbind_Inr_iff)
  have "sorted_val v = sorted_val w \<Longrightarrow> t = u"
    using t(1) u(1) sorted_val_dumps [OF assms(2)] sorted_val_dumps [OF assms(3)] by (metis sum.inject(2))
  with cdumps_inject [OF assms(1,2,3)] t u show ?thesis by auto
qed

definition rational_lib :: lib where
  \<comment> \<open>a library whose number text is numerator, point, denominator\<close>
  "rational_lib = \<lparr>float_repr = (\<lambda>x. case quotient_of x of (n, d) \<Rightarrow> show_int n @ ''.'' @ show_int d),
     sha256_hex = (\<lambda>b. concat (map show_nat b)), json_loads = (\<lambda>b. Inl (ValueError ''json'')),
     check_schema = (\<lambda>v. True), conforms = (\<lambda>r t v. True)\<rparr>"

lemma rational_lib_ok: "float_repr_ok rational_lib"
proof -
  have rest: "(\<forall>c \<in> set (show_int i). c \<noteq> CHR ''.'') \<and> set (show_int i) \<subseteq> number_chars" for i
    using show_int_chars [of i] by (auto simp: number_chars_def is_digit_def)
  then have tw: "takeWhile (\<lambda>c. c \<noteq> CHR ''.'') (show_int n @ ''.'' @ show_int d) = show_int n" for n d
    by (simp add: takeWhile_append2)
  have "x = y" if e: "float_repr rational_lib x = float_repr rational_lib y" for x y
  proof -
    obtain n d where x: "quotient_of x = (n, d)" by (cases "quotient_of x")
    obtain m e where y: "quotient_of y = (m, e)" by (cases "quotient_of y")
    with e x tw [of n d] tw [of m e] have "n = m" "d = e" by (auto simp: rational_lib_def)
    with x y show ?thesis by (metis quotient_of_inject)
  qed
  then have "inj (float_repr rational_lib)" by (rule injI)
  moreover have "set (float_repr rational_lib x) \<subseteq> number_chars \<and>
      set (float_repr rational_lib x) \<inter> {CHR ''.'', CHR ''e''} \<noteq> {}" for x
    using rest by (cases "quotient_of x") (auto simp: rational_lib_def number_chars_def)
  ultimately show ?thesis by (auto simp: float_repr_ok_def)
qed

theorem canonical_bytes_identifies_witness:
  "canonical_bytes rational_lib (VDict [(''b'', VFloat (Fin (1/2))), (''a'', VNone)]) =
   canonical_bytes rational_lib (VDict [(''a'', VNone), (''b'', VFloat (Fin (1/2)))])"
proof -
  let ?v = "VDict [(''b'', VFloat (Fin (1/2))), (''a'', VNone)]" and ?w = "VDict [(''a'', VNone), (''b'', VFloat (Fin (1/2)))]"
  have "ok (canonical_bytes rational_lib ?v)" "ok (canonical_bytes rational_lib ?w)" by code_simp+
  then obtain a b where "canonical_bytes rational_lib ?v = Inr a" "canonical_bytes rational_lib ?w = Inr b"
    unfolding ok_iff by blast
  moreover have "sorted_val ?v = sorted_val ?w" by code_simp
  ultimately show ?thesis using canonical_bytes_identifies [OF rational_lib_ok, of ?v ?w a b] by simp
qed

end
