(* ===== verification/Registry_Correct.thy ===== *)
theory Registry_Correct
  imports Schema_Registry Canonical_Json
begin

text \<open>
  What the other components rely on in the schema registry: a registered identifier keeps its
  content through every later registration; defaults are only added; what passes validation is a
  finite JSON document.
\<close>

section \<open>The content of an identifier never changes\<close>

locale content_store =
  fixes put :: "'v \<Rightarrow> 's \<Rightarrow> 's res"
    and find :: "'s \<Rightarrow> 'k \<Rightarrow> 'v option"
    and same :: "'v \<Rightarrow> 'v \<Rightarrow> bool"
  assumes put_find: "put v s = Inr s' \<Longrightarrow>
      \<exists>k. find s' k = Some v \<and> (\<forall>old. find s k = Some old \<longrightarrow> same old v) \<and> (\<forall>j. j \<noteq> k \<longrightarrow> find s' j = find s j)"
    and same_refl: "same v v"
    and same_trans: "same u v \<Longrightarrow> same v w \<Longrightarrow> same u w"
begin

lemma put_keeps: "put v s = Inr s' \<Longrightarrow> find s k = Some u \<Longrightarrow> \<exists>w. find s' k = Some w \<and> same u w"
  using put_find [of v s s'] same_refl by metis

lemma puts_keep:
  "rfold put vs s = Inr s' \<Longrightarrow> find s k = Some u \<Longrightarrow> \<exists>w. find s' k = Some w \<and> same u w"
proof (induction vs arbitrary: s u)
  case Nil
  then show ?case using same_refl by simp
next
  case (Cons v vs)
  then obtain s1 where "put v s = Inr s1" "rfold put vs s1 = Inr s'" by (auto simp: rbind_Inr_iff)
  with Cons.IH [of s1] put_keeps [of v s s1] Cons.prems(2) show ?case using same_trans by metis
qed

end

definition find_schema :: "registry \<Rightarrow> string \<Rightarrow> val option" where
  "find_schema reg = map_of (extensions reg)"

lemma register_Inr:
  assumes "register L reg schema = Inr reg'"
  obtains d s where "schema = VDict d" "map_of d ''$id'' = Some (VStr s)" "s \<noteq> []"
    "\<exists>cid. core_id reg = Inr cid \<and> cid \<noteq> VStr s" "check_schema L schema"
    "reg' = reg\<lparr>extensions := AList.update s schema (extensions reg)\<rparr>"
    "\<forall>old. map_of (extensions reg) s = Some old \<longrightarrow> canonical_bytes L old = canonical_bytes L schema"
proof -
  from assms obtain i where i: "check_schema L schema" "get schema ''$id'' VNone = Inr i"
    by (auto simp: register_def res_simps)
  then obtain d where d: "schema = VDict d" "i = get_or d ''$id'' VNone" by (cases schema) auto
  show thesis
  proof (cases i)
    case (VStr s)
    with d have m: "map_of d ''$id'' = Some (VStr s)" by (auto simp: get_or_def split: option.splits)
    from assms i VStr show thesis
      by (intro that [OF d(1) m])
         (auto simp: register_def res_simps split: if_splits option.splits)
  qed (use assms i in \<open>auto simp: register_def\<close>)
qed

interpretation extension_store: content_store
  "\<lambda>schema reg. register L reg schema" find_schema
  "\<lambda>v w. canonical_bytes L v = canonical_bytes L w" for L
proof
  fix v s s'
  assume "register L s v = Inr s'"
  then show "\<exists>k. find_schema s' k = Some v \<and>
      (\<forall>old. find_schema s k = Some old \<longrightarrow> canonical_bytes L old = canonical_bytes L v) \<and>
      (\<forall>j. j \<noteq> k \<longrightarrow> find_schema s' j = find_schema s j)"
    by (rule register_Inr) (auto simp: find_schema_def)
qed auto

definition registry_ok :: "registry \<Rightarrow> bool" where
  \<comment> \<open>every extension stands under its own identifier, none under the identifier of the contract\<close>
  "registry_ok reg \<longleftrightarrow> (\<forall>(k, v) \<in> set (extensions reg). k \<noteq> [] \<and> core_id reg \<noteq> Inr (VStr k) \<and>
     get v ''$id'' VNone = Inr (VStr k))"

lemma register_ok:
  assumes "register L reg schema = Inr reg'" "registry_ok reg"
  shows "registry_ok reg'"
  using assms(1)
proof (rule register_Inr)
  fix d s
  assume d: "schema = VDict d" "map_of d ''$id'' = Some (VStr s)" "s \<noteq> []" "\<exists>cid. core_id reg = Inr cid \<and> cid \<noteq> VStr s"
    "reg' = reg\<lparr>extensions := AList.update s schema (extensions reg)\<rparr>"
  then have "core_id reg' = core_id reg" by (simp add: core_id_def)
  with d assms(2) show ?thesis
    using set_update_subset [of s schema "extensions reg"]
    by (fastforce simp: registry_ok_def get_or_def)
qed

lemma core_register: "register L reg schema = Inr reg' \<Longrightarrow> core reg' = core reg"
  by (erule register_Inr) simp

text \<open>C5: Through any sequence of successful registrations the core contract stays, every extension stands
  under its own identifier and none under that of the contract, and a registered identifier keeps
  the canonical content it had.\<close>
theorem registered_content_stable:
  assumes "rfold (\<lambda>schema reg. register L reg schema) schemas reg = Inr reg'"
    and "registry_ok reg" "map_of (extensions reg) k = Some v"
  shows "registry_ok reg' \<and> core reg' = core reg \<and>
    (\<exists>w. map_of (extensions reg') k = Some w \<and> canonical_bytes L w = canonical_bytes L v)"
proof -
  have "registry_ok reg' \<and> core reg' = core reg"
    by (rule rfold_invariant [OF assms(1), where P = "\<lambda>r. registry_ok r \<and> core r = core reg"])
       (use assms(2) in \<open>auto dest: register_ok core_register\<close>)
  moreover obtain w where "map_of (extensions reg') k = Some w" "canonical_bytes L v = canonical_bytes L w"
    using extension_store.puts_keep [OF assms(1), of k v] assms(3) by (auto simp: find_schema_def)
  ultimately show ?thesis by simp
qed

section \<open>Defaults are only added\<close>

declare expand.simps(2) [simp del] expand_property.simps [simp del]

inductive extends :: "val \<Rightarrow> val \<Rightarrow> bool" where
  same: "extends v v"
| list: "list_all2 extends xs ys \<Longrightarrow> extends (VList xs) (VList ys)"
| dict: "\<forall>k x. map_of d k = Some x \<longrightarrow> (\<exists>y. map_of e k = Some y \<and> extends x y) \<Longrightarrow> extends (VDict d) (VDict e)"

inductive_cases extends_listE: "extends (VList xs) w"
inductive_cases extends_dictE: "extends (VDict d) w"

definition extends_dict :: "dict \<Rightarrow> dict \<Rightarrow> bool" where
  "extends_dict d e \<longleftrightarrow> (\<forall>k x. map_of d k = Some x \<longrightarrow> (\<exists>y. map_of e k = Some y \<and> extends x y))"

lemma extends_dict_refl: "extends_dict d d"
  by (simp add: extends_dict_def extends.same)

lemma extends_VDict [simp]: "extends (VDict d) (VDict e) \<longleftrightarrow> extends_dict d e"
  unfolding extends_dict_def by (auto elim: extends_dictE intro: extends.same extends.dict)

lemma extends_trans: "extends u v \<Longrightarrow> extends v w \<Longrightarrow> extends u w"
proof (induction arbitrary: w rule: extends.induct)
  case (list xs ys)
  from list(2) show ?case
  proof (rule extends_listE)
    assume "w = VList ys"
    with list(1) show ?thesis by (auto intro: extends.list elim: list_all2_mono)
  next
    fix zs
    assume "w = VList zs" "list_all2 extends ys zs"
    with list(1) show ?thesis by (auto simp: list_all2_conv_all_nth intro!: extends.list)
  qed
next
  case (dict d e)
  from dict(2) show ?case
  proof (rule extends_dictE)
    assume "w = VDict e"
    with dict(1) show ?thesis by (metis extends.dict)
  next
    fix f
    assume "w = VDict f" "\<forall>k x. map_of e k = Some x \<longrightarrow> (\<exists>y. map_of f k = Some y \<and> extends x y)"
    with dict(1) show ?thesis by (metis extends.dict)
  qed
qed

lemma extends_dict_trans: "extends_dict d e \<Longrightarrow> extends_dict e f \<Longrightarrow> extends_dict d f"
  unfolding extends_dict_def by (meson extends_trans)

lemma expand_property_Inr:
  assumes "expand_property n reg document p d = Inr e"
  obtains d' where "d' = d \<or> \<not> has_key d (fst p) \<and> (\<exists>x. d' = AList.update (fst p) x d)"
    "has_key d (fst p) \<or> has (snd p) ''default'' = Inr True \<longrightarrow> has_key d' (fst p)"
    "e = d' \<and> map_of d' (fst p) = None \<or>
       (\<exists>x y. map_of d' (fst p) = Some x \<and> expand n reg document (snd p) x = Inr y \<and> e = AList.update (fst p) y d')"
proof -
  from assms obtain d' where
    1: "(if has_key d (fst p) then Inr d
         else rbind (has (snd p) ''default'') (\<lambda>b.
              if b then rbind (item (snd p) ''default'') (\<lambda>x. Inr (AList.update (fst p) x d))
              else Inr d)) = Inr d'" and
    2: "(case map_of d' (fst p) of
       None \<Rightarrow> Inr d'
     | Some x \<Rightarrow>
         rbind (expand n reg document (snd p) x) (\<lambda>y. Inr (AList.update (fst p) y d'))) = Inr e"
    unfolding expand_property.simps rbind_Inr_iff by blast
  show thesis
  proof (rule that)
    show "d' = d \<or> \<not> has_key d (fst p) \<and> (\<exists>x. d' = AList.update (fst p) x d)"
      using 1 by (auto simp: rbind_Inr_iff split: if_splits)
    show "has_key d (fst p) \<or> has (snd p) ''default'' = Inr True \<longrightarrow> has_key d' (fst p)"
    proof (intro impI)
      assume "has_key d (fst p) \<or> has (snd p) ''default'' = Inr True"
      with 1 have "has_key d (fst p) \<and> d' = d \<or> (\<exists>x. d' = AList.update (fst p) x d)"
        by (auto simp: rbind_Inr_iff split: if_splits)
      then show "has_key d' (fst p)" by (elim disjE exE conjE) simp_all
    qed
    show "e = d' \<and> map_of d' (fst p) = None \<or> (\<exists>x y. map_of d' (fst p) = Some x \<and>
        expand n reg document (snd p) x = Inr y \<and> e = AList.update (fst p) y d')"
      using 2 by (auto simp: rbind_Inr_iff split: option.splits)
  qed
qed

lemma rfold_extends:
  assumes "rfold f ps d = Inr e" "\<And>p d e. p \<in> set ps \<Longrightarrow> f p d = Inr e \<Longrightarrow> extends_dict d e"
  shows "extends_dict d e"
  using assms
proof (induction ps arbitrary: d)
  case Nil
  then show ?case using extends_dict_refl by simp
next
  case (Cons p ps)
  then obtain d1 where "f p d = Inr d1" "rfold f ps d1 = Inr e" by (auto simp: rbind_Inr_iff)
  then have "extends_dict d d1" "extends_dict d1 e"
    using Cons.IH [of d1] Cons.prems(2) by (meson list.set_intros)+
  then show ?case by (rule extends_dict_trans)
qed

lemma expand_property_extends:
  assumes IH: "\<And>s v w. expand n reg document s v = Inr w \<Longrightarrow> extends v w"
    and e: "expand_property n reg document p d = Inr e"
  shows "extends_dict d e"
  using e
proof (rule expand_property_Inr)
  fix d'
  assume d': "d' = d \<or> \<not> has_key d (fst p) \<and> (\<exists>x. d' = AList.update (fst p) x d)"
    "e = d' \<and> map_of d' (fst p) = None \<or>
       (\<exists>x y. map_of d' (fst p) = Some x \<and> expand n reg document (snd p) x = Inr y \<and> e = AList.update (fst p) y d')"
  from d'(1) have "extends_dict d d'" by (auto simp: extends_dict_def has_key_def intro: extends.same)
  moreover from d'(2) have "extends_dict d' e" using IH by (auto simp: extends_dict_def intro: extends.same)
  ultimately show ?thesis by (rule extends_dict_trans)
qed

lemma expand_Inr:
  assumes "expand (Suc n) reg document schema v = Inr w"
  obtains u where "u = v \<or> (\<exists>target resolved. expand n reg target resolved v = Inr u)"
    "w = u \<or>
     (\<exists>d e properties. u = VDict d \<and> w = VDict e \<and> rfold (expand_property n reg document) properties d = Inr e) \<or>
     (\<exists>xs ys items. u = VList xs \<and> w = VList ys \<and> rmap (expand n reg document items) xs = Inr ys)"
    "\<forall>d properties. u = VDict d \<longrightarrow> get schema ''properties'' (VDict []) = Inr (VDict properties) \<longrightarrow>
       (\<exists>e. w = VDict e \<and> rfold (expand_property n reg document) properties d = Inr e)"
proof -
  from assms obtain u b where b: "(if b
            then rbind (item schema ''$ref'') (\<lambda>r. rbind (as_str r) (\<lambda>ref.
                   rbind (resolve_ref reg document ref) (\<lambda>(resolved, target).
                     expand n reg target resolved v)))
            else Inr v) = Inr u" and
    w: "(case u of
       VDict d \<Rightarrow>
         rbind (get schema ''properties'' (VDict [])) (\<lambda>ps. rbind (as_dict ps) (\<lambda>properties.
         rbind (rfold (expand_property n reg document) properties d) (\<lambda>d'. Inr (VDict d'))))
     | VList xs \<Rightarrow>
         rbind (has schema ''items'') (\<lambda>b.
           if b then rbind (item schema ''items'') (\<lambda>items.
             rbind (rmap (expand n reg document items) xs) (\<lambda>ys. Inr (VList ys)))
           else Inr u)
     | _ \<Rightarrow> Inr u) = Inr w"
    unfolding expand.simps rbind_Inr_iff [of "has schema ''$ref''"] rbind_Inr_iff [of "if _ then _ else _"] by blast
  from b have "u = v \<or> (\<exists>target resolved. expand n reg target resolved v = Inr u)"
    by (cases b) (simp_all add: rbind_Inr_iff split_beta, blast)
  then show thesis
  proof (rule that)
    show "w = u \<or>
     (\<exists>d e properties. u = VDict d \<and> w = VDict e \<and> rfold (expand_property n reg document) properties d = Inr e) \<or>
     (\<exists>xs ys items. u = VList xs \<and> w = VList ys \<and> rmap (expand n reg document items) xs = Inr ys)"
      using w by (cases u) (simp_all add: rbind_Inr_iff split: if_splits, blast+)
    show "\<forall>d properties. u = VDict d \<longrightarrow> get schema ''properties'' (VDict []) = Inr (VDict properties) \<longrightarrow>
       (\<exists>e. w = VDict e \<and> rfold (expand_property n reg document) properties d = Inr e)"
    proof (intro allI impI)
      fix d properties
      assume "u = VDict d" "get schema ''properties'' (VDict []) = Inr (VDict properties)"
      with w show "\<exists>e. w = VDict e \<and> rfold (expand_property n reg document) properties d = Inr e"
        by (simp add: rbind_Inr_iff) blast
    qed
  qed
qed

lemma expand_extends: "expand n reg document schema v = Inr w \<Longrightarrow> extends v w"
proof (induction n arbitrary: document schema v w)
  case (Suc n)
  from Suc.prems show ?case
  proof (rule expand_Inr)
    fix u
    assume u: "u = v \<or> (\<exists>target resolved. expand n reg target resolved v = Inr u)"
      "w = u \<or>
       (\<exists>d e properties. u = VDict d \<and> w = VDict e \<and> rfold (expand_property n reg document) properties d = Inr e) \<or>
       (\<exists>xs ys items. u = VList xs \<and> w = VList ys \<and> rmap (expand n reg document items) xs = Inr ys)"
    from u(1) Suc.IH have "extends v u" by (auto intro: extends.same)
    moreover from u(2) have "extends u w"
    proof (elim disjE exE conjE)
      fix d e properties
      assume "u = VDict d" "w = VDict e" "rfold (expand_property n reg document) properties d = Inr e"
      moreover from this(3) have "extends_dict d e"
        by (rule rfold_extends) (rule expand_property_extends [OF Suc.IH])
      ultimately show ?thesis by simp
    next
      fix xs ys items
      assume "u = VList xs" "w = VList ys" "rmap (expand n reg document items) xs = Inr ys"
      then show ?thesis using Suc.IH by (auto simp: rmap_Inr_iff intro!: extends.list elim!: list_all2_mono)
    qed (simp add: extends.same)
    ultimately show ?thesis by (rule extends_trans)
  qed
qed simp

lemma expand_property_keeps:
  "expand_property n reg document p d = Inr e \<Longrightarrow> has_key d k \<Longrightarrow> has_key e k"
  by (erule expand_property_Inr) auto

lemma expand_properties_fill:
  "rfold (expand_property n reg document) properties d = Inr e \<Longrightarrow>
   has_key d k \<or> (\<exists>child. (k, child) \<in> set properties \<and> has child ''default'' = Inr True) \<Longrightarrow> has_key e k"
proof (induction properties arbitrary: d)
  case (Cons p ps)
  then obtain d1 where d1: "expand_property n reg document p d = Inr d1"
    "rfold (expand_property n reg document) ps d1 = Inr e" by (auto simp: rbind_Inr_iff)
  have "has_key d1 k \<or> (\<exists>child. (k, child) \<in> set ps \<and> has child ''default'' = Inr True)"
  proof (cases "has_key d k \<or> fst p = k \<and> has (snd p) ''default'' = Inr True")
    case True
    with d1(1) show ?thesis by (elim expand_property_Inr) auto
  next
    case False
    with Cons.prems(2) show ?thesis by auto
  qed
  with Cons.IH d1(2) show ?case by blast
qed auto

text \<open>What filling defaults makes of a value: it keeps what is explicit and has every declared default.\<close>

definition completes :: "registry \<Rightarrow> string \<Rightarrow> val \<Rightarrow> val \<Rightarrow> bool" where
  "completes reg name v w \<longleftrightarrow> extends v w \<and>
    (\<forall>d schema document properties k child. v = VDict d \<and> schema_document reg name = Inr (schema, document) \<and>
       get schema ''properties'' (VDict []) = Inr (VDict properties) \<and>
       (k, child) \<in> set properties \<and> has child ''default'' = Inr True \<longrightarrow> (\<exists>e. w = VDict e \<and> has_key e k))"

lemma apply_defaults_completes:
  assumes "apply_defaults n reg name v = Inr w"
  shows "completes reg name v w"
proof -
  from assms obtain schema document where sd: "schema_document reg name = Inr (schema, document)"
    and e: "expand n reg document schema v = Inr w"
    by (auto simp: apply_defaults_def rbind_Inr_iff)
  have "\<exists>e. w = VDict e \<and> has_key e k"
    if d: "v = VDict d" and p: "get schema ''properties'' (VDict []) = Inr (VDict properties)"
      "(k, child) \<in> set properties" "has child ''default'' = Inr True" for d properties k child
  proof -
    from e obtain m where m: "n = Suc m" by (cases n) auto
    from e [unfolded m] show ?thesis
    proof (rule expand_Inr)
      fix u
      assume u: "u = v \<or> (\<exists>target resolved. expand m reg target resolved v = Inr u)"
        "\<forall>d properties. u = VDict d \<longrightarrow> get schema ''properties'' (VDict []) = Inr (VDict properties) \<longrightarrow>
           (\<exists>e. w = VDict e \<and> rfold (expand_property m reg document) properties d = Inr e)"
      from u(1) expand_extends have "extends v u" by (auto intro: extends.same)
      then obtain d' where "u = VDict d'" unfolding d by (rule extends_dictE) blast+
      with u(2) p(1) obtain e where "w = VDict e" "rfold (expand_property m reg document) properties d' = Inr e"
        by blast
      with expand_properties_fill [of m reg document properties d' e k] p(2,3) show ?thesis by blast
    qed
  qed
  note fill = this
  show ?thesis unfolding completes_def
  proof (intro conjI allI impI)
    show "extends v w" using e by (rule expand_extends)
  next
    fix d s doc properties k child
    assume a: "v = VDict d \<and> schema_document reg name = Inr (s, doc) \<and>
       get s ''properties'' (VDict []) = Inr (VDict properties) \<and>
       (k, child) \<in> set properties \<and> has child ''default'' = Inr True"
    with sd have "s = schema" by simp
    with a show "\<exists>e. w = VDict e \<and> has_key e k" using fill [of d properties k child] by simp
  qed
qed

text \<open>C6: Filling defaults only adds: explicit values, null included, keep their place in nested objects
  and lists, and every property of the named schema that declares a default is present afterwards.\<close>
theorem apply_defaults_adds:
  assumes "apply_defaults n reg name v = Inr w"
  shows "extends v w \<and>
    (\<forall>d schema document properties k child. v = VDict d \<and> schema_document reg name = Inr (schema, document) \<and>
       get schema ''properties'' (VDict []) = Inr (VDict properties) \<and>
       (k, child) \<in> set properties \<and> has child ''default'' = Inr True \<longrightarrow> (\<exists>e. w = VDict e \<and> has_key e k))"
  using apply_defaults_completes [OF assms] unfolding completes_def .

section \<open>What validates is finite JSON\<close>

fun finite_json :: "val \<Rightarrow> bool" where
  "finite_json (VFloat x) = is_finite x"
| "finite_json (VList xs) = (\<forall>x \<in> set xs. finite_json x)"
| "finite_json (VTuple xs) = (\<forall>x \<in> set xs. finite_json x)"
| "finite_json (VDict d) = (\<forall>p \<in> set d. finite_json (snd p))"
| "finite_json (VBytes _) = False"
| "finite_json (VModel _ _) = False"
| "finite_json (VObj _ _) = False"
| "finite_json (VOpaque _) = False"
| "finite_json _ = True"

lemma rmap_ok_iff: "ok (rmap f xs) \<longleftrightarrow> (\<forall>x \<in> set xs. ok (f x))"
  by (induction xs) (auto simp: ok_iff rbind_Inr_iff)

lemma ok_rbind: "ok (rbind m f) \<longleftrightarrow> (\<exists>x. m = Inr x \<and> ok (f x))"
  by (cases m) auto

lemma dumps_finite: "\<not> allow_nan opts \<Longrightarrow> ok (dumps L opts v) \<longleftrightarrow> finite_json v"
proof (induction L opts v rule: dumps.induct)
  case (4 L opts x)
  then show ?case by (cases x) auto
next
  case (8 L opts d)
  then have "ok (rmap (\<lambda>p. rbind (dumps L opts (snd p)) (\<lambda>t. Inr (json_string (fst p) @ key_sep opts @ t)))
      (dict_items opts d)) \<longleftrightarrow> (\<forall>p \<in> set d. finite_json (snd p))"
    by (force simp: rmap_ok_iff ok_rbind simp flip: ok_iff)
  then show ?case by (auto simp: ok_rbind simp flip: ok_iff)
qed (auto simp: ok_rbind rmap_ok_iff simp flip: ok_iff)

lemma canonical_bytes_finite: "ok (canonical_bytes L v) \<longleftrightarrow> finite_json v"
  using dumps_finite [of canonical_opts L v]
  by (simp add: canonical_bytes_def canonical_opts_def ok_rbind flip: ok_iff)

text \<open>What validation accepts is a finite JSON document that conforms to the named schema of the bound
  contract, and a score result has no two metrics of one name.\<close>
theorem validate_accepts:
  assumes "validate L reg name v = Inr ()"
  shows "finite_json v \<and>
    (\<exists>bound target cid. bound_schema reg = Inr bound \<and> validation_target reg bound name = Inr target \<and>
       item bound ''$id'' = Inr (VStr cid) \<and> conforms L ((cid, bound) # extensions reg) target v) \<and>
    (name = ''ScoreResult'' \<longrightarrow> (\<exists>metrics names. item v ''metrics'' = Inr metrics \<and>
        rbind (as_list metrics) (rmap (\<lambda>m. item m ''name'')) = Inr names \<and> no_duplicates names))"
proof -
  from assms obtain b bound i cid target where
    c: "canonical_bytes L v = Inr b" "bound_schema reg = Inr bound" "item bound ''$id'' = Inr i"
      "as_str i = Inr cid" "validation_target reg bound name = Inr target"
      "conforms L ((cid, bound) # extensions reg) target v" and
    m: "name = ''ScoreResult'' \<longrightarrow> unique_metrics v = Inr ()"
    by (auto simp: validate_def rbind_Inr_iff guard_Inr_iff split: if_splits)
  have "i = VStr cid" using c(4) by (cases i) auto
  moreover have "finite_json v" using c(1) canonical_bytes_finite [of L v] by (simp add: ok_iff)
  moreover have "unique_metrics v = Inr () \<Longrightarrow> \<exists>metrics names. item v ''metrics'' = Inr metrics \<and>
        rbind (as_list metrics) (rmap (\<lambda>m. item m ''name'')) = Inr names \<and> no_duplicates names"
    by (auto simp: unique_metrics_def rbind_Inr_iff guard_Inr_iff)
  ultimately show ?thesis using c m by blast
qed

section \<open>A small registry\<close>

definition small_contract :: val where
  "small_contract = VDict [(''$id'', VStr ''urn:core''),
     (''$defs'', VDict [(''ScoreResult'', VDict [(''type'', VStr ''object'')]),
        (''Run'', VDict [(''properties'', VDict [(''seed'', VDict [(''default'', VInt 0)]),
            (''limits'', VDict [(''$ref'', VStr ''#/$defs/Limits''), (''default'', VDict [])])])]),
        (''Limits'', VDict [(''properties'', VDict [(''steps'', VDict [(''default'', VInt 8)])])])])]"

definition small_registry :: registry where
  "small_registry = \<lparr>core = small_contract,
     extensions = [(''urn:a'', VDict [(''$id'', VStr ''urn:a''), (''type'', VStr ''object'')])]\<rparr>"

theorem registered_content_stable_witness:
  "\<exists>reg' w. rfold (\<lambda>schema reg. register rational_lib reg schema)
       [VDict [(''type'', VStr ''object''), (''$id'', VStr ''urn:a'')], VDict [(''$id'', VStr ''urn:b'')]]
       small_registry = Inr reg' \<and> map_of (extensions reg') ''urn:a'' = Some w \<and>
     canonical_bytes rational_lib w =
     canonical_bytes rational_lib (VDict [(''$id'', VStr ''urn:a''), (''type'', VStr ''object'')])"
proof -
  have "ok (rfold (\<lambda>schema reg. register rational_lib reg schema)
       [VDict [(''type'', VStr ''object''), (''$id'', VStr ''urn:a'')], VDict [(''$id'', VStr ''urn:b'')]]
       small_registry)" by code_simp
  then obtain reg' where r: "rfold (\<lambda>schema reg. register rational_lib reg schema)
       [VDict [(''type'', VStr ''object''), (''$id'', VStr ''urn:a'')], VDict [(''$id'', VStr ''urn:b'')]]
       small_registry = Inr reg'" unfolding ok_iff by blast
  have "registry_ok small_registry" by code_simp
  from registered_content_stable [OF r this, of "''urn:a''"] r show ?thesis
    by (auto simp: small_registry_def)
qed

theorem apply_defaults_adds_witness:
  "\<exists>w. apply_defaults 9 small_registry ''Run'' (VDict [(''seed'', VNone)]) = Inr w \<and> extends (VDict [(''seed'', VNone)]) w"
proof -
  have "ok (apply_defaults 9 small_registry ''Run'' (VDict [(''seed'', VNone)]))" by code_simp
  then show ?thesis using apply_defaults_adds unfolding ok_iff by blast
qed

theorem validate_accepts_witness:
  "finite_json (VDict [(''metrics'', VList [VDict [(''name'', VStr ''accuracy'')]])])"
proof -
  have "validate rational_lib small_registry ''ScoreResult''
      (VDict [(''metrics'', VList [VDict [(''name'', VStr ''accuracy'')]])]) = Inr ()" by code_simp
  from validate_accepts [OF this] show ?thesis by blast
qed

end
