(* ===== verification/Sdk_Core.thy ===== *)
theory Sdk_Core
  imports Modeling Schema_Registry Score_Result
begin

text \<open>
  The general SDK (\<open>reference/sdk/src/uenv/sdk/__init__.py\<close>): conversion to wire values, content
  parts, task and scoring requests, the contexts with their cancellation and deadline checks, the
  reader of a scoring trajectory, and harness evaluation.

  Time and cancellation are read from outside: the \<open>n\<close>-th time a context is asked, it observes
  \<open>tick n\<close>, the value of \<open>cancelled()\<close> and of \<open>time.monotonic()\<close>. Dataclasses that are sent are
  \<open>VObj\<close> values, requests that stay inside a component are records.
\<close>

section \<open>Wire values\<close>

definition kept_none :: "string list" where
  "kept_none = [''success'', ''reward'']"

fun to_wire :: "sids \<Rightarrow> val \<Rightarrow> val res" where
  "to_wire sids (VModel c d) = model_to_envelope sids (VModel c d)"
| "to_wire sids (VObj c d) =
     rbind (rmap (\<lambda>f. rbind (to_wire sids (snd f)) (\<lambda>x. Inr (fst f, x)))
              (filter (\<lambda>f. snd f \<noteq> VNone \<or> fst f \<in> set kept_none) d))
       (\<lambda>e. Inr (VDict e))"
| "to_wire sids (VDict d) =
     rbind (rmap (\<lambda>p. rbind (to_wire sids (snd p)) (\<lambda>x. Inr (fst p, x))) d) (\<lambda>e. Inr (VDict e))"
| "to_wire sids (VTuple xs) = rbind (rmap (to_wire sids) xs) (\<lambda>ys. Inr (VList ys))"
| "to_wire sids (VList xs) = rbind (rmap (to_wire sids) xs) (\<lambda>ys. Inr (VList ys))"
| "to_wire sids v = Inr v"

definition text_part :: "val \<Rightarrow> val" where
  "text_part t = VDict [(''kind'', VStr ''text''), (''text'', t)]"

fun structured_part :: "sids \<Rightarrow> val \<Rightarrow> val res" where
  "structured_part sids (VModel c d) =
     rbind (model_to_envelope sids (VModel c d)) (\<lambda>e.
       Inr (VDict [(''kind'', VStr ''structured''), (''structured'', e)]))"
| "structured_part sids v = Inl (TypeError ''Structured content requires a registered UEnvModel'')"

definition prepared_sample :: "val \<Rightarrow> val \<Rightarrow> val \<Rightarrow> val \<Rightarrow> val" where
  "prepared_sample sample_id inp private_data runtime =
     VObj ''PreparedSample'' [(''sample_id'', sample_id), (''input'', inp),
       (''private_data'', private_data), (''runtime'', runtime)]"

definition observation :: "val list \<Rightarrow> bool \<Rightarrow> bool \<Rightarrow> val" where
  "observation content terminated episode_truncated =
     VObj ''Observation'' [(''content'', VList content), (''terminated'', VBool terminated),
       (''episode_truncated'', VBool episode_truncated)]"

record task_spec =
  task_id :: val
  dataset :: val
  sample_id :: val
  task_input :: val
  runtime :: val

definition task_from_wire :: "nat \<Rightarrow> ctab \<Rightarrow> sids \<Rightarrow> val \<Rightarrow> string \<Rightarrow> task_spec res" where
  "task_from_wire n ct sids v input_model =
     rbind (item v ''task_id'') (\<lambda>tid.
     rbind (item v ''dataset'') (\<lambda>ds.
     rbind (item v ''sample_id'') (\<lambda>sid.
     rbind (item v ''input'') (\<lambda>env.
     rbind (model_from_envelope n ct sids input_model env) (\<lambda>m.
     rbind (get v ''runtime'' VNone) (\<lambda>r.
       Inr \<lparr>task_id = tid, dataset = ds, sample_id = sid, task_input = m, runtime = r\<rparr>))))))"

definition object_config :: "string \<Rightarrow> val \<Rightarrow> val res" where
  \<comment> \<open>the constructor shared by \<open>Environment\<close>, \<open>AgentRunner\<close>, \<open>ToolExecutor\<close> and \<open>Scorer\<close>\<close>
  "object_config role config =
     (if is_dict config then Inr config else Inl (TypeError (role @ '' config must be an object'')))"

definition agent_runtime_error :: "val \<Rightarrow> pyerr res" where
  \<comment> \<open>\<open>AgentRuntimeError(error)\<close> reads the code\<close>
  "agent_runtime_error error = rbind (item error ''code'') (\<lambda>_. Inr (AgentRuntimeError error))"

section \<open>Contexts\<close>

type_synonym ticks = "nat \<Rightarrow> bool \<times> dbl"

definition context_check :: "string \<Rightarrow> dbl \<Rightarrow> bool \<times> dbl \<Rightarrow> unit res" where
  \<comment> \<open>\<open>EnvironmentContext.check\<close> and \<open>ScoringContext.check\<close>, which differ in the timeout code\<close>
  "context_check timeout_code deadline reading =
     (if fst reading then Inl (RuntimeError ''EPISODE_CANCELLED'')
      else if dbl_le deadline (snd reading) then Inl (TimeoutError timeout_code)
      else Inr ())"

record scoring_context =
  sc_deadline :: dbl
  sc_registry :: registry
  sc_ticks :: ticks
  sc_run_harness :: "(val \<Rightarrow> val res) option"
  sc_read_artifact :: "(val \<Rightarrow> nat list res) option"

definition scoring_check :: "scoring_context \<Rightarrow> nat \<Rightarrow> unit res" where
  "scoring_check ctx i = context_check ''SCORER_TIMEOUT'' (sc_deadline ctx) (sc_ticks ctx i)"

definition py_trunc :: "rat \<Rightarrow> int" where
  \<comment> \<open>\<open>int(x)\<close>\<close>
  "py_trunc x = (if x < 0 then \<lceil>x\<rceil> else \<lfloor>x\<rfloor>)"

definition int_of_dbl :: "dbl \<Rightarrow> int res" where
  "int_of_dbl x = (case x of
       Fin r \<Rightarrow> Inr (py_trunc r)
     | NaN \<Rightarrow> Inl (ValueError ''cannot convert float NaN to integer'')
     | _ \<Rightarrow> Inl OverflowError)"

definition remaining_timeout_ms :: "scoring_context \<Rightarrow> nat \<Rightarrow> int res" where
  \<comment> \<open>one check and one further look at the clock\<close>
  "remaining_timeout_ms ctx i =
     rbind (scoring_check ctx i) (\<lambda>_.
     rbind (int_of_dbl (dbl_mul_pos 1000 (dbl_sub (sc_deadline ctx) (snd (sc_ticks ctx (Suc i))))))
       (\<lambda>ms. Inr (max 1 ms)))"

section \<open>Scoring requests\<close>

record score_input =
  si_task :: task_spec
  si_final_answer :: val
  si_trajectory_ref :: val
  si_state :: val
  si_private_data :: val

function lines_from :: "nat list \<Rightarrow> nat list \<Rightarrow> nat list list" where
  "lines_from acc [] = (if acc = [] then [] else [acc])"
| "lines_from acc (c # s) =
     (if c = 10 then acc # lines_from [] s
      else if c = 13 then acc # lines_from [] (if s \<noteq> [] \<and> hd s = 10 then tl s else s)
      else lines_from (acc @ [c]) s)"
  by pat_completeness auto
termination
  by (relation "measure (\<lambda>(acc, s). length s)") auto

definition splitlines :: "nat list \<Rightarrow> nat list list" where
  \<comment> \<open>\<open>bytes.splitlines()\<close>: a line ends at LF, CR or CR LF; no empty line at the end\<close>
  "splitlines content = lines_from [] content"

definition read_verified :: "lib \<Rightarrow> scoring_context \<Rightarrow> (val \<Rightarrow> nat list res) \<Rightarrow> nat \<Rightarrow> val \<Rightarrow> nat list res" where
  "read_verified L ctx read_artifact i reference =
     rbind (scoring_check ctx i) (\<lambda>_.
     rbind (read_artifact reference) (\<lambda>content.
     rbind (item reference ''size_bytes'') (\<lambda>size_bytes.
       if \<not> py_eq (VInt (int (length content))) size_bytes
       then Inl (ValueError ''Trajectory artifact integrity mismatch'')
       else rbind (item reference ''digest'') (\<lambda>digest.
         if \<not> py_eq (VStr (sha256_ref L content)) digest
         then Inl (ValueError ''Trajectory artifact integrity mismatch'')
         else Inr content))))"

definition identity_fields :: "string list" where
  "identity_fields = [''run_id'', ''episode_id'', ''attempt_id'', ''task_id'']"

definition add_event :: "lib \<Rightarrow> registry \<Rightarrow> val \<Rightarrow> nat list \<Rightarrow> val list \<Rightarrow> val list res" where
  "add_event L reg manifest line events =
     (if line = [] then Inl (ValueError ''Empty trajectory record'')
      else rbind (json_loads L line) (\<lambda>event.
        rbind (validate L reg ''TrajectoryEvent'' event) (\<lambda>_.
        rbind (rany (\<lambda>k. rbind (item event k) (\<lambda>a. rbind (item manifest k) (\<lambda>b. Inr (\<not> py_eq a b))))
                 identity_fields) (\<lambda>differs.
        rbind (guard (\<not> differs) (ValueError ''Trajectory identity mismatch'')) (\<lambda>_.
        rbind (item event ''sequence'') (\<lambda>sequence.
        rbind (guard (py_eq sequence (VInt (int (length events)))) (ValueError ''Incomplete scoring trajectory''))
          (\<lambda>_. Inr (events @ [event]))))))))"

definition read_segment :: "lib \<Rightarrow> scoring_context \<Rightarrow> (val \<Rightarrow> nat list res) \<Rightarrow> val \<Rightarrow> val \<Rightarrow> nat \<times> val list \<Rightarrow> (nat \<times> val list) res" where
  "read_segment L ctx read_artifact manifest segment st =
     rbind (read_verified L ctx read_artifact (fst st) segment) (\<lambda>content.
     rbind (rfold (add_event L (sc_registry ctx) manifest) (splitlines content) (snd st)) (\<lambda>events.
       Inr (Suc (fst st), events)))"

definition read_scoring_trajectory :: "lib \<Rightarrow> score_input \<Rightarrow> scoring_context \<Rightarrow> val list res" where
  "read_scoring_trajectory L request ctx =
     (case sc_read_artifact ctx of
        None \<Rightarrow> Inl (RuntimeError ''Worker-bound trajectory reader is unavailable'')
      | Some read_artifact \<Rightarrow>
          rbind (read_verified L ctx read_artifact 0 (si_trajectory_ref request)) (\<lambda>content.
          rbind (json_loads L content) (\<lambda>manifest.
          rbind (validate L (sc_registry ctx) ''TrajectoryManifest'' manifest) (\<lambda>_.
          rbind (item manifest ''trajectory_status'') (\<lambda>status.
          rbind (if py_eq status (VStr ''scoring_checkpoint'')
                 then rbind (item manifest ''task_id'') (\<lambda>tid. Inr (py_eq tid (task_id (si_task request))))
                 else Inr False) (\<lambda>expected.
          rbind (guard expected (ValueError ''Expected this task scoring checkpoint'')) (\<lambda>_.
          rbind (item manifest ''event_segments'') (\<lambda>s. rbind (as_list s) (\<lambda>segments.
          rbind (rfold (read_segment L ctx read_artifact manifest) segments (1, [])) (\<lambda>(i, events).
          rbind (item manifest ''event_count'') (\<lambda>event_count.
          rbind (guard (py_eq (VInt (int (length events))) event_count)
                   (ValueError ''Trajectory event count mismatch'')) (\<lambda>_.
          rbind (scoring_check ctx i) (\<lambda>_. Inr events)))))))))))))"

definition read_reference_text :: "score_input \<Rightarrow> (string \<times> val) res" where
  "read_reference_text request =
     rbind (guard (si_private_data request \<noteq> VNone)
              (ValueError ''This scoring rule requires reference material'')) (\<lambda>_.
     rbind (as_list (si_final_answer request)) (\<lambda>parts.
     rbind (rany (\<lambda>part. rbind (item part ''kind'') (\<lambda>k. Inr (\<not> py_eq k (VStr ''text'')))) parts) (\<lambda>other.
     rbind (guard (\<not> other) (ValueError ''Text-only scorer cannot discard non-text answer parts'')) (\<lambda>_.
     rbind (rmap (\<lambda>part. rbind (item part ''text'') as_str) parts) (\<lambda>texts.
     rbind (model_dump (si_private_data request)) (\<lambda>private_data.
       Inr (concat texts, private_data)))))))"

section \<open>Harness evaluation\<close>

definition as_num :: "val \<Rightarrow> dbl res" where
  "as_num v = (case num_of v of None \<Rightarrow> Inl (TypeError ''number'') | Some x \<Rightarrow> Inr x)"

definition py_lt :: "val \<Rightarrow> val \<Rightarrow> bool res" where
  \<comment> \<open>\<open>a < b\<close> on numbers\<close>
  "py_lt a b = rbind (as_num a) (\<lambda>x. rbind (as_num b) (\<lambda>y. Inr (dbl_lt x y)))"

definition py_min :: "val \<Rightarrow> val \<Rightarrow> val res" where
  \<comment> \<open>\<open>min(a, b)\<close>: the first unless the second is less\<close>
  "py_min a b = rbind (py_lt b a) (\<lambda>less. Inr (if less then b else a))"

definition harness_command :: "sids \<Rightarrow> score_input \<Rightarrow> val \<Rightarrow> val res" where
  "harness_command sids request remaining =
     rbind (to_wire sids (si_final_answer request)) (\<lambda>final_answer.
     rbind (model_to_envelope sids (si_private_data request)) (\<lambda>private_data.
     rbind (if si_state request \<noteq> VNone
            then rbind (model_to_envelope sids (si_state request)) (\<lambda>s. Inr [(''state'', s)])
            else Inr []) (\<lambda>state.
       Inr (VDict ([(''final_answer'', final_answer), (''private_data'', private_data),
                    (''remaining_timeout_ms'', remaining)] @ state)))))"

definition harness_score :: "val \<Rightarrow> score_result res" where
  "harness_score report =
     rbind (item report ''tests_passed'') (\<lambda>passed.
     rbind (item report ''tests_run'') (\<lambda>run.
     rbind (py_lt run passed) (\<lambda>exceeds.
     rbind (guard (\<not> exceeds) (ValueError ''Passed tests exceed executed tests'')) (\<lambda>_.
     rbind (get report ''status'' VNone) (\<lambda>status.
     rbind (get report ''success'' VNone) (\<lambda>success.
     case success of
       VBool b \<Rightarrow>
         if py_eq status (VStr ''ok'')
         then rbind (get report ''metrics'' (VList [metric ''resolved'' (VFloat (float_bool b)) ''ratio'' ''higher'']))
                (\<lambda>m. rbind (as_list m) (\<lambda>metrics.
                rbind (item report ''report_ref'') (\<lambda>report_ref.
                  Inr (empty_score\<lparr>sr_success := Some b, sr_metrics := metrics,
                         sr_reward := Some (float_bool b), sr_evidence := [report_ref]\<rparr>))))
         else Inl (ValueError ''Harness must complete and provide explicit success'')
     | _ \<Rightarrow> Inl (ValueError ''Harness must complete and provide explicit success'')))))))"

definition evaluate_harness :: "lib \<Rightarrow> sids \<Rightarrow> score_input \<Rightarrow> scoring_context \<Rightarrow> score_result res" where
  "evaluate_harness L sids request ctx =
     rbind (scoring_check ctx 0) (\<lambda>_.
     case sc_run_harness ctx of
       None \<Rightarrow> Inl (RuntimeError ''Worker-bound official harness is unavailable'')
     | Some run_harness \<Rightarrow>
         rbind (if si_private_data request = VNone then Inr False
                else rbind (model_dump (si_private_data request)) (\<lambda>d. has d ''evaluation_plan'')) (\<lambda>planned.
         rbind (guard planned (ValueError ''Missing evaluation_plan'')) (\<lambda>_.
         rbind (item (si_private_data request) ''evaluation_plan'') (\<lambda>plan.
         rbind (validate L (sc_registry ctx) ''uenv://schemas/vnext/EvaluationPlan'' plan) (\<lambda>_.
         rbind (item plan ''timeout_ms'') (\<lambda>timeout_ms.
         rbind (remaining_timeout_ms ctx 1) (\<lambda>left.
         rbind (py_min timeout_ms (VInt left)) (\<lambda>remaining.
         rbind (py_lt (VInt 0) remaining) (\<lambda>positive.
         rbind (guard positive (TimeoutError ''HARNESS_TIMEOUT'')) (\<lambda>_.
         rbind (harness_command sids request remaining) (\<lambda>command.
         rbind (validate L (sc_registry ctx) ''HarnessRequest'' command) (\<lambda>_.
         rbind (run_harness command) (\<lambda>report.
         rbind (validate L (sc_registry ctx) ''HarnessResult'' report) (\<lambda>_.
           harness_score report))))))))))))))"

end
