(* ===== verification/Sdk_Correct.thy ===== *)
theory Sdk_Correct
  imports Sdk_Core Registry_Correct Py_Float
begin

text \<open>
  What scorers rely on in the SDK: a trajectory that is returned is complete, verified and of the
  task being scored; a harness gets no more time than the plan and the deadline leave, and its
  verdict and reward agree; conversion to wire values ends in plain JSON and changes plain JSON
  no more.
\<close>

section \<open>Wire values\<close>

fun wireable :: "val \<Rightarrow> bool" where
  \<comment> \<open>no byte strings and no foreign objects inside\<close>
  "wireable (VModel c d) = (\<forall>p \<in> set d. wireable (snd p))"
| "wireable (VObj c d) = (\<forall>p \<in> set d. wireable (snd p))"
| "wireable (VDict d) = (\<forall>p \<in> set d. wireable (snd p))"
| "wireable (VList xs) = (\<forall>x \<in> set xs. wireable x)"
| "wireable (VTuple xs) = (\<forall>x \<in> set xs. wireable x)"
| "wireable (VBytes _) = False"
| "wireable (VOpaque _) = False"
| "wireable _ = True"

fun no_objects :: "val \<Rightarrow> bool" where
  \<comment> \<open>model fields hold JSON values, tuples and other models\<close>
  "no_objects (VModel c d) = (\<forall>p \<in> set d. no_objects (snd p))"
| "no_objects (VObj c d) = False"
| "no_objects (VDict d) = (\<forall>p \<in> set d. no_objects (snd p))"
| "no_objects (VList xs) = (\<forall>x \<in> set xs. no_objects x)"
| "no_objects (VTuple xs) = (\<forall>x \<in> set xs. no_objects x)"
| "no_objects _ = True"

lemma dump_is_json: "wireable v \<Longrightarrow> no_objects v \<Longrightarrow> json_val (dump v)"
  by (induction v rule: dump.induct) auto

fun model_fields_ok :: "val \<Rightarrow> bool" where
  "model_fields_ok (VModel c d) = (\<forall>p \<in> set d. no_objects (snd p))"
| "model_fields_ok (VObj c d) = (\<forall>p \<in> set d. model_fields_ok (snd p))"
| "model_fields_ok (VDict d) = (\<forall>p \<in> set d. model_fields_ok (snd p))"
| "model_fields_ok (VList xs) = (\<forall>x \<in> set xs. model_fields_ok x)"
| "model_fields_ok (VTuple xs) = (\<forall>x \<in> set xs. model_fields_ok x)"
| "model_fields_ok _ = True"

lemma rmap_items_json:
  assumes "rmap (\<lambda>p. rbind (f (snd p)) (\<lambda>x. Inr (fst p, x))) d = Inr e"
    and "\<And>p w. p \<in> set d \<Longrightarrow> f (snd p) = Inr w \<Longrightarrow> json_val w"
  shows "\<forall>q \<in> set e. json_val (snd q)"
proof -
  from assms(1) have "list_all2 (\<lambda>p q. f (snd p) = Inr (snd q)) d e"
    by (auto simp: rmap_Inr_iff rbind_Inr_iff elim!: list_all2_mono)
  then show ?thesis using assms(2) by (induction rule: list_all2_induct) auto
qed

lemma rmap_list_json:
  assumes "rmap f xs = Inr ys" "\<And>x w. x \<in> set xs \<Longrightarrow> f x = Inr w \<Longrightarrow> json_val w"
  shows "\<forall>y \<in> set ys. json_val y"
proof -
  from assms(1) have "list_all2 (\<lambda>x y. f x = Inr y) xs ys" by (simp add: rmap_Inr_iff)
  then show ?thesis using assms(2) by (induction rule: list_all2_induct) auto
qed

lemma to_wire_is_json:
  "to_wire sids v = Inr w \<Longrightarrow> wireable v \<Longrightarrow> model_fields_ok v \<Longrightarrow> json_val w"
proof (induction sids v arbitrary: w rule: to_wire.induct)
  case (1 sids c d)
  then have "json_val (dump (VModel c d))" by (intro dump_is_json) auto
  with 1 show ?case by (auto split: option.splits if_splits)
next
  case (2 sids c d)
  from 2(2) obtain e where e: "w = VDict e"
    "rmap (\<lambda>f. rbind (to_wire sids (snd f)) (\<lambda>x. Inr (fst f, x)))
       (filter (\<lambda>f. snd f \<noteq> VNone \<or> fst f \<in> set kept_none) d) = Inr e" by (auto simp: rbind_Inr_iff)
  from rmap_items_json [OF e(2)] 2 e(1) show ?case by (auto split: prod.splits)
next
  case (3 sids d)
  from 3(2) obtain e where e: "w = VDict e"
    "rmap (\<lambda>f. rbind (to_wire sids (snd f)) (\<lambda>x. Inr (fst f, x))) d = Inr e" by (auto simp: rbind_Inr_iff)
  from rmap_items_json [OF e(2)] 3 e(1) show ?case by (auto split: prod.splits)
next
  case (4 sids xs)
  from 4(2) obtain ys where e: "w = VList ys" "rmap (to_wire sids) xs = Inr ys" by (auto simp: rbind_Inr_iff)
  from rmap_list_json [OF e(2)] 4 e(1) show ?case by auto
next
  case (5 sids xs)
  from 5(2) obtain ys where e: "w = VList ys" "rmap (to_wire sids) xs = Inr ys" by (auto simp: rbind_Inr_iff)
  from rmap_list_json [OF e(2)] 5 e(1) show ?case by auto
qed auto

lemma rmap_id: "(\<And>x. x \<in> set xs \<Longrightarrow> f x = Inr x) \<Longrightarrow> rmap f xs = Inr xs"
  by (induction xs) auto

lemma to_wire_json: "json_val v \<Longrightarrow> to_wire sids v = Inr v"
proof (induction v rule: json_val.induct)
  case (1 xs)
  then have "rmap (to_wire sids) xs = Inr xs" by (intro rmap_id) auto
  then show ?case by simp
next
  case (2 d)
  then have "rmap (\<lambda>p. rbind (to_wire sids (snd p)) (\<lambda>x. Inr (fst p, x))) d = Inr d"
    by (intro rmap_id) auto
  then show ?case by simp
qed auto

text \<open>Converting a value without byte strings or foreign objects to its wire form gives plain JSON,
  which a second conversion leaves unchanged.\<close>
theorem to_wire_plain:
  assumes "to_wire sids v = Inr w" "wireable v" "model_fields_ok v"
  shows "json_val w \<and> to_wire sids' w = Inr w"
  using to_wire_is_json [OF assms] to_wire_json by blast

theorem to_wire_plain_witness:
  "json_val (VDict [(''content'', VList [text_part (VStr ''hi'')]), (''terminated'', VBool False),
     (''episode_truncated'', VBool False)])"
proof -
  let ?o = "observation [text_part (VStr ''hi'')] False False"
  have "to_wire [] ?o = Inr (VDict [(''content'', VList [text_part (VStr ''hi'')]), (''terminated'', VBool False),
     (''episode_truncated'', VBool False)])" by code_simp
  moreover have "wireable ?o" "model_fields_ok ?o" by code_simp+
  ultimately show ?thesis using to_wire_plain by blast
qed

section \<open>Trajectories\<close>

definition event_ok :: "lib \<Rightarrow> registry \<Rightarrow> val \<Rightarrow> val \<Rightarrow> bool" where
  "event_ok L reg manifest event \<longleftrightarrow> validate L reg ''TrajectoryEvent'' event = Inr () \<and>
     (\<forall>k \<in> set identity_fields. \<exists>a b. item event k = Inr a \<and> item manifest k = Inr b \<and> py_eq a b)"

definition events_ok :: "lib \<Rightarrow> registry \<Rightarrow> val \<Rightarrow> val list \<Rightarrow> bool" where
  "events_ok L reg manifest events \<longleftrightarrow>
     (\<forall>i < length events. event_ok L reg manifest (events ! i) \<and>
        (\<exists>s. item (events ! i) ''sequence'' = Inr s \<and> py_eq s (VInt (int i))))"

lemma add_event_ok:
  assumes "add_event L reg manifest line events = Inr events'" "events_ok L reg manifest events"
  shows "events_ok L reg manifest events'"
proof -
  from assms(1) obtain event s where e: "events' = events @ [event]" "validate L reg ''TrajectoryEvent'' event = Inr ()"
    "item event ''sequence'' = Inr s" "py_eq s (VInt (int (length events)))"
    and f: "rany (\<lambda>k. rbind (item event k) (\<lambda>a. rbind (item manifest k) (\<lambda>b. Inr (\<not> py_eq a b))))
                 identity_fields = Inr False"
    by (auto simp: add_event_def rbind_Inr_iff guard_Inr_iff split: if_splits)
  from f have "event_ok L reg manifest event"
    using e(2) by (auto simp: event_ok_def rany_False_iff rbind_Inr_iff)
  with e assms(2) show ?thesis by (auto simp: events_ok_def nth_append less_Suc_eq)
qed

lemma read_segment_ok:
  assumes "read_segment L ctx read_artifact manifest segment st = Inr st'" "events_ok L (sc_registry ctx) manifest (snd st)"
  shows "events_ok L (sc_registry ctx) manifest (snd st')"
proof -
  from assms(1) obtain content where
    "rfold (add_event L (sc_registry ctx) manifest) (splitlines content) (snd st) = Inr (snd st')"
    by (auto simp: read_segment_def rbind_Inr_iff)
  then show ?thesis using assms(2) by (rule rfold_invariant) (rule add_event_ok)
qed

lemma read_verified_Inr:
  assumes "read_verified L ctx read_artifact i reference = Inr content"
  shows "read_artifact reference = Inr content \<and> item reference ''digest'' = Inr (VStr (sha256_ref L content))"
  using assms by (auto simp: read_verified_def rbind_Inr_iff simp del: py_eq.simps split: if_splits)

text \<open>C7: A scoring trajectory that is returned comes from the digest-verified scoring checkpoint of this
  task, its events are validated, numbered 0, 1, 2 and so on without gaps, carry the identity of
  the manifest, and are as many as the manifest counts.\<close>
theorem trajectory_complete:
  assumes "read_scoring_trajectory L request ctx = Inr events"
  shows "\<exists>read_artifact content manifest tid n.
    sc_read_artifact ctx = Some read_artifact \<and>
    read_artifact (si_trajectory_ref request) = Inr content \<and>
    item (si_trajectory_ref request) ''digest'' = Inr (VStr (sha256_ref L content)) \<and>
    json_loads L content = Inr manifest \<and>
    item manifest ''trajectory_status'' = Inr (VStr ''scoring_checkpoint'') \<and>
    item manifest ''task_id'' = Inr tid \<and> py_eq tid (task_id (si_task request)) \<and>
    item manifest ''event_count'' = Inr n \<and> py_eq (VInt (int (length events))) n \<and>
    events_ok L (sc_registry ctx) manifest events"
proof -
  from assms obtain read_artifact content manifest status segments i n where
    r: "sc_read_artifact ctx = Some read_artifact"
      "read_verified L ctx read_artifact 0 (si_trajectory_ref request) = Inr content"
      "json_loads L content = Inr manifest" and
    s: "item manifest ''trajectory_status'' = Inr status"
      "(if py_eq status (VStr ''scoring_checkpoint'')
                 then rbind (item manifest ''task_id'') (\<lambda>tid. Inr (py_eq tid (task_id (si_task request))))
                 else Inr False) = Inr True" and
    e: "rfold (read_segment L ctx read_artifact manifest) segments (1, []) = Inr (i, events)" and
    n: "item manifest ''event_count'' = Inr n" "py_eq (VInt (int (length events))) n"
    by (auto simp: read_scoring_trajectory_def rbind_Inr_iff guard_Inr_iff simp del: py_eq_str split: option.splits)
  have "events_ok L (sc_registry ctx) manifest (snd (i, events))"
    using e
  proof (rule rfold_invariant [where P = "\<lambda>st. events_ok L (sc_registry ctx) manifest (snd st)"])
    show "events_ok L (sc_registry ctx) manifest (snd (1 :: nat, []))" by (simp add: events_ok_def)
  qed (rule read_segment_ok)
  moreover from s obtain tid where "status = VStr ''scoring_checkpoint''" "item manifest ''task_id'' = Inr tid"
    "py_eq tid (task_id (si_task request))" by (auto simp: rbind_Inr_iff split: if_splits)
  ultimately show ?thesis using r s(1) n read_verified_Inr [OF r(2)] by auto
qed


definition demo_identity :: dict where
  "demo_identity = map (\<lambda>k. (k, VStr ''x'')) identity_fields"

definition demo_manifest :: val where
  "demo_manifest = VDict (demo_identity @ [(''trajectory_status'', VStr ''scoring_checkpoint''), (''event_count'', VInt 1),
     (''event_segments'', VList [VDict [(''size_bytes'', VInt 1), (''digest'', VStr ''sha256:2'')]])])"

definition demo_event :: val where
  "demo_event = VDict (demo_identity @ [(''sequence'', VInt 0)])"

definition demo_lib :: lib where
  "demo_lib = rational_lib\<lparr>json_loads := (\<lambda>b. if b = [1] then Inr demo_manifest
                else if b = [2] then Inr demo_event else Inl (ValueError ''json''))\<rparr>"

definition demo_registry :: registry where
  "demo_registry = \<lparr>core = VDict [(''$id'', VStr ''urn:core''), (''$defs'', VDict (map (\<lambda>k. (k, VBool True))
     [''TrajectoryManifest'', ''TrajectoryEvent'', ''HarnessRequest'', ''HarnessResult'',
      ''uenv://schemas/vnext/EvaluationPlan'']))], extensions = []\<rparr>"

definition demo_task :: task_spec where
  "demo_task = \<lparr>task_id = VStr ''x'', dataset = VNone, sample_id = VNone, task_input = VNone, runtime = VNone\<rparr>"

definition demo_report :: val where
  "demo_report = VDict [(''tests_passed'', VInt 2), (''tests_run'', VInt 2), (''status'', VStr ''ok''),
     (''success'', VBool True), (''report_ref'', VStr ''r'')]"

definition demo_context :: scoring_context where
  "demo_context = \<lparr>sc_deadline = Fin 10, sc_registry = demo_registry, sc_ticks = (\<lambda>n. (False, Fin 1)),
     sc_run_harness = Some (\<lambda>c. Inr demo_report),
     sc_read_artifact = Some (\<lambda>r. Inr (if r = VDict [(''size_bytes'', VInt 1), (''digest'', VStr ''sha256:1'')] then [1] else [2]))\<rparr>"

definition demo_request :: score_input where
  "demo_request = \<lparr>si_task = demo_task, si_final_answer = VList [text_part (VStr ''a'')],
     si_trajectory_ref = VDict [(''size_bytes'', VInt 1), (''digest'', VStr ''sha256:1'')],
     si_state = VNone, si_private_data = VModel ''P'' [(''evaluation_plan'', VDict [(''timeout_ms'', VInt 60)])]\<rparr>"

lemma demo_trajectory: "read_scoring_trajectory demo_lib demo_request demo_context = Inr [demo_event]"
  by code_simp

theorem trajectory_complete_witness:
  "\<exists>manifest. events_ok demo_lib demo_registry manifest [demo_event]"
  using trajectory_complete [OF demo_trajectory] by (auto simp: demo_context_def)

section \<open>Harness evaluation\<close>

definition binary_reward :: "score_result \<Rightarrow> bool" where
  "binary_reward r \<longleftrightarrow> (\<exists>b. sr_success r = Some b \<and> sr_reward r = Some (Fin (of_bool b)) \<and>
     sr_status r = None \<and> sr_scorer r = None \<and> sr_error r = None)"

lemma dbl_lt_asym: "dbl_lt x y \<Longrightarrow> \<not> dbl_lt y x"
  by (cases x; cases y) (auto simp: dbl_lt_def)

lemma py_min_le:
  assumes "py_min a b = Inr m"
  shows "py_lt a m = Inr False \<and> py_lt b m = Inr False"
proof -
  from assms obtain x y where n: "num_of a = Some x" "num_of b = Some y" and m: "m = (if dbl_lt y x then b else a)"
    by (auto simp: py_min_def py_lt_def as_num_def rbind_Inr_iff split: option.splits)
  have "\<not> dbl_lt z z" for z by (simp add: dbl_lt_def)
  with n dbl_lt_asym show ?thesis unfolding m by (auto simp: py_lt_def as_num_def)
qed

lemma harness_score_Inr:
  assumes "harness_score report = Inr r"
  shows "binary_reward r \<and> get report ''success'' VNone = Inr (opt_val VBool (sr_success r)) \<and>
    get report ''status'' VNone = Inr (VStr ''ok'') \<and>
    (\<exists>p t. item report ''tests_passed'' = Inr p \<and> item report ''tests_run'' = Inr t \<and> py_lt t p = Inr False)"
proof -
  from assms obtain p t status success where
    p: "item report ''tests_passed'' = Inr p" "item report ''tests_run'' = Inr t" "\<exists>x. py_lt t p = Inr x \<and> \<not> x" and
    s: "get report ''status'' VNone = Inr status" "get report ''success'' VNone = Inr success" and
    r: "(case success of
       VBool b \<Rightarrow>
         if py_eq status (VStr ''ok'')
         then rbind (get report ''metrics'' (VList [metric ''resolved'' (VFloat (float_bool b)) ''ratio'' ''higher'']))
                (\<lambda>m. rbind (as_list m) (\<lambda>metrics.
                rbind (item report ''report_ref'') (\<lambda>report_ref.
                  Inr (empty_score\<lparr>sr_success := Some b, sr_metrics := metrics,
                         sr_reward := Some (float_bool b), sr_evidence := [report_ref]\<rparr>))))
         else Inl (ValueError ''Harness must complete and provide explicit success'')
     | _ \<Rightarrow> Inl (ValueError ''Harness must complete and provide explicit success'')) = Inr r"
    unfolding harness_score_def rbind_Inr_iff guard_Inr_iff by blast
  from r obtain b where "success = VBool b" "status = VStr ''ok''" "sr_success r = Some b"
    "sr_reward r = Some (float_bool b)" "sr_status r = None" "sr_scorer r = None" "sr_error r = None"
    by (cases success) (auto simp: rbind_Inr_iff empty_score_def simp del: py_eq.simps split: if_splits)
  with p s show ?thesis by (auto simp: binary_reward_def float_bool_def)
qed

lemma int_of_dbl_Inr: "int_of_dbl x = Inr i \<longleftrightarrow> (\<exists>r. x = Fin r \<and> i = py_trunc r)"
  by (cases x) (auto simp: int_of_dbl_def)

lemma milliseconds_left:
  assumes "int_of_dbl (dbl_mul_pos 1000 (dbl_sub (Fin d) (Fin now))) = Inr ms" and "d - now < 2 ^ 40"
  shows "max 1 ms \<le> max 1 \<lceil>1000 * (d - now)\<rceil> \<and> \<lfloor>1000 * (d - now)\<rfloor> - 1 \<le> max 1 ms"
proof -
  from assms(1) obtain left z where r: "rnd (d - now) = Fin left" "rnd (1000 * left) = Fin z" "ms = py_trunc z"
    by (cases "rnd (d - now)") (auto simp: int_of_dbl_Inr)
  show ?thesis
  proof (cases "d \<le> now")
    case True
    with r have "left \<le> 0" using rnd_nonpos [of "d - now" left] by simp
    with r have "z \<le> 0" using rnd_nonpos [of "1000 * left" z] by simp
    then have "ms \<le> 0" unfolding r(3) py_trunc_def by simp
    with True show ?thesis by (simp add: floor_le_iff)
  next
    case False
    with rnd_error [of "d - now" 40] assms(2) r(1)
    have left: "0 \<le> left" "\<bar>left - (d - now)\<bar> \<le> 2 ^ 40 / 2 ^ 54" by auto
    from left(2) have "left - (d - now) \<le> 1 / 2 ^ 14" unfolding abs_le_iff by simp
    with assms(2) have "1000 * left < 2 ^ 51" by simp
    with rnd_error [of "1000 * left" 51] left(1) r(2)
    have z: "0 \<le> z" "\<bar>z - 1000 * left\<bar> \<le> 2 ^ 51 / 2 ^ 54" by auto
    then have "\<bar>z - 1000 * left\<bar> \<le> 1 / 8" "\<bar>left - (d - now)\<bar> \<le> 1 / 2 ^ 14" using left(2) by simp_all
    then have "\<bar>z - 1000 * (d - now)\<bar> \<le> 1 / 2" unfolding abs_le_iff by simp
    moreover have "ms = \<lfloor>z\<rfloor>" using r(3) z(1) by (simp add: py_trunc_def)
    ultimately show ?thesis by linarith
  qed
qed

lemma remaining_timeout_Inr:
  assumes "remaining_timeout_ms ctx i = Inr left"
  shows "\<exists>d now. sc_deadline ctx = Fin d \<and> snd (sc_ticks ctx (Suc i)) = Fin now \<and> 1 \<le> left \<and>
    (d - now < 2 ^ 40 \<longrightarrow> left \<le> max 1 \<lceil>1000 * (d - now)\<rceil> \<and> \<lfloor>1000 * (d - now)\<rfloor> - 1 \<le> left)"
proof -
  from assms obtain ms where
    ms: "int_of_dbl (dbl_mul_pos 1000 (dbl_sub (sc_deadline ctx) (snd (sc_ticks ctx (Suc i))))) = Inr ms"
    and left: "left = max 1 ms" by (auto simp: remaining_timeout_ms_def rbind_Inr_iff)
  then obtain d now where t: "sc_deadline ctx = Fin d" "snd (sc_ticks ctx (Suc i)) = Fin now"
    by (cases "sc_deadline ctx"; cases "snd (sc_ticks ctx (Suc i))") (auto simp: int_of_dbl_Inr)
  with ms left milliseconds_left [of d now ms] show ?thesis by simp
qed

lemma scoring_check_Inr:
  "scoring_check ctx i = Inr () \<longleftrightarrow>
   \<not> fst (sc_ticks ctx i) \<and> \<not> dbl_le (sc_deadline ctx) (snd (sc_ticks ctx i))"
  by (simp add: scoring_check_def context_check_def)

text \<open>C9: A harness that ran was given a positive time, which is the plan's timeout or the milliseconds
  left and exceeds neither; the milliseconds left are at least one and, for deadlines less than
  2^40 seconds ahead, lie between the exact rational time from the last look at the clock to the
  deadline, rounded down less one, and the same rounded up (or one). At the two looks before, the
  attempt was not cancelled and the deadline not reached, and the score repeats the report's
  explicit verdict with the reward 1 or 0 for it.\<close>
theorem harness_budget_and_verdict:
  assumes "evaluate_harness L sids request ctx = Inr r"
  shows "\<exists>run_harness plan timeout deadline now left remaining command report.
    sc_run_harness ctx = Some run_harness \<and> run_harness command = Inr report \<and>
    (\<forall>i < 2. \<not> fst (sc_ticks ctx i) \<and> \<not> dbl_le (sc_deadline ctx) (snd (sc_ticks ctx i))) \<and>
    item (si_private_data request) ''evaluation_plan'' = Inr plan \<and> item plan ''timeout_ms'' = Inr timeout \<and>
    sc_deadline ctx = Fin deadline \<and> snd (sc_ticks ctx 2) = Fin now \<and> 1 \<le> left \<and>
    (deadline - now < 2 ^ 40 \<longrightarrow>
       left \<le> max 1 \<lceil>1000 * (deadline - now)\<rceil> \<and> \<lfloor>1000 * (deadline - now)\<rfloor> - 1 \<le> left) \<and>
    item command ''remaining_timeout_ms'' = Inr remaining \<and> remaining \<in> {timeout, VInt left} \<and>
    py_lt (VInt 0) remaining = Inr True \<and> py_lt timeout remaining = Inr False \<and> py_lt (VInt left) remaining = Inr False \<and>
    validate L (sc_registry ctx) ''HarnessResult'' report = Inr () \<and>
    get report ''success'' VNone = Inr (opt_val VBool (sr_success r)) \<and> binary_reward r"
proof -
  from assms obtain run_harness plan timeout left remaining command report where
    h: "sc_run_harness ctx = Some run_harness" "run_harness command = Inr report"
      "item (si_private_data request) ''evaluation_plan'' = Inr plan" "item plan ''timeout_ms'' = Inr timeout"
      "remaining_timeout_ms ctx 1 = Inr left" "py_min timeout (VInt left) = Inr remaining"
      "py_lt (VInt 0) remaining = Inr True" "harness_command sids request remaining = Inr command"
      "validate L (sc_registry ctx) ''HarnessResult'' report = Inr ()" "harness_score report = Inr r"
      "scoring_check ctx 0 = Inr ()"
    by (auto simp: evaluate_harness_def rbind_Inr_iff guard_Inr_iff split: option.splits)
  from h(5) have "scoring_check ctx 1 = Inr ()" by (auto simp: remaining_timeout_ms_def rbind_Inr_iff)
  with h(11) have ticks: "\<forall>i < 2. \<not> fst (sc_ticks ctx i) \<and> \<not> dbl_le (sc_deadline ctx) (snd (sc_ticks ctx i))"
    by (simp add: scoring_check_Inr less_2_cases_iff)
  from h(8) have command: "item command ''remaining_timeout_ms'' = Inr remaining"
    by (auto simp: harness_command_def rbind_Inr_iff ditem_def split: if_splits)
  have "remaining \<in> {timeout, VInt left}" "py_lt timeout remaining = Inr False" "py_lt (VInt left) remaining = Inr False"
    using py_min_le [OF h(6)] h(6) by (auto simp: py_min_def rbind_Inr_iff split: if_splits)
  with remaining_timeout_Inr [OF h(5)] ticks command h(1-4,7,9) harness_score_Inr [OF h(10)] show ?thesis
    unfolding Suc_1 by blast
qed

lemma demo_remaining: "remaining_timeout_ms demo_context 1 = Inr 9000"
proof -
  have "rnd 9 = Fin 9" "rnd 9000 = Fin 9000" using rnd_of_nat [of 9] rnd_of_nat [of 9000] by simp_all
  moreover have "scoring_check demo_context 1 = Inr ()" by code_simp
  ultimately show ?thesis
    by (simp add: remaining_timeout_ms_def demo_context_def int_of_dbl_def py_trunc_def)
qed

lemma demo_harness: "ok (evaluate_harness demo_lib [(''P'', ''urn:p'')] demo_request demo_context)"
proof -
  let ?plan = "VDict [(''timeout_ms'', VInt 60)]"
  have 1: "scoring_check demo_context 0 = Inr ()"
    "item (si_private_data demo_request) ''evaluation_plan'' = Inr ?plan"
    "(if si_private_data demo_request = VNone then Inr False
      else rbind (model_dump (si_private_data demo_request)) (\<lambda>d. has d ''evaluation_plan'')) = Inr True"
    "validate demo_lib (sc_registry demo_context) ''uenv://schemas/vnext/EvaluationPlan'' ?plan = Inr ()"
    "item ?plan ''timeout_ms'' = Inr (VInt 60)" "py_min (VInt 60) (VInt 9000) = Inr (VInt 60)"
    "py_lt (VInt 0) (VInt 60) = Inr True" by code_simp+
  have "ok (rbind (harness_command [(''P'', ''urn:p'')] demo_request (VInt 60)) (\<lambda>command.
         rbind (validate demo_lib (sc_registry demo_context) ''HarnessRequest'' command) (\<lambda>_.
         rbind (Inr demo_report) (\<lambda>report.
         rbind (validate demo_lib (sc_registry demo_context) ''HarnessResult'' report) (\<lambda>_.
           harness_score report)))))" by code_simp
  moreover have "sc_run_harness demo_context = Some (\<lambda>c. Inr demo_report)" by (simp add: demo_context_def)
  ultimately show ?thesis
    unfolding evaluate_harness_def 1 demo_remaining by (simp only: 1 demo_remaining rbind.simps guard_simps option.case)
qed

theorem harness_budget_and_verdict_witness:
  "\<exists>r. evaluate_harness demo_lib [(''P'', ''urn:p'')] demo_request demo_context = Inr r \<and> binary_reward r"
  using demo_harness harness_budget_and_verdict unfolding ok_iff by blast

end
