(* ===== verification/Tool_Host.thy ===== *)
theory Tool_Host
  imports Sdk_Core
begin

text \<open>
  Tool definitions and the attempt-local tool table (\<open>reference/sdk/src/uenv/sdk/tools.py\<close>).

  A tool body is a function of its keyword arguments, its context and the world it acts on, and
  returns the new world with its result or exception. The signature of an authored function is
  data: its parameters with kind, hint and default. A context shows the resolved configuration,
  the environment it may act on (\<open>VNone\<close> when it has none) and its \<open>freeze\<close> callable. Callables
  that are only compared and called at shutdown are named; what calling one does is a parameter.
\<close>

section \<open>Authored tools\<close>

datatype param_kind = POSITIONAL_ONLY | POSITIONAL_OR_KEYWORD | VAR_POSITIONAL | KEYWORD_ONLY | VAR_KEYWORD

record param =
  p_name :: string
  p_kind :: param_kind
  p_hint :: "ann option"
  p_default :: "val option"

record tool_context =
  tc_config :: val
  tc_environment :: val
  tc_freeze :: "string option"

type_synonym 'w body = "dict \<Rightarrow> tool_context option \<Rightarrow> 'w \<Rightarrow> 'w \<times> val res"

record 'w py_function =
  f_name :: string
  f_module :: string
  f_doc :: string
  f_params :: "param list"
  f_return :: "ann option"
  f_body :: "'w body"

record 'w tool_definition =
  td_description :: string
  td_input_schema :: val
  td_execute :: "val \<Rightarrow> tool_context \<Rightarrow> 'w \<Rightarrow> 'w \<times> val res"
  td_entrypoint :: "string option"
  td_execution_scope :: string
  td_required_capabilities :: "string list"
  td_side_effect :: string
  td_shutdown :: "string option"

definition observation_hint :: ann where
  "observation_hint = AOther ''Observation''"

definition add_param :: "param \<Rightarrow> (string \<times> ann) list \<times> dict \<Rightarrow> ((string \<times> ann) list \<times> dict) res" where
  "add_param p acc =
     (if p_name p = ''context''
      then rbind (guard (p_kind p = KEYWORD_ONLY) (TypeError ''Tool context must be keyword-only''))
             (\<lambda>_. Inr acc)
      else if p_kind p \<notin> {POSITIONAL_OR_KEYWORD, KEYWORD_ONLY}
      then Inl (TypeError ''Tool parameters must have explicit names'')
      else (case p_hint p of
              None \<Rightarrow> Inl (TypeError (''Tool parameter needs a type: '' @ p_name p))
            | Some hint \<Rightarrow>
                Inr (AList.update (p_name p) hint (fst acc),
                     (case p_default p of None \<Rightarrow> snd acc
                      | Some v \<Rightarrow> AList.update (p_name p) v (snd acc)))))"

definition arguments_class :: "(string \<times> ann) list \<times> dict \<Rightarrow> cls" where
  "arguments_class acc = \<lparr>cls_doc = [], cls_hints = fst acc, cls_defaults = snd acc\<rparr>"

definition class_schema :: "ctab \<Rightarrow> string \<Rightarrow> string \<Rightarrow> val res" where
  \<comment> \<open>\<open>model_json_schema\<close> of a class that was just created, so that it is not bound yet\<close>
  "class_schema ct name schema_id = rbind (snd (model_json_schema ct name schema_id [])) (\<lambda>d. Inr (VDict d))"

definition output_schema :: "ctab \<Rightarrow> string \<Rightarrow> string \<Rightarrow> ann \<Rightarrow> val option res" where
  "output_schema ct name schema_id hint =
     (if hint = observation_hint then Inr None
      else rbind (class_schema ((name @ ''Return'', \<lparr>cls_doc = [], cls_hints = [(''value'', hint)], cls_defaults = []\<rparr>) # ct)
                    (name @ ''Return'') (schema_id @ '':return''))
             (\<lambda>s. Inr (Some s)))"

fun output_value :: "val \<Rightarrow> val" where
  "output_value (VModel c d) = dump (VModel c d)"
| "output_value v = v"

fun is_observation :: "val \<Rightarrow> bool" where
  "is_observation (VObj c d) = (c = ''Observation'')"
| "is_observation _ = False"

definition check_output :: "lib \<Rightarrow> val option \<Rightarrow> val \<Rightarrow> val res" where
  "check_output L validator result =
     (case validator of
        Some schema \<Rightarrow>
          rbind (guard (conforms L [] schema (VDict [(''value'', output_value result)]))
                   (ValidationError ''output'')) (\<lambda>_. Inr result)
      | None \<Rightarrow>
          if is_observation result then Inr result
          else Inl (TypeError ''Tool declared Observation but returned another type''))"

definition tool_execute ::
  "lib \<Rightarrow> nat \<Rightarrow> ctab \<Rightarrow> string \<Rightarrow> string list \<Rightarrow> bool \<Rightarrow> val option \<Rightarrow> 'w body \<Rightarrow>
   val \<Rightarrow> tool_context \<Rightarrow> 'w \<Rightarrow> 'w \<times> val res" where
  "tool_execute L n ct model names wants_context validator body arguments context w =
     (case rbind (as_dict arguments) (init_model n ct model) of
        Inl e \<Rightarrow> (w, Inl e)
      | Inr m \<Rightarrow>
          (case rmap (\<lambda>name. rbind (item m name) (\<lambda>x. Inr (name, x))) names of
             Inl e \<Rightarrow> (w, Inl e)
           | Inr kwargs \<Rightarrow>
               (let (w', result) = body kwargs (if wants_context then Some context else None) w
                in (w', rbind result (check_output L validator)))))"

definition tool ::
  "lib \<Rightarrow> nat \<Rightarrow> ctab \<Rightarrow> 'w py_function \<Rightarrow> string \<Rightarrow> string list \<Rightarrow> string \<Rightarrow> 'w tool_definition res" where
  "tool L n ct f execution_scope required_capabilities side_effect =
     rbind (guard (execution_scope \<in> {''sandbox'', ''agent_state'', ''external_service''})
              (ValueError ''INVALID_TOOL_EXECUTION_SCOPE'')) (\<lambda>_.
     rbind (guard (side_effect \<in> {''read_only'', ''idempotent'', ''non_idempotent''})
              (ValueError ''INVALID_TOOL_SIDE_EFFECT'')) (\<lambda>_.
     rbind (rfold add_param (f_params f) ([], [])) (\<lambda>acc.
     let model = f_name f @ ''Arguments''; ct' = (model, arguments_class acc) # ct;
         schema_id = ''urn:uenv:tool:'' @ f_module f @ '':'' @ f_name f
     in rbind (class_schema ct' model schema_id) (\<lambda>schema.
        rbind (guard (check_schema L schema) (ValidationError ''SchemaError'')) (\<lambda>_.
        case f_return f of
          None \<Rightarrow> Inl (TypeError ''Tool return needs a type'')
        | Some hint \<Rightarrow>
            rbind (output_schema ct (f_name f) schema_id hint) (\<lambda>validator.
              Inr \<lparr>td_description = (if f_doc f \<noteq> [] then f_doc f else f_name f),
                   td_input_schema = schema,
                   td_execute = tool_execute L n ct' model (map fst (fst acc))
                     (\<exists>p \<in> set (f_params f). p_name p = ''context'') validator (f_body f),
                   td_entrypoint = Some (f_module f @ '':'' @ f_name f),
                   td_execution_scope = execution_scope,
                   td_required_capabilities = required_capabilities,
                   td_side_effect = side_effect, td_shutdown = None\<rparr>))))))"

section \<open>Observations\<close>

fun observation_from_output :: "lib \<Rightarrow> sids \<Rightarrow> val \<Rightarrow> val res" where
  "observation_from_output L sids (VStr s) = Inr (observation [text_part (VStr s)] False False)"
| "observation_from_output L sids (VModel c d) =
     rbind (structured_part sids (VModel c d)) (\<lambda>p. Inr (observation [p] False False))"
| "observation_from_output L sids (VObj c d) =
     (if c = ''Observation'' then Inr (VObj c d) else Inl (TypeError ''Unsupported tool return type''))"
| "observation_from_output L sids v =
     (if v = VNone \<or> num_of v \<noteq> None \<or> is_list v \<or> is_dict v
      then rbind (dumps L strict_opts v) (\<lambda>t. Inr (observation [text_part (VStr t)] False False))
      else Inl (TypeError ''Unsupported tool return type''))"

section \<open>The host\<close>

record 'w tool_host =
  tools :: "(string \<times> val \<times> 'w tool_definition \<times> tool_context) list"
  frozen :: bool
  prepared :: bool
  settled :: bool

definition new_tool_host :: "'w tool_host" where
  "new_tool_host = \<lparr>tools = [], frozen = False, prepared = False, settled = False\<rparr>"

definition validate_call :: "lib \<Rightarrow> 'w tool_host \<Rightarrow> val \<Rightarrow> val \<Rightarrow> unit res" where
  "validate_call L host binding call =
     rbind (item call ''name'') (\<lambda>nm. rbind (as_str nm) (\<lambda>name.
     case map_of (tools host) name of
       None \<Rightarrow> Inl (ValueError ''TOOL_CALL_BINDING_MISMATCH'')
     | Some (bound, definition, context) \<Rightarrow>
         rbind (if \<not> py_eq bound binding then Inr False
                else rbind (item call ''implementation'') (\<lambda>a.
                     rbind (item binding ''implementation'') (\<lambda>b. Inr (py_eq a b)))) (\<lambda>matches.
         rbind (guard matches (ValueError ''TOOL_CALL_BINDING_MISMATCH'')) (\<lambda>_.
         rbind (item call ''arguments'') (\<lambda>arguments.
         rbind (has arguments ''context'') (\<lambda>injected.
         rbind (guard (\<not> injected) (ValueError ''TOOL_CONTEXT_IS_SYSTEM_INJECTED'')) (\<lambda>_.
           guard (conforms L [] (td_input_schema definition) arguments) (ValidationError ''arguments''))))))))"

definition native_matches :: "val \<Rightarrow> val \<Rightarrow> val \<Rightarrow> unit res" where
  "native_matches binding owner agent =
     (if owner = VNone then Inr ()
      else rbind (guard (py_eq owner agent) (ValueError ''NATIVE_TOOL_AGENT_MISMATCH'')) (\<lambda>_.
        rbind (rany (\<lambda>k. rbind (item binding ''implementation'') (\<lambda>i. rbind (item i k) (\<lambda>a.
                 rbind (item owner k) (\<lambda>b. Inr (\<not> py_eq a b))))) [''version'', ''digest'']) (\<lambda>differs.
          guard (\<not> differs) (ValueError ''NATIVE_TOOL_VERSION_MISMATCH''))))"

definition lookup :: "('k \<times> 'v) list \<Rightarrow> 'k \<Rightarrow> pyerr \<Rightarrow> 'v res" where
  "lookup d k e = (case map_of d k of None \<Rightarrow> Inl e | Some x \<Rightarrow> Inr x)"

definition stage_tool ::
  "lib \<Rightarrow> registry \<Rightarrow> (string \<times> 'w tool_definition) list \<Rightarrow> (string \<times> tool_context) list \<Rightarrow> val \<Rightarrow> val \<Rightarrow>
   (string \<times> val \<times> 'w tool_definition \<times> tool_context) list \<Rightarrow>
   (string \<times> val \<times> 'w tool_definition \<times> tool_context) list res" where
  "stage_tool L reg definitions contexts agent binding staged =
     rbind (item binding ''name'') (\<lambda>nm. rbind (as_str nm) (\<lambda>name.
     rbind (guard (map_of staged name = None) (ValueError ''DUPLICATE_TOOL_NAME'')) (\<lambda>_.
     rbind (get binding ''native_agent'' VNone) (\<lambda>owner.
     rbind (native_matches binding owner agent) (\<lambda>_.
     rbind (item binding ''implementation'') (\<lambda>i. rbind (item i ''id'') (\<lambda>k. rbind (as_str k) (\<lambda>key.
     rbind (lookup definitions key (KeyError key)) (\<lambda>definition.
     rbind (item binding ''config'') (\<lambda>config.
     rbind (validate L reg ''TypedConfig'' config) (\<lambda>_.
     rbind (guard (check_schema L (td_input_schema definition)) (ValidationError ''SchemaError'')) (\<lambda>_.
     rbind (lookup contexts name (KeyError name)) (\<lambda>context.
     rbind (item config ''data'') (\<lambda>data.
     rbind (guard (py_eq (tc_config context) data) (ValueError ''TOOL_CONFIG_MISMATCH'')) (\<lambda>_.
       Inr (staged @ [(name, binding, definition, context)]))))))))))))))))"

definition prepare ::
  "lib \<Rightarrow> registry \<Rightarrow> val list \<Rightarrow> (string \<times> 'w tool_definition) list \<Rightarrow> (string \<times> tool_context) list \<Rightarrow> val \<Rightarrow>
   'w tool_host \<Rightarrow> 'w tool_host \<times> val list res" where
  "prepare L reg bindings definitions contexts agent host =
     (if prepared host \<or> frozen host then (host, Inl (RuntimeError ''TOOL_HOST_ALREADY_PREPARED''))
      else (case rfold (stage_tool L reg definitions contexts agent) bindings [] of
              Inl e \<Rightarrow> (host, Inl e)
            | Inr staged \<Rightarrow>
                (host\<lparr>tools := staged, prepared := True\<rparr>, Inr (map (\<lambda>t. fst (snd t)) staged))))"

definition tool_result :: "val \<Rightarrow> val \<Rightarrow> val" where
  "tool_result call_id obs = VDict [(''tool_call_id'', call_id), (''status'', VStr ''ok''),
     (''observation'', obs), (''output_truncated'', VBool False)]"

definition call_target :: "lib \<Rightarrow> 'w tool_host \<Rightarrow> val \<Rightarrow> ('w tool_definition \<times> tool_context \<times> val) res" where
  \<comment> \<open>the checks of \<open>_execute\<close> before the tool runs: its definition, context and arguments\<close>
  "call_target L host call =
     rbind (guard (\<not> frozen host) (RuntimeError ''TOOL_HOST_FROZEN'')) (\<lambda>_.
     rbind (item call ''name'') (\<lambda>nm. rbind (as_str nm) (\<lambda>name.
     rbind (lookup (tools host) name (KeyError name)) (\<lambda>(binding, definition, context).
     rbind (item call ''implementation'') (\<lambda>a. rbind (item binding ''implementation'') (\<lambda>b.
     rbind (guard (py_eq a b) (ValueError ''TOOL_CALL_BINDING_MISMATCH'')) (\<lambda>_.
     rbind (item call ''arguments'') (\<lambda>arguments.
     rbind (dumps L strict_opts arguments) (\<lambda>_.
     rbind (has arguments ''context'') (\<lambda>injected.
     rbind (guard (\<not> injected) (ValueError ''TOOL_CONTEXT_IS_SYSTEM_INJECTED'')) (\<lambda>_.
     rbind (guard (conforms L [] (td_input_schema definition) arguments) (ValidationError ''arguments'')) (\<lambda>_.
       Inr (definition, context, arguments)))))))))))))"

definition call_outcome :: "lib \<Rightarrow> sids \<Rightarrow> registry \<Rightarrow> val \<Rightarrow> tool_context \<Rightarrow> val \<Rightarrow> val res" where
  \<comment> \<open>what \<open>_execute\<close> makes of the returned value\<close>
  "call_outcome L sids reg call context v =
     rbind (observation_from_output L sids v) (\<lambda>o1.
     rbind (to_wire sids o1) (\<lambda>obs.
     rbind (validate L reg ''Observation'' obs) (\<lambda>_.
     rbind (item obs ''terminated'') (\<lambda>t.
     rbind (if truthy t then Inr True else rbind (item obs ''episode_truncated'') (\<lambda>u. Inr (truthy u))) (\<lambda>ended.
     rbind (guard (\<not> (ended \<and> tc_environment context = VNone)) (ValueError ''TOOL_HAS_NO_ENVIRONMENT_STATE'')) (\<lambda>_.
     rbind (item call ''tool_call_id'') (\<lambda>i. Inr (tool_result i obs))))))))"

definition execute_call :: "lib \<Rightarrow> sids \<Rightarrow> registry \<Rightarrow> 'w tool_host \<Rightarrow> val \<Rightarrow> 'w \<Rightarrow> 'w \<times> val res" where
  "execute_call L sids reg host call w =
     (case call_target L host call of
        Inl e \<Rightarrow> (w, Inl e)
      | Inr (definition, context, arguments) \<Rightarrow>
          (let (w', v) = td_execute definition arguments context w
           in (w', rbind v (call_outcome L sids reg call context))))"

definition shutdown_names :: "'w tool_host \<Rightarrow> string list" where
  \<comment> \<open>the shutdown callables in table order, each once\<close>
  "shutdown_names host =
     fold (\<lambda>x seen. if x \<in> set seen then seen else seen @ [x])
       (concat (map (\<lambda>(_, _, definition, context).
          (case td_shutdown definition of None \<Rightarrow> [] | Some s \<Rightarrow> [s]) @
          (case tc_freeze context of None \<Rightarrow> [] | Some s \<Rightarrow> [s])) (tools host))) []"

fun run_shutdowns :: "(string \<Rightarrow> 'w \<Rightarrow> 'w \<times> unit res) \<Rightarrow> string list \<Rightarrow> 'w \<Rightarrow> 'w \<times> unit res" where
  "run_shutdowns run [] w = (w, Inr ())"
| "run_shutdowns run (s # ss) w =
     (case run s w of (w', Inl e) \<Rightarrow> (w', Inl e) | (w', Inr _) \<Rightarrow> run_shutdowns run ss w')"

definition freeze :: "(string \<Rightarrow> 'w \<Rightarrow> 'w \<times> unit res) \<Rightarrow> bool \<Rightarrow> 'w tool_host \<Rightarrow> 'w \<Rightarrow> 'w tool_host \<times> 'w \<times> unit res" where
  \<comment> \<open>the flag tells whether a background thread is alive at the end\<close>
  "freeze run threads_alive host w =
     (if settled host then (host, w, Inr ())
      else (case run_shutdowns run (shutdown_names host) w of
              (w', Inl e) \<Rightarrow> (host\<lparr>frozen := True\<rparr>, w', Inl e)
            | (w', Inr _) \<Rightarrow>
                if threads_alive
                then (host\<lparr>frozen := True\<rparr>, w', Inl (RuntimeError ''TOOL_BACKGROUND_WRITER_NOT_STOPPED''))
                else (host\<lparr>frozen := True, settled := True\<rparr>, w', Inr ())))"

section \<open>Agent side\<close>

definition native_execute ::
  "(val \<Rightarrow> val res) \<Rightarrow> (val \<Rightarrow> tool_context \<Rightarrow> 'w \<Rightarrow> 'w \<times> val res) \<Rightarrow> (val \<Rightarrow> val res) \<Rightarrow>
   val \<Rightarrow> tool_context \<Rightarrow> 'w \<Rightarrow> 'w \<times> val res" where
  \<comment> \<open>\<open>NativeToolAdapter.execute\<close>: decode the arguments, run the native tool, encode its return\<close>
  "native_execute decode run encode arguments context w =
     (case decode arguments of
        Inl e \<Rightarrow> (w, Inl e)
      | Inr action \<Rightarrow> (let (w', r) = run action context w in (w', rbind r encode)))"

definition native_definition ::
  "string \<Rightarrow> val \<Rightarrow> (val \<Rightarrow> val res) \<Rightarrow> (val \<Rightarrow> tool_context \<Rightarrow> 'w \<Rightarrow> 'w \<times> val res) \<Rightarrow> (val \<Rightarrow> val res) \<Rightarrow>
   'w tool_definition" where
  "native_definition description input_schema decode run encode =
     \<lparr>td_description = description, td_input_schema = input_schema,
      td_execute = native_execute decode run encode, td_entrypoint = None,
      td_execution_scope = ''sandbox'', td_required_capabilities = [],
      td_side_effect = ''non_idempotent'', td_shutdown = None\<rparr>"

definition by_name :: "val list \<Rightarrow> dict res" where
  \<comment> \<open>\<open>{item["name"]: item for item in items}\<close>\<close>
  "by_name items =
     rbind (rmap (\<lambda>x. rbind (item x ''name'') (\<lambda>n. rbind (as_str n) (\<lambda>name. Inr (name, x)))) items)
       (\<lambda>ps. Inr (fold (\<lambda>p d. AList.update (fst p) (snd p) d) ps []))"

definition verify_agent_tools :: "val list \<Rightarrow> val list \<Rightarrow> unit res" where
  "verify_agent_tools bindings actual_tools =
     rbind (by_name bindings) (\<lambda>expected.
     rbind (rmap (\<lambda>x. rbind (item x ''name'') as_str) actual_tools) (\<lambda>names.
     rbind (guard (distinct names) (ValueError ''AGENT_TOOL_TABLE_MISMATCH'')) (\<lambda>_.
     rbind (by_name actual_tools) (\<lambda>actual.
       guard (py_eq (VDict expected) (VDict actual)) (ValueError ''AGENT_TOOL_TABLE_MISMATCH'')))))"

definition agent_call_tool :: "(val \<Rightarrow> 'w \<Rightarrow> 'w \<times> val res) \<Rightarrow> val \<Rightarrow> 'w \<Rightarrow> 'w \<times> val res" where
  \<comment> \<open>\<open>AgentToolClient.call_tool\<close> only forwards to the Worker's step\<close>
  "agent_call_tool step call w = step call w"

end
