(* ===== verification/Tool_Correct.thy ===== *)
theory Tool_Correct
  imports Tool_Host Sdk_Correct Modeling_Correct
begin

text \<open>
  What the Worker and the agent rely on in the tool table: preparation fixes one table with unique
  names and matching configurations; a call acts on the world only after every check; an admitted
  call reaches its tool; nothing runs in a frozen table; the agent's table is the selected one;
  the context parameter is never part of a tool's schema.
\<close>

section \<open>Preparation\<close>

definition tool_entry_ok :: "lib \<Rightarrow> registry \<Rightarrow> val \<Rightarrow> string \<times> val \<times> 'w tool_definition \<times> tool_context \<Rightarrow> bool" where
  "tool_entry_ok L reg agent e \<longleftrightarrow> (case e of (name, binding, dfn, cx) \<Rightarrow>
     item binding ''name'' = Inr (VStr name) \<and>
     (\<exists>config data. item binding ''config'' = Inr config \<and> validate L reg ''TypedConfig'' config = Inr () \<and>
        item config ''data'' = Inr data \<and> py_eq (tc_config cx) data) \<and>
     (\<exists>owner. get binding ''native_agent'' VNone = Inr owner \<and> native_matches binding owner agent = Inr ()) \<and>
     check_schema L (td_input_schema dfn))"

lemma as_str_Inr [simp]: "as_str v = Inr s \<longleftrightarrow> v = VStr s"
  by (cases v) auto

lemma lookup_Inr_iff: "lookup d k e = Inr x \<longleftrightarrow> map_of d k = Some x"
  by (auto simp: lookup_def split: option.splits)

lemma stage_tool_Inr:
  assumes "stage_tool L reg definitions contexts agent binding staged = Inr staged'"
  obtains name dfn cx where "staged' = staged @ [(name, binding, dfn, cx)]"
    "map_of staged name = None" "tool_entry_ok L reg agent (name, binding, dfn, cx)"
proof -
  from assms obtain nm name owner i k key dfn config cx data where
    s: "item binding ''name'' = Inr nm" "as_str nm = Inr name" "map_of staged name = None"
      "get binding ''native_agent'' VNone = Inr owner" "native_matches binding owner agent = Inr ()"
      "item binding ''config'' = Inr config" "validate L reg ''TypedConfig'' config = Inr ()"
      "check_schema L (td_input_schema dfn)" "item config ''data'' = Inr data"
      "py_eq (tc_config cx) data" "staged' = staged @ [(name, binding, dfn, cx)]"
    unfolding stage_tool_def rbind_Inr_iff guard_Inr_iff by auto
  then show thesis by (intro that) (auto simp: tool_entry_ok_def)
qed

lemma staged_ok:
  assumes "rfold (stage_tool L reg definitions contexts agent) bindings staged = Inr staged'"
    and "distinct (map fst staged)" "\<forall>e \<in> set staged. tool_entry_ok L reg agent e"
  shows "distinct (map fst staged') \<and> (\<forall>e \<in> set staged'. tool_entry_ok L reg agent e) \<and>
    map (\<lambda>t. fst (snd t)) staged' = map (\<lambda>t. fst (snd t)) staged @ bindings"
  using assms
proof (induction bindings arbitrary: staged)
  case (Cons b bs)
  then obtain mid where m: "stage_tool L reg definitions contexts agent b staged = Inr mid"
    "rfold (stage_tool L reg definitions contexts agent) bs mid = Inr staged'" by (auto simp: rbind_Inr_iff)
  from m(1) show ?case
  proof (rule stage_tool_Inr)
    fix name dfn cx
    assume t: "mid = staged @ [(name, b, dfn, cx)]" "map_of staged name = None"
      "tool_entry_ok L reg agent (name, b, dfn, cx)"
    then have "distinct (map fst mid)" "\<forall>e \<in> set mid. tool_entry_ok L reg agent e"
      using Cons.prems(2,3) by (auto simp: map_of_eq_None_iff)
    from Cons.IH [OF m(2) this] t show ?thesis by simp
  qed
qed simp

text \<open>C10: Preparing the tool table either raises and leaves the host as it was, or fixes exactly the
  selected bindings under distinct names, each with a validated configuration that its context
  shows and a matching native agent, and cannot be repeated.\<close>
theorem prepare_fixes_table:
  assumes "prepare L reg bindings definitions contexts agent host = (host', r)"
  shows "case r of
     Inl e \<Rightarrow> host' = host
   | Inr bound \<Rightarrow> bound = bindings \<and> map (\<lambda>t. fst (snd t)) (tools host') = bindings \<and> prepared host' \<and>
       distinct (map fst (tools host')) \<and> (\<forall>e \<in> set (tools host'). tool_entry_ok L reg agent e) \<and>
       (\<forall>bindings2 definitions2 contexts2 agent2.
          prepare L reg bindings2 definitions2 contexts2 agent2 host' =
          (host', Inl (RuntimeError ''TOOL_HOST_ALREADY_PREPARED'')))"
proof (cases "prepared host \<or> frozen host")
  case True
  with assms show ?thesis by (auto simp: prepare_def)
next
  case False
  show ?thesis
  proof (cases "rfold (stage_tool L reg definitions contexts agent) bindings []")
    case (Inl e)
    with assms False show ?thesis by (auto simp: prepare_def)
  next
    case (Inr staged)
    with assms False have "host' = host\<lparr>tools := staged, prepared := True\<rparr>"
      "r = Inr (map (\<lambda>t. fst (snd t)) staged)" by (auto simp: prepare_def)
    with staged_ok [OF Inr] show ?thesis by (simp add: prepare_def)
  qed
qed

section \<open>Calls\<close>

lemma frozen_call: "frozen host \<Longrightarrow> execute_call L sids reg host call w = (w, Inl (RuntimeError ''TOOL_HOST_FROZEN''))"
  by (simp add: execute_call_def call_target_def)

lemma call_target_Inr:
  assumes "call_target L host call = Inr (dfn, cx, arguments)"
  obtains name binding a b where "\<not> frozen host" "item call ''name'' = Inr (VStr name)"
    "map_of (tools host) name = Some (binding, dfn, cx)"
    "item call ''implementation'' = Inr a" "item binding ''implementation'' = Inr b" "py_eq a b"
    "item call ''arguments'' = Inr arguments" "has arguments ''context'' = Inr False"
    "conforms L [] (td_input_schema dfn) arguments" "finite_json arguments"
proof -
  from assms obtain nm name binding a b t where
    c: "\<not> frozen host" "item call ''name'' = Inr nm" "as_str nm = Inr name"
      "map_of (tools host) name = Some (binding, dfn, cx)"
      "item call ''implementation'' = Inr a" "item binding ''implementation'' = Inr b" "py_eq a b"
      "item call ''arguments'' = Inr arguments" "dumps L strict_opts arguments = Inr t"
      "has arguments ''context'' = Inr False" "conforms L [] (td_input_schema dfn) arguments"
    unfolding call_target_def rbind_Inr_iff guard_Inr_iff lookup_Inr_iff split_beta by auto
  moreover have "finite_json arguments"
    using c(9) dumps_finite [of strict_opts L arguments] by (simp add: strict_opts_def ok_iff)
  ultimately show thesis using that by simp
qed

text \<open>C11: A tool call changes the world or succeeds only when the host is not frozen, the call names a
  bound tool with its implementation, and its arguments are finite, conform to the tool's schema
  and do not name the injected context; a tool without an environment cannot end the episode.\<close>
theorem tool_runs_only_checked_calls:
  assumes "execute_call L sids reg host call w = (w', r)" "w' \<noteq> w \<or> ok r"
  shows "\<exists>name binding dfn cx arguments a b.
    \<not> frozen host \<and> item call ''name'' = Inr (VStr name) \<and>
    map_of (tools host) name = Some (binding, dfn, cx) \<and>
    item call ''implementation'' = Inr a \<and> item binding ''implementation'' = Inr b \<and> py_eq a b \<and>
    item call ''arguments'' = Inr arguments \<and> has arguments ''context'' = Inr False \<and>
    conforms L [] (td_input_schema dfn) arguments \<and> finite_json arguments \<and>
    w' = fst (td_execute dfn arguments cx w) \<and>
    (\<forall>v. r = Inr v \<longrightarrow> (\<exists>i obs. item call ''tool_call_id'' = Inr i \<and> v = tool_result i obs \<and>
       validate L reg ''Observation'' obs = Inr () \<and>
       (tc_environment cx = VNone \<longrightarrow>
          (\<exists>t u. item obs ''terminated'' = Inr t \<and> item obs ''episode_truncated'' = Inr u \<and>
             \<not> truthy t \<and> \<not> truthy u))))"
proof (cases "call_target L host call")
  case (Inl e)
  with assms show ?thesis by (auto simp: execute_call_def)
next
  case (Inr target)
  then obtain dfn cx arguments where t: "call_target L host call = Inr (dfn, cx, arguments)"
    by (cases target) auto
  obtain w1 v where v: "td_execute dfn arguments cx w = (w1, v)" by fastforce
  with assms(1) t have r: "w' = w1" "r = rbind v (call_outcome L sids reg call cx)"
    by (auto simp: execute_call_def)
  have "\<exists>i obs. item call ''tool_call_id'' = Inr i \<and> x = tool_result i obs \<and> validate L reg ''Observation'' obs = Inr () \<and>
       (tc_environment cx = VNone \<longrightarrow>
          (\<exists>t u. item obs ''terminated'' = Inr t \<and> item obs ''episode_truncated'' = Inr u \<and> \<not> truthy t \<and> \<not> truthy u))"
    if "r = Inr x" for x
    using that unfolding r(2) call_outcome_def
    by (auto simp: rbind_Inr_iff guard_Inr_iff split: if_splits)
  with t r v show ?thesis by (elim call_target_Inr) (auto intro!: exI)
qed

text \<open>A call that the admission check accepts passes every check of the execution: what happens is
  what the tool does.\<close>
theorem admitted_call_reaches_tool:
  assumes "\<not> frozen host" "item call ''name'' = Inr (VStr name)"
    and "map_of (tools host) name = Some (binding, dfn, cx)"
    and "validate_call L host binding call = Inr ()"
    and "item call ''arguments'' = Inr arguments" "finite_json arguments"
  shows "execute_call L sids reg host call w =
    (let (w', v) = td_execute dfn arguments cx w
     in (w', rbind v (call_outcome L sids reg call cx)))"
proof -
  from assms obtain a b where
    "item call ''implementation'' = Inr a" "item binding ''implementation'' = Inr b" "py_eq a b"
    "has arguments ''context'' = Inr False" "conforms L [] (td_input_schema dfn) arguments"
    by (auto simp: validate_call_def rbind_Inr_iff guard_Inr_iff split: if_splits)
  moreover obtain t where "dumps L strict_opts arguments = Inr t"
    using assms(6) dumps_finite [of strict_opts L arguments] by (auto simp: strict_opts_def ok_iff)
  ultimately have "call_target L host call = Inr (dfn, cx, arguments)"
    using assms by (simp add: call_target_def lookup_def)
  then show ?thesis by (simp add: execute_call_def)
qed


section \<open>Freezing\<close>

text \<open>C12: After a freeze, successful or not, every call is refused without touching the world; the host is
  settled exactly when the freeze succeeded, never while a background thread is alive, and a
  settled host freezes again without effect.\<close>
theorem freeze_outcome:
  assumes "freeze run alive host w = (host', w', r)" "settled host \<longrightarrow> frozen host"
  shows "frozen host' \<and> tools host' = tools host \<and>
    (ok r \<longleftrightarrow> settled host') \<and> (alive \<and> \<not> settled host \<longrightarrow> \<not> settled host') \<and>
    (\<forall>L sids reg call v. execute_call L sids reg host' call v = (v, Inl (RuntimeError ''TOOL_HOST_FROZEN''))) \<and>
    (settled host' \<longrightarrow> freeze run alive2 host' v2 = (host', v2, Inr ()))"
  using assms
  by (auto simp: freeze_def frozen_call split: if_splits prod.splits sum.splits)

section \<open>The agent's table\<close>

lemma update_new: "fst p \<notin> set (map fst d) \<Longrightarrow> AList.update (fst p) (snd p) d = d @ [p]"
  by (induction d) auto

lemma fold_update_distinct:
  "distinct (map fst (d @ ps)) \<Longrightarrow> fold (\<lambda>p d. AList.update (fst p) (snd p) d) ps d = d @ ps"
proof (induction ps arbitrary: d)
  case (Cons p ps)
  then have "AList.update (fst p) (snd p) d = d @ [p]" by (intro update_new) simp
  with Cons.IH [of "d @ [p]"] Cons.prems show ?case by simp
qed simp

definition named :: "val \<Rightarrow> string \<Rightarrow> bool" where
  "named v name \<longleftrightarrow> item v ''name'' = Inr (VStr name)"

lemma by_name_distinct:
  assumes "list_all2 named xs names" "distinct names"
  shows "by_name xs = Inr (zip names xs)"
proof -
  from assms(1) have r: "rmap (\<lambda>x. rbind (item x ''name'') (\<lambda>n. rbind (as_str n) (\<lambda>name. Inr (name, x)))) xs = Inr (zip names xs)"
    by (induction rule: list_all2_induct) (auto simp: named_def)
  have l: "length xs = length names" using assms(1) by (rule list_all2_lengthD)
  have "fold (\<lambda>p d. AList.update (fst p) (snd p) d) (zip names xs) [] = zip names xs"
    using fold_update_distinct [of "[]" "zip names xs"] assms(2) l by simp
  with r show ?thesis by (simp add: by_name_def)
qed

lemma names_Inr:
  "rmap (\<lambda>x. rbind (item x ''name'') as_str) xs = Inr names \<longleftrightarrow> list_all2 named xs names"
  by (auto simp: rmap_Inr_iff rbind_Inr_iff named_def elim!: list_all2_mono)

lemma map_of_zip_case:
  assumes "length ys = length ks" "distinct ks"
  shows "(case map_of (zip ks ys) k of None \<Rightarrow> False | Some y \<Rightarrow> P y) \<longleftrightarrow>
    (\<exists>j < length ks. ks ! j = k \<and> P (ys ! j))"
proof (cases "map_of (zip ks ys) k")
  case None
  then have "k \<notin> set ks" using assms(1) by (simp add: map_of_zip_is_None)
  then show ?thesis using None by (auto simp: in_set_conv_nth)
next
  case (Some y)
  then obtain j where j: "j < length ks" "ks ! j = k" "ys ! j = y"
    using assms(1) by (force dest!: map_of_SomeD simp: set_zip)
  have only: "i = j" if "i < length ks" "ks ! i = k" for i
    using nth_eq_iff_index_eq [OF assms(2) that(1) j(1)] that(2) j(2) by simp
  show ?thesis unfolding Some option.case using j only by blast
qed

lemma py_eq_zip:
  assumes "length xs = length names" "length ys = length found" "distinct found"
  shows "py_eq (VDict (zip names xs)) (VDict (zip found ys)) \<longleftrightarrow> length ys = length xs \<and>
    (\<forall>i < length names. \<exists>j < length found. found ! j = names ! i \<and> py_eq (xs ! i) (ys ! j))"
proof -
  have "(\<forall>p \<in> set (zip names xs). Q p) \<longleftrightarrow> (\<forall>i < length names. Q (names ! i, xs ! i))" for Q
    using assms(1) by (auto simp: set_zip)
  then have "py_eq (VDict (zip names xs)) (VDict (zip found ys)) \<longleftrightarrow> length ys = length xs \<and>
      (\<forall>i < length names. case map_of (zip found ys) (names ! i) of None \<Rightarrow> False | Some y \<Rightarrow> py_eq (xs ! i) y)"
    using assms(1,2) by (auto cong: option.case_cong)
  then show ?thesis unfolding map_of_zip_case [OF assms(2,3)] by simp
qed

text \<open>The agent's tool table is accepted exactly when it has as many tools as were bound, under
  distinct names, and holds an equal tool under the name of every binding.\<close>
theorem verify_agent_tools_iff:
  assumes "list_all2 named bindings names" "distinct names"
  shows "verify_agent_tools bindings actual = Inr () \<longleftrightarrow>
    (\<exists>found. list_all2 named actual found \<and> distinct found \<and> length actual = length bindings \<and>
       (\<forall>i < length names. \<exists>j < length found. found ! j = names ! i \<and> py_eq (bindings ! i) (actual ! j)))"
proof -
  have exp: "by_name bindings = Inr (zip names bindings)" using assms by (rule by_name_distinct)
  have "verify_agent_tools bindings actual = Inr () \<longleftrightarrow> (\<exists>found. list_all2 named actual found \<and> distinct found \<and>
      py_eq (VDict (zip names bindings)) (VDict (zip found actual)))"
    unfolding verify_agent_tools_def exp
    by (auto simp: rbind_Inr_iff guard_Inr_iff names_Inr by_name_distinct simp del: py_eq.simps)
  moreover have "length bindings = length names" using assms(1) by (rule list_all2_lengthD)
  ultimately show ?thesis using py_eq_zip [of bindings names actual] list_all2_lengthD [of named actual] by blast
qed

section \<open>Schemas of authored tools\<close>

definition public_params :: "param list \<Rightarrow> param list" where
  "public_params ps = filter (\<lambda>p. p_name p \<noteq> ''context'') ps"

lemma update_keys: "fst ` set (AList.update k v d) = insert k (fst ` set d)"
  by (simp add: update_conv' flip: dom_map_of_conv_image_fst)

lemma add_param_Inr:
  assumes "add_param p acc = Inr mid"
  obtains "p_name p = ''context''" "mid = acc"
  | h where "p_name p \<noteq> ''context''" "p_hint p = Some h" "fst mid = AList.update (p_name p) h (fst acc)"
      "snd mid = (case p_default p of None \<Rightarrow> snd acc | Some v \<Rightarrow> AList.update (p_name p) v (snd acc))"
  using assms by (auto simp: add_param_def rbind_Inr_iff split: if_splits option.splits)

lemma add_params_keys:
  "rfold add_param ps acc = Inr acc' \<Longrightarrow>
     fst ` set (fst acc') = fst ` set (fst acc) \<union> p_name ` set (public_params ps) \<and>
     fst ` set (snd acc') = fst ` set (snd acc) \<union> {p_name p | p. p \<in> set (public_params ps) \<and> p_default p \<noteq> None}"
proof (induction ps arbitrary: acc)
  case (Cons p ps)
  then obtain mid where m: "add_param p acc = Inr mid" "rfold add_param ps mid = Inr acc'" by (auto simp: rbind_Inr_iff)
  from m(1) show ?case
  proof (cases rule: add_param_Inr)
    case 1
    with Cons.IH [OF m(2)] show ?thesis by (auto simp: public_params_def)
  next
    case (2 h)
    then have "fst ` set (fst mid) = insert (p_name p) (fst ` set (fst acc))"
      "fst ` set (snd mid) = fst ` set (snd acc) \<union> {k. k = p_name p \<and> p_default p \<noteq> None}"
      by (auto simp: update_keys split: option.splits)
    with Cons.IH [OF m(2)] 2(1) show ?thesis by (auto simp: public_params_def)
  qed
qed (simp add: public_params_def)

lemma add_params_hints:
  assumes "rfold add_param ps ([], []) = Inr acc" "\<forall>p \<in> set ps. Q (p_name p) (p_hint p)"
  shows "\<forall>h \<in> set (fst acc). Q (fst h) (Some (snd h))"
  using assms(1)
proof (rule rfold_invariant)
  fix p and b c :: "(string \<times> ann) list \<times> dict"
  assume p: "p \<in> set ps" "\<forall>h \<in> set (fst b). Q (fst h) (Some (snd h))" "add_param p b = Inr c"
  from p(3) show "\<forall>h \<in> set (fst c). Q (fst h) (Some (snd h))"
  proof (cases rule: add_param_Inr)
    case (2 h)
    then show ?thesis using p(1,2) assms(2) set_update_subset [of "p_name p" h "fst b"] by fastforce
  qed (use p in simp)
qed simp

text \<open>The schema generated for an authored tool has exactly its parameters other than the context as
  properties and requires exactly those without a default.\<close>
theorem tool_schema_parameters:
  assumes "tool L n ct f scope capabilities effect = Inr d"
    and "\<forall>p \<in> set (f_params f). \<not> prefix_of ''__'' (p_name p) \<and> p_hint p \<noteq> Some AClassVar"
  shows "\<exists>schema. td_input_schema d = VDict schema \<and> ''context'' \<notin> schema_keys schema \<and>
    schema_keys schema = p_name ` set (public_params (f_params f)) \<and>
    schema_required schema =
      p_name ` set (public_params (f_params f)) - {p_name p | p. p \<in> set (public_params (f_params f)) \<and> p_default p \<noteq> None} \<and>
    scope \<in> {''sandbox'', ''agent_state'', ''external_service''} \<and>
    effect \<in> {''read_only'', ''idempotent'', ''non_idempotent''}"
proof -
  let ?m = "f_name f @ ''Arguments''" and ?id = "''urn:uenv:tool:'' @ f_module f @ '':'' @ f_name f"
  from assms(1) obtain acc schema where
    a: "rfold add_param (f_params f) ([], []) = Inr acc"
      "class_schema ((?m, arguments_class acc) # ct) ?m ?id = Inr schema" "td_input_schema d = schema" and
    g: "scope \<in> {''sandbox'', ''agent_state'', ''external_service''}" "effect \<in> {''read_only'', ''idempotent'', ''non_idempotent''}"
    by (auto simp: tool_def rbind_Inr_iff guard_Inr_iff Let_def split: option.splits)
  note k = add_params_keys [OF a(1), simplified]
  from a(2) obtain s where s: "model_schema ((?m, arguments_class acc) # ct) ?m [] = Inr s"
    "schema = VDict ([(''$schema'', VStr ''https://json-schema.org/draft/2020-12/schema''), (''$id'', VStr ?id)] @ s)"
    by (auto simp: class_schema_def model_json_schema_def bind_schema_def rbind_Inr_iff split: sum.splits)
  have hints: "model_hints (arguments_class acc) = fst acc"
    using add_params_hints [OF a(1), of "\<lambda>k h. \<not> prefix_of ''__'' k \<and> h \<noteq> Some AClassVar"] assms(2)
    by (auto simp: model_hints_def arguments_class_def filter_id_conv)
  from s(1) show ?thesis
  proof (rule model_schema_Inr)
    fix c props
    assume c: "map_of ((?m, arguments_class acc) # ct) ?m = Some c" "map fst props = map fst (model_hints c)"
      "map_of s ''properties'' = Some (VDict props)"
      "map_of s ''required'' = Some (VList (map (\<lambda>h. VStr (fst h))
         (filter (\<lambda>h. \<not> has_key (cls_defaults c) (fst h)) (model_hints c))))"
    then have "c = arguments_class acc" by simp
    note c = c [unfolded this hints]
    let ?s = "[(''$schema'', VStr ''https://json-schema.org/draft/2020-12/schema''), (''$id'', VStr ?id)] @ s"
    have keys: "schema_keys ?s = fst ` set (fst acc)"
      using c(3) arg_cong [OF c(2), of set] by (simp add: schema_keys_def)
    have "schema_required ?s = {fst h | h. h \<in> set (fst acc) \<and> \<not> has_key (snd acc) (fst h)}"
      using c(4) by (force simp: schema_required_def arguments_class_def)
    also have "\<dots> = fst ` set (fst acc) - fst ` set (snd acc)" by (force simp: has_key_iff)
    finally have "schema_required ?s = fst ` set (fst acc) - fst ` set (snd acc)" .
    with keys k g a(3) s(2) show ?thesis by (auto simp: public_params_def)
  qed
qed

section \<open>A counter tool\<close>

definition counter_registry :: registry where
  "counter_registry = \<lparr>core = VDict [(''$id'', VStr ''urn:core''), (''$defs'', VDict [(''Observation'', VBool True)])],
     extensions = [(''urn:config'', VBool True)]\<rparr>"

definition counter_function :: "int py_function" where
  "counter_function = \<lparr>f_name = ''add'', f_module = ''tools'', f_doc = ''Add.'',
     f_params = [\<lparr>p_name = ''amount'', p_kind = POSITIONAL_OR_KEYWORD, p_hint = Some AInt, p_default = Some (VInt 1)\<rparr>,
                 \<lparr>p_name = ''context'', p_kind = KEYWORD_ONLY, p_hint = None, p_default = None\<rparr>],
     f_return = Some AInt,
     f_body = (\<lambda>kwargs _ w. (w + 1, Inr (VInt w)))\<rparr>"

definition counter_tool :: "int tool_definition" where
  "counter_tool = (case tool rational_lib 9 [] counter_function ''sandbox'' [] ''non_idempotent'' of
     Inr d \<Rightarrow> d | Inl _ \<Rightarrow> native_definition [] VNone Inr (\<lambda>a c w. (w, Inr VNone)) Inr)"

definition counter_binding :: val where
  "counter_binding = VDict [(''name'', VStr ''add''), (''implementation'', VDict [(''id'', VStr ''tools:add'')]),
     (''config'', VDict [(''schema_ref'', VStr ''urn:config''), (''data'', VDict [])])]"

definition counter_context :: tool_context where
  "counter_context = \<lparr>tc_config = VDict [], tc_environment = VNone, tc_freeze = None\<rparr>"

definition counter_host :: "int tool_host" where
  "counter_host = fst (prepare rational_lib counter_registry [counter_binding] [(''tools:add'', counter_tool)]
     [(''add'', counter_context)] VNone new_tool_host)"

definition counter_call :: val where
  "counter_call = VDict [(''name'', VStr ''add''), (''implementation'', VDict [(''id'', VStr ''tools:add'')]),
     (''arguments'', VDict [(''amount'', VInt 2)]), (''tool_call_id'', VStr ''c1'')]"

theorem prepare_fixes_table_witness: "distinct (map fst (tools counter_host))"
proof -
  have "snd (prepare rational_lib counter_registry [counter_binding] [(''tools:add'', counter_tool)]
     [(''add'', counter_context)] VNone new_tool_host) = Inr [counter_binding]" by code_simp
  then have "prepare rational_lib counter_registry [counter_binding] [(''tools:add'', counter_tool)]
     [(''add'', counter_context)] VNone new_tool_host = (counter_host, Inr [counter_binding])"
    by (simp add: counter_host_def prod_eq_iff)
  from prepare_fixes_table [OF this] show ?thesis by simp
qed

theorem tool_runs_only_checked_calls_witness:
  "\<not> frozen counter_host \<and> fst (execute_call rational_lib [] counter_registry counter_host counter_call 5) = 6"
proof -
  obtain w r where e: "execute_call rational_lib [] counter_registry counter_host counter_call 5 = (w, r)" by fastforce
  have "fst (execute_call rational_lib [] counter_registry counter_host counter_call 5) = 6" by code_simp
  with e have "w = 6" by simp
  with tool_runs_only_checked_calls [OF e] e show ?thesis by auto
qed

theorem admitted_call_reaches_tool_witness:
  "execute_call rational_lib [] counter_registry counter_host counter_call 5 =
    (let (w', v) = td_execute counter_tool (VDict [(''amount'', VInt 2)]) counter_context 5
     in (w', rbind v (call_outcome rational_lib [] counter_registry counter_call counter_context)))"
proof (rule admitted_call_reaches_tool)
  show "\<not> frozen counter_host" by code_simp
  show "item counter_call ''name'' = Inr (VStr ''add'')" by code_simp
  have "map (\<lambda>(n, b, d, c). (n, b, c)) (tools counter_host) = [(''add'', counter_binding, counter_context)]"
    by code_simp
  have st: "ok (stage_tool rational_lib counter_registry [(''tools:add'', counter_tool)] [(''add'', counter_context)] VNone counter_binding [])"
    by code_simp
  have "item counter_binding ''implementation'' = Inr (VDict [(''id'', VStr ''tools:add'')])" by code_simp
  with st have "stage_tool rational_lib counter_registry [(''tools:add'', counter_tool)] [(''add'', counter_context)] VNone counter_binding [] =
     Inr [(''add'', counter_binding, counter_tool, counter_context)]"
    by (auto simp: stage_tool_def ok_iff rbind_Inr_iff guard_Inr_iff lookup_def counter_binding_def ditem_def split: if_splits)
  then have "tools counter_host = [(''add'', counter_binding, counter_tool, counter_context)]"
    by (simp add: counter_host_def prepare_def new_tool_host_def)
  then show "map_of (tools counter_host) ''add'' = Some (counter_binding, counter_tool, counter_context)" by simp
  show "validate_call rational_lib counter_host counter_binding counter_call = Inr ()" by code_simp
  show "item counter_call ''arguments'' = Inr (VDict [(''amount'', VInt 2)])" by code_simp
  show "finite_json (VDict [(''amount'', VInt 2)])" by code_simp
qed

theorem freeze_outcome_witness:
  "settled (fst (freeze (\<lambda>s w. (w, Inr ())) False counter_host 5))"
proof -
  obtain h w r where f: "freeze (\<lambda>s w. (w, Inr ())) False counter_host 5 = (h, w, r)" by (metis prod_cases3)
  have "settled counter_host \<longrightarrow> frozen counter_host" by code_simp
  moreover have "ok (snd (snd (freeze (\<lambda>s w. (w, Inr ())) False counter_host 5)))" by code_simp
  ultimately show ?thesis using freeze_outcome [OF f] f by simp
qed

theorem verify_agent_tools_iff_witness: "verify_agent_tools [counter_binding] [counter_binding] = Inr ()"
proof -
  have n: "list_all2 named [counter_binding] [''add'']" by (simp add: named_def counter_binding_def ditem_def)
  have "py_eq counter_binding counter_binding" by code_simp
  with n show ?thesis using verify_agent_tools_iff [OF n, of "[counter_binding]"] by auto
qed

theorem tool_schema_parameters_witness:
  "\<exists>schema. td_input_schema counter_tool = VDict schema \<and> schema_keys schema = {''amount''} \<and> schema_required schema = {}"
proof -
  have "ok (tool rational_lib 9 [] counter_function ''sandbox'' [] ''non_idempotent'')" by code_simp
  then have t: "tool rational_lib 9 [] counter_function ''sandbox'' [] ''non_idempotent'' = Inr counter_tool"
    by (auto simp: counter_tool_def ok_iff)
  have "public_params (f_params counter_function) = [hd (f_params counter_function)]"
    by (simp add: counter_function_def public_params_def)
  with tool_schema_parameters [OF t] show ?thesis
    by (auto simp: counter_function_def prefix_of_def)
qed

end
