(* ===== verification/Tool_Schedule.thy ===== *)
theory Tool_Schedule
  imports Transition
begin

text \<open>
  The interleavings of \<open>ToolHost.execute\<close> and \<open>ToolHost.freeze\<close> (\<open>tools.py\<close>) on one event loop:
  calls and freezes wait for the host's lock; a call that has it is refused (when the host is
  frozen, or by one of the other checks) or runs its tool body, and in both cases the final clause
  records the threads that appeared meanwhile; a running tool body may leave background tasks and
  threads behind; a freeze closes the host at once, then under the lock cancels and awaits the
  background tasks it finds, runs the shutdown callables and settles the host unless a recorded
  thread is alive. Which waiting operation gets the lock, and when tasks and threads start and end,
  is not determined. The flag \<open>nested\<close> tells whether a background task may start further tasks.
\<close>

datatype owner = Call nat | Freezer nat

datatype phase = Outside | Gathering | Shutting_Down | Checking

record sched =
  sc_frozen :: bool
  sc_settled :: bool
  sc_lock :: "owner option"
  sc_waiting :: "owner set"
  sc_bodies :: "nat set"        \<comment> \<open>calls whose tool body is running\<close>
  sc_started :: "nat list"      \<comment> \<open>calls whose tool body was entered, in order\<close>
  sc_tasks :: "nat set"         \<comment> \<open>unfinished background tasks\<close>
  sc_awaited :: "nat set"       \<comment> \<open>the tasks the current freeze cancelled and awaits\<close>
  sc_phase :: phase
  sc_before :: "nat set"        \<comment> \<open>threads alive when the running call got the lock\<close>
  sc_threads :: "nat set"       \<comment> \<open>all threads there have been\<close>
  sc_alive :: "nat set"         \<comment> \<open>threads alive now\<close>
  sc_recorded :: "nat set"      \<comment> \<open>threads that appeared during a call\<close>
  sc_left :: "nat set"          \<comment> \<open>threads that a tool body started; the code does not keep them\<close>

definition sched_init :: "sched \<Rightarrow> bool" where
  "sched_init s \<longleftrightarrow> \<not> sc_frozen s \<and> \<not> sc_settled s \<and> sc_lock s = None \<and> sc_waiting s = {} \<and> sc_bodies s = {} \<and>
     sc_started s = [] \<and> sc_tasks s = {} \<and> sc_awaited s = {} \<and> sc_phase s = Outside \<and> sc_recorded s = {} \<and>
     sc_before s = {} \<and> sc_alive s \<subseteq> sc_threads s \<and> sc_left s = {}"

inductive sched_step :: "bool \<Rightarrow> sched \<Rightarrow> sched \<Rightarrow> bool" for nested where
  call_wait: "sched_step nested s (s\<lparr>sc_waiting := insert (Call i) (sc_waiting s)\<rparr>)"
| call_enter: "Call i \<in> sc_waiting s \<Longrightarrow> sc_lock s = None \<Longrightarrow>
    sched_step nested s (s\<lparr>sc_waiting := sc_waiting s - {Call i}, sc_lock := Some (Call i), sc_before := sc_alive s\<rparr>)"
| call_refused: "sc_lock s = Some (Call i) \<Longrightarrow> i \<notin> sc_bodies s \<Longrightarrow>
    sched_step nested s (s\<lparr>sc_lock := None, sc_recorded := sc_recorded s \<union> (sc_alive s - sc_before s)\<rparr>)"
| body_start: "sc_lock s = Some (Call i) \<Longrightarrow> i \<notin> sc_bodies s \<Longrightarrow> \<not> sc_frozen s \<Longrightarrow>
    sched_step nested s (s\<lparr>sc_bodies := insert i (sc_bodies s), sc_started := sc_started s @ [i]\<rparr>)"
| body_task: "i \<in> sc_bodies s \<Longrightarrow> sched_step nested s (s\<lparr>sc_tasks := insert t (sc_tasks s)\<rparr>)"
| body_thread: "i \<in> sc_bodies s \<Longrightarrow> h \<notin> sc_threads s \<Longrightarrow>
    sched_step nested s (s\<lparr>sc_threads := insert h (sc_threads s), sc_alive := insert h (sc_alive s),
      sc_left := insert h (sc_left s)\<rparr>)"
| body_end: "i \<in> sc_bodies s \<Longrightarrow>
    sched_step nested s (s\<lparr>sc_bodies := sc_bodies s - {i}, sc_lock := None,
      sc_recorded := sc_recorded s \<union> (sc_alive s - sc_before s)\<rparr>)"
| task_task: "nested \<Longrightarrow> u \<in> sc_tasks s \<Longrightarrow> sched_step nested s (s\<lparr>sc_tasks := insert t (sc_tasks s)\<rparr>)"
| task_end: "sched_step nested s (s\<lparr>sc_tasks := sc_tasks s - {t}\<rparr>)"
| thread_start: "h \<notin> sc_threads s \<Longrightarrow>
    sched_step nested s (s\<lparr>sc_threads := insert h (sc_threads s), sc_alive := insert h (sc_alive s)\<rparr>)"
| thread_end: "sched_step nested s (s\<lparr>sc_alive := sc_alive s - {h}\<rparr>)"
| freeze_wait: "\<not> sc_settled s \<Longrightarrow>
    sched_step nested s (s\<lparr>sc_frozen := True, sc_waiting := insert (Freezer j) (sc_waiting s)\<rparr>)"
| freeze_enter: "Freezer j \<in> sc_waiting s \<Longrightarrow> sc_lock s = None \<Longrightarrow>
    sched_step nested s (s\<lparr>sc_waiting := sc_waiting s - {Freezer j}, sc_lock := Some (Freezer j),
      sc_phase := Gathering, sc_awaited := sc_tasks s\<rparr>)"
| freeze_gathered: "sc_phase s = Gathering \<Longrightarrow> sc_awaited s \<inter> sc_tasks s = {} \<Longrightarrow>
    sched_step nested s (s\<lparr>sc_phase := Shutting_Down\<rparr>)"
| shutdown_ok: "sc_phase s = Shutting_Down \<Longrightarrow> sched_step nested s (s\<lparr>sc_phase := Checking\<rparr>)"
| shutdown_raises: "sc_phase s = Shutting_Down \<Longrightarrow>
    sched_step nested s (s\<lparr>sc_phase := Outside, sc_lock := None\<rparr>)"
| freeze_fails: "sc_phase s = Checking \<Longrightarrow> sc_recorded s \<inter> sc_alive s \<noteq> {} \<Longrightarrow>
    sched_step nested s (s\<lparr>sc_phase := Outside, sc_lock := None\<rparr>)"
| freeze_settles: "sc_phase s = Checking \<Longrightarrow> sc_recorded s \<inter> sc_alive s = {} \<Longrightarrow>
    sched_step nested s (s\<lparr>sc_phase := Outside, sc_lock := None, sc_settled := True\<rparr>)"

section \<open>Invariant\<close>

definition lock_ok :: "sched \<Rightarrow> bool" where
  "lock_ok s \<longleftrightarrow>
     (sc_bodies s = {} \<or> (\<exists>i. sc_bodies s = {i} \<and> sc_lock s = Some (Call i))) \<and>
     (sc_phase s \<noteq> Outside \<longleftrightarrow> (\<exists>j. sc_lock s = Some (Freezer j))) \<and>
     (\<forall>j. (Freezer j \<in> sc_waiting s \<or> sc_lock s = Some (Freezer j)) \<longrightarrow> sc_frozen s) \<and>
     (sc_settled s \<longrightarrow> sc_frozen s \<and> sc_bodies s = {})"

definition threads_ok :: "sched \<Rightarrow> bool" where
  \<comment> \<open>a thread of a tool body that is alive is recorded, or will be when the running call ends\<close>
  "threads_ok s \<longleftrightarrow> lock_ok s \<and>
     sc_alive s \<subseteq> sc_threads s \<and> sc_before s \<subseteq> sc_threads s \<and> sc_left s \<subseteq> sc_threads s \<and>
     (\<forall>h \<in> sc_left s \<inter> sc_alive s. h \<in> sc_recorded s \<or> (h \<notin> sc_before s \<and> (\<exists>i. sc_lock s = Some (Call i)))) \<and>
     (sc_settled s \<longrightarrow> sc_left s \<inter> sc_alive s = {})"

interpretation host_lock: step_invariant sched_init "sched_step nested" lock_ok for nested
proof
  show "sched_init s \<Longrightarrow> lock_ok s" for s by (simp add: sched_init_def lock_ok_def)
  show "sched_step nested s t \<Longrightarrow> lock_ok s \<Longrightarrow> lock_ok t" for s t
    by (induction rule: sched_step.induct) (auto simp: lock_ok_def)
qed

lemma lock_ok_body: "lock_ok s \<Longrightarrow> i \<in> sc_bodies s \<Longrightarrow> sc_phase s = Outside \<and> \<not> sc_settled s \<and> sc_lock s = Some (Call i)"
  by (auto simp: lock_ok_def)

interpretation host_threads: step_invariant sched_init "sched_step nested" threads_ok for nested
proof
  show "sched_init s \<Longrightarrow> threads_ok s" for s by (simp add: sched_init_def lock_ok_def threads_ok_def)
  fix s t
  assume s: "threads_ok s" "sched_step nested s t"
  then have "lock_ok t" by (auto simp: threads_ok_def intro: host_lock.inv_step)
  with s(2,1) show "threads_ok t"
  proof cases
    case freeze_settles
    with s(1) \<open>lock_ok t\<close> show ?thesis by (auto simp: threads_ok_def lock_ok_def)
  next
    case freeze_fails
    with s(1) \<open>lock_ok t\<close> show ?thesis by (auto simp: threads_ok_def lock_ok_def)
  next
    case shutdown_raises
    with s(1) \<open>lock_ok t\<close> show ?thesis by (auto simp: threads_ok_def lock_ok_def)
  qed (auto simp: threads_ok_def dest: lock_ok_body)
qed

lemma settled_quiet_step:
  "lock_ok s \<Longrightarrow> sc_settled s \<and> sc_started s = xs \<and> sc_left s = hs \<Longrightarrow> sched_step nested s t \<Longrightarrow>
   sc_settled t \<and> sc_started t = xs \<and> sc_left t = hs"
  by (erule sched_step.cases) (auto simp: lock_ok_def)

text \<open>C14: In every interleaving of calls, refused ones included, freezes, background tasks and threads, a
  settled tool host stays settled and frozen, never enters a tool body again, and no thread that a
  tool body started is alive.\<close>
theorem settled_host_is_quiet:
  assumes "reachable sched_init (sched_step nested) s" "sc_settled s" "(sched_step nested)\<^sup>*\<^sup>* s t"
  shows "sc_settled t \<and> sc_frozen t \<and> sc_bodies t = {} \<and> sc_started t = sc_started s \<and> sc_left t = sc_left s \<and>
    sc_left t \<inter> sc_alive t = {}"
proof -
  from assms(1) have s: "threads_ok s" by (rule host_threads.reachable_inv)
  then have "lock_ok s" by (simp add: threads_ok_def)
  then have "sc_settled t \<and> sc_started t = sc_started s \<and> sc_left t = sc_left s"
    by (rule host_lock.run_stable [OF assms(3) _ settled_quiet_step]) (use assms(2) in auto)
  moreover from host_threads.run_inv [OF assms(3) s] have "threads_ok t" .
  ultimately show ?thesis by (auto simp: threads_ok_def lock_ok_def)
qed

theorem tool_bodies_exclude_each_other:
  assumes "reachable sched_init (sched_step nested) s" "i \<in> sc_bodies s"
  shows "sc_bodies s = {i} \<and> sc_phase s = Outside"
  using host_lock.reachable_inv [OF assms(1)] assms(2) by (auto simp: lock_ok_def)

section \<open>Background tasks\<close>

definition tasks_ok :: "sched \<Rightarrow> bool" where
  "tasks_ok s \<longleftrightarrow> lock_ok s \<and>
     (sc_phase s = Gathering \<longrightarrow> sc_tasks s \<subseteq> sc_awaited s) \<and>
     (sc_phase s = Shutting_Down \<or> sc_phase s = Checking \<or> sc_settled s \<longrightarrow> sc_tasks s = {})"

interpretation host_tasks: step_invariant sched_init "sched_step False" tasks_ok
proof
  show "sched_init s \<Longrightarrow> tasks_ok s" for s by (simp add: sched_init_def lock_ok_def tasks_ok_def)
  fix s t
  assume "tasks_ok s" "sched_step False s t"
  moreover from this have "lock_ok t" by (auto simp: tasks_ok_def intro: host_lock.inv_step)
  ultimately show "tasks_ok t"
    by (elim sched_step.cases) (auto simp: tasks_ok_def dest: lock_ok_body)
qed

theorem settled_host_has_no_tasks:
  assumes "reachable sched_init (sched_step False) s" "sc_settled s"
  shows "sc_tasks s = {}"
  using host_tasks.reachable_inv [OF assms(1)] assms(2) by (simp add: tasks_ok_def)


section \<open>A task that outlives the freeze\<close>

definition fresh_sched :: sched where
  "fresh_sched = \<lparr>sc_frozen = False, sc_settled = False, sc_lock = None, sc_waiting = {}, sc_bodies = {},
     sc_started = [], sc_tasks = {}, sc_awaited = {}, sc_phase = Outside, sc_before = {}, sc_threads = {}, sc_alive = {},
     sc_recorded = {}, sc_left = {}\<rparr>"

lemma fresh_sched_init: "sched_init fresh_sched"
  by (simp add: sched_init_def fresh_sched_def)

text \<open>A freeze does not always settle a quiet host: when a background task starts another one while
  the freeze awaits it, the host can be settled with that task still running.\<close>
theorem nested_task_survives_freeze:
  "\<exists>s. reachable sched_init (sched_step True) s \<and> sc_settled s \<and> sc_tasks s \<noteq> {}"
proof -
  let ?R = "reachable sched_init (sched_step True)"
  note go = reachable.move [where init = sched_init and step = "sched_step True"]
  have "?R fresh_sched" by (rule reachable.start) (rule fresh_sched_init)
  from go [OF this call_wait [of _ _ 0]] go [OF _ call_enter [of 0]]
  have "?R (fresh_sched\<lparr>sc_lock := Some (Call 0)\<rparr>)" by (force simp: fresh_sched_def)
  from go [OF this body_start [of _ 0]]
  have "?R (fresh_sched\<lparr>sc_lock := Some (Call 0), sc_bodies := {0}, sc_started := [0]\<rparr>)"
    by (simp add: fresh_sched_def)
  from go [OF this body_task [of 0 _ _ 0]] go [OF _ body_end [of 0]]
  have "?R (fresh_sched\<lparr>sc_started := [0], sc_tasks := {0}\<rparr>)" by (force simp: fresh_sched_def)
  from go [OF this freeze_wait [of _ _ 0]] go [OF _ freeze_enter [of 0]]
  have "?R (fresh_sched\<lparr>sc_started := [0], sc_tasks := {0}, sc_frozen := True, sc_lock := Some (Freezer 0),
      sc_phase := Gathering, sc_awaited := {0}\<rparr>)" by (force simp: fresh_sched_def)
  from go [OF this task_task [of _ 0 _ 1]]
  have "?R (fresh_sched\<lparr>sc_started := [0], sc_tasks := {1, 0}, sc_frozen := True, sc_lock := Some (Freezer 0),
      sc_phase := Gathering, sc_awaited := {0}\<rparr>)" by (simp add: fresh_sched_def)
  from go [OF this task_end [of _ _ 0]]
  have "?R (fresh_sched\<lparr>sc_started := [0], sc_tasks := {1}, sc_frozen := True, sc_lock := Some (Freezer 0),
      sc_phase := Gathering, sc_awaited := {0}\<rparr>)" by (simp add: fresh_sched_def insert_Diff_if)
  from go [OF this freeze_gathered] go [OF _ shutdown_ok]
  have "?R (fresh_sched\<lparr>sc_started := [0], sc_tasks := {1}, sc_frozen := True, sc_lock := Some (Freezer 0),
      sc_phase := Checking, sc_awaited := {0}\<rparr>)" by (force simp: fresh_sched_def)
  from go [OF this freeze_settles]
  have "?R (fresh_sched\<lparr>sc_started := [0], sc_tasks := {1}, sc_frozen := True, sc_settled := True, sc_awaited := {0}\<rparr>)"
    by (simp add: fresh_sched_def)
  then show ?thesis by (intro exI conjI) (assumption, simp_all)
qed

lemma reachable_settled:
  "reachable sched_init (sched_step nested) (fresh_sched\<lparr>sc_frozen := True, sc_settled := True\<rparr>)"
proof -
  let ?R = "reachable sched_init (sched_step nested)"
  note go = reachable.move [where init = sched_init and step = "sched_step nested"]
  have "?R fresh_sched" by (rule reachable.start) (rule fresh_sched_init)
  from go [OF this freeze_wait [of _ _ 0]] go [OF _ freeze_enter [of 0]]
  have "?R (fresh_sched\<lparr>sc_frozen := True, sc_lock := Some (Freezer 0), sc_phase := Gathering\<rparr>)"
    by (force simp: fresh_sched_def)
  from go [OF this freeze_gathered] go [OF _ shutdown_ok]
  have "?R (fresh_sched\<lparr>sc_frozen := True, sc_lock := Some (Freezer 0), sc_phase := Checking\<rparr>)"
    by (force simp: fresh_sched_def)
  from go [OF this freeze_settles] show ?thesis by (simp add: fresh_sched_def)
qed

text \<open>A host whose only call left a thread behind that ended before the freeze.\<close>

definition after_thread :: sched where
  "after_thread = fresh_sched\<lparr>sc_started := [0], sc_threads := {7}, sc_recorded := {7}, sc_left := {7}\<rparr>"

lemma after_thread_settles:
  "reachable sched_init (sched_step nested) (after_thread\<lparr>sc_frozen := True, sc_settled := True\<rparr>)"
proof -
  let ?R = "reachable sched_init (sched_step nested)"
  note go = reachable.move [where init = sched_init and step = "sched_step nested"]
  have "?R fresh_sched" by (rule reachable.start) (rule fresh_sched_init)
  from go [OF this call_wait [of _ _ 0]] go [OF _ call_enter [of 0]]
  have "?R (fresh_sched\<lparr>sc_lock := Some (Call 0)\<rparr>)" by (force simp: fresh_sched_def)
  from go [OF this body_start [of _ 0]]
  have "?R (fresh_sched\<lparr>sc_lock := Some (Call 0), sc_bodies := {0}, sc_started := [0]\<rparr>)" by (simp add: fresh_sched_def)
  from go [OF this body_thread [of 0 _ 7]]
  have "?R (fresh_sched\<lparr>sc_lock := Some (Call 0), sc_bodies := {0}, sc_started := [0], sc_threads := {7}, sc_alive := {7},
      sc_left := {7}\<rparr>)" by (simp add: fresh_sched_def)
  from go [OF this body_end [of 0]] go [OF _ thread_end [of _ _ 7]]
  have "?R after_thread" by (force simp: fresh_sched_def after_thread_def)
  from go [OF this freeze_wait [of _ _ 0]] go [OF _ freeze_enter [of 0]]
  have "?R (after_thread\<lparr>sc_frozen := True, sc_lock := Some (Freezer 0), sc_phase := Gathering\<rparr>)"
    by (force simp: fresh_sched_def after_thread_def)
  from go [OF this freeze_gathered] go [OF _ shutdown_ok]
  have "?R (after_thread\<lparr>sc_frozen := True, sc_lock := Some (Freezer 0), sc_phase := Checking\<rparr>)"
    by (force simp: fresh_sched_def after_thread_def)
  from go [OF this freeze_settles] show ?thesis by (simp add: fresh_sched_def after_thread_def)
qed

theorem settled_host_is_quiet_witness:
  "\<exists>s. reachable sched_init (sched_step False) s \<and> sc_settled s \<and> sc_started s = [0] \<and> sc_left s = {7} \<and>
     sc_bodies s = {} \<and> sc_left s \<inter> sc_alive s = {}"
  using settled_host_is_quiet [OF after_thread_settles [of False] _ rtranclp.rtrancl_refl] after_thread_settles [of False]
  by (intro exI [of _ "after_thread\<lparr>sc_frozen := True, sc_settled := True\<rparr>"]) (simp add: after_thread_def)

theorem settled_host_has_no_tasks_witness: "sc_tasks (fresh_sched\<lparr>sc_frozen := True, sc_settled := True\<rparr>) = {}"
  using settled_host_has_no_tasks [OF reachable_settled] by simp

theorem tool_bodies_exclude_each_other_witness:
  "\<exists>s. reachable sched_init (sched_step False) s \<and> sc_bodies s = {0} \<and> sc_phase s = Outside"
proof -
  note go = reachable.move [where init = sched_init and step = "sched_step False"]
  have "reachable sched_init (sched_step False) fresh_sched" by (rule reachable.start) (rule fresh_sched_init)
  from go [OF this call_wait [of _ _ 0]] go [OF _ call_enter [of 0]]
  have "reachable sched_init (sched_step False) (fresh_sched\<lparr>sc_lock := Some (Call 0)\<rparr>)" by (force simp: fresh_sched_def)
  from go [OF this body_start [of _ 0]]
  have r: "reachable sched_init (sched_step False) (fresh_sched\<lparr>sc_lock := Some (Call 0), sc_bodies := {0}, sc_started := [0]\<rparr>)"
    by (force simp: fresh_sched_def)
  from tool_bodies_exclude_each_other [OF r, of 0] r show ?thesis by auto
qed

end
