(* ===== verification/Session.thy ===== *)
theory Session
  imports Sdk_Core Transition
begin

text \<open>
  Operations inside an isolated backend session (\<open>reference/sdk/src/uenv/sdk/session.py\<close>).

  A path is the list of its components below the root. The file system has regular files,
  directories and symbolic links. \<open>Path.resolve\<close> walks the components and follows links, up to a
  number of steps after which it reports a loop; the operating system walks a path on its own when a
  file is opened (\<open>walk\<close>), following links too, so that a path which was not resolved leads out of the
  workspace. A write may fail before the file is opened or after some of the content was written.
  Looking at a path and writing the file are one step here: a process that the session started may
  write any file of the backend until it is stopped, but not between the two.
\<close>

section \<open>Paths\<close>

type_synonym path = "string list"

record link =
  link_absolute :: bool
  link_target :: path

record fs =
  files :: "path \<Rightarrow> nat list option"
  dirs :: "path set"
  links :: "path \<Rightarrow> link option"

definition path_parts :: "string \<Rightarrow> path" where
  \<comment> \<open>\<open>Path(p).parts\<close> without the root: empty and single-dot components vanish\<close>
  "path_parts p = filter (\<lambda>c. c \<noteq> [] \<and> c \<noteq> ''.'') (split_all (CHR ''/'') p)"

definition is_absolute :: "string \<Rightarrow> bool" where
  "is_absolute p = prefix_of ''/'' p"

fun resolve :: "nat \<Rightarrow> fs \<Rightarrow> path \<Rightarrow> path \<Rightarrow> path res" where
  "resolve 0 f acc ps = Inl (OSError ''Symlink loop'')"
| "resolve (Suc n) f acc [] = Inr acc"
| "resolve (Suc n) f acc (p # ps) =
     (if p = ''..'' then resolve n f (butlast acc) ps
      else (case links f (acc @ [p]) of
              None \<Rightarrow> resolve n f (acc @ [p]) ps
            | Some l \<Rightarrow> resolve n f (if link_absolute l then [] else acc) (link_target l @ ps)))"

section \<open>The operating system\<close>

abbreviation is_dir :: "fs \<Rightarrow> path \<Rightarrow> bool" where
  "is_dir f p \<equiv> p = [] \<or> p \<in> dirs f"

fun walk :: "nat \<Rightarrow> fs \<Rightarrow> path \<Rightarrow> path \<Rightarrow> path res" where
  \<comment> \<open>where the path leads that is opened, its last component included\<close>
  "walk 0 f acc ps = Inl (OSError ''Too many levels of symbolic links'')"
| "walk (Suc n) f acc [] = Inr acc"
| "walk (Suc n) f acc (p # ps) =
     (if p = ''..'' then walk n f (butlast acc) ps
      else (case links f (acc @ [p]) of
              Some l \<Rightarrow> walk n f (if link_absolute l then [] else acc) (link_target l @ ps)
            | None \<Rightarrow>
                if ps \<noteq> [] \<and> acc @ [p] \<notin> dirs f then Inl (OSError ''Not a directory'')
                else walk n f (acc @ [p]) ps))"

datatype disk = Refused | Torn nat | Complete
  \<comment> \<open>what the disk makes of a write: not opened, so many bytes written before a failure, all written\<close>

definition write_bytes :: "nat \<Rightarrow> disk \<Rightarrow> path \<Rightarrow> nat list \<Rightarrow> fs \<Rightarrow> fs \<times> unit res" where
  \<comment> \<open>\<open>Path.write_bytes\<close>: the file is created or truncated, then written\<close>
  "write_bytes n d path content f =
     (case walk n f [] path of
        Inl e \<Rightarrow> (f, Inl e)
      | Inr place \<Rightarrow>
          if is_dir f place then (f, Inl (OSError ''Is a directory''))
          else if \<not> is_dir f (butlast place) then (f, Inl (OSError ''No such file or directory''))
          else (case d of
                  Refused \<Rightarrow> (f, Inl (OSError ''Permission denied''))
                | Torn k \<Rightarrow> (f\<lparr>files := (files f)(place := Some (take k content))\<rparr>, Inl (OSError ''No space left on device''))
                | Complete \<Rightarrow> (f\<lparr>files := (files f)(place := Some content)\<rparr>, Inr ())))"

definition read_bytes :: "nat \<Rightarrow> fs \<Rightarrow> path \<Rightarrow> nat list res" where
  "read_bytes n f path =
     rbind (walk n f [] path) (\<lambda>place.
       if is_dir f place then Inl (OSError ''Is a directory'')
       else (case files f place of None \<Rightarrow> Inl (OSError ''No such file or directory'') | Some content \<Rightarrow> Inr content))"

definition resolve_strict :: "nat \<Rightarrow> fs \<Rightarrow> path \<Rightarrow> path res" where
  \<comment> \<open>\<open>resolve(strict=True)\<close>: what the path leads to exists\<close>
  "resolve_strict n f path =
     rbind (walk n f [] path) (\<lambda>place.
       if is_dir f place \<or> files f place \<noteq> None then Inr place else Inl (OSError ''No such file or directory''))"

section \<open>The session\<close>

record session =
  identity :: val
  workspace :: path
  s_frozen :: bool
  processes :: "nat set"

definition new_session :: "nat \<Rightarrow> fs \<Rightarrow> val \<Rightarrow> string \<Rightarrow> session res" where
  "new_session n f ident wspace =
     rbind (resolve_strict n f (path_parts wspace)) (\<lambda>w.
       Inr \<lparr>identity = ident, workspace = w, s_frozen = False, processes = {}\<rparr>)"

definition session_path :: "nat \<Rightarrow> fs \<Rightarrow> session \<Rightarrow> string \<Rightarrow> path res" where
  "session_path n f s p =
     rbind (resolve n f [] (if is_absolute p then path_parts p else workspace s @ path_parts p)) (\<lambda>target.
       if take (length (workspace s)) target = workspace s then Inr target
       else Inl (ValueError ''SESSION_PATH_OUTSIDE_WORKSPACE''))"

definition read_file :: "nat \<Rightarrow> fs \<Rightarrow> session \<Rightarrow> string \<Rightarrow> nat list res" where
  "read_file n f s p =
     rbind (session_path n f s p) (\<lambda>target. read_bytes n f target)"

definition write_file :: "nat \<Rightarrow> disk \<Rightarrow> session \<Rightarrow> string \<Rightarrow> nat list \<Rightarrow> fs \<Rightarrow> fs \<times> unit res" where
  "write_file n d s p content f =
     (if s_frozen s then (f, Inl (RuntimeError ''TOOLS_FROZEN''))
      else (case session_path n f s p of
              Inl e \<Rightarrow> (f, Inl e)
            | Inr target \<Rightarrow> write_bytes n d target content f))"

definition run_start :: "nat \<Rightarrow> fs \<Rightarrow> session \<Rightarrow> val \<Rightarrow> int \<Rightarrow> string \<Rightarrow> nat \<Rightarrow> session \<times> nat res" where
  \<comment> \<open>\<open>run\<close> up to the start of the process, which gets the given number\<close>
  "run_start n f s argv timeout_ms cwd pid =
     (case argv of
        VList vs \<Rightarrow>
          if vs = [] \<or> \<not> list_all is_str vs then (s, Inl (TypeError ''SESSION_COMMAND_REQUIRES_ARGV''))
          else if timeout_ms \<le> 0 then (s, Inl (TimeoutError ''SESSION_COMMAND_TIMEOUT''))
          else if s_frozen s then (s, Inl (RuntimeError ''TOOLS_FROZEN''))
          else (case session_path n f s cwd of
                  Inl e \<Rightarrow> (s, Inl e)
                | Inr _ \<Rightarrow> (s\<lparr>processes := insert pid (processes s)\<rparr>, Inr pid))
      | _ \<Rightarrow> (s, Inl (TypeError ''SESSION_COMMAND_REQUIRES_ARGV'')))"

definition run_end :: "session \<Rightarrow> nat \<Rightarrow> session" where
  \<comment> \<open>the \<open>finally\<close> of \<open>run\<close>: the process is stopped and forgotten\<close>
  "run_end s pid = s\<lparr>processes := processes s - {pid}\<rparr>"

definition run_result :: "int \<Rightarrow> nat list \<Rightarrow> nat list \<Rightarrow> val" where
  "run_result exit_code stdout stderr =
     VDict [(''exit_code'', VInt exit_code), (''stdout'', VBytes stdout), (''stderr'', VBytes stderr)]"

definition freeze_tools :: "session \<Rightarrow> session" where
  "freeze_tools s = s\<lparr>s_frozen := True, processes := {}\<rparr>"

definition put_bytes :: "(string \<Rightarrow> val \<Rightarrow> val res) \<Rightarrow> nat list \<Rightarrow> val \<Rightarrow> val res" where
  \<comment> \<open>\<open>RpcFileWriter.put_bytes\<close> over \<open>peer.request\<close>\<close>
  "put_bytes request content media_type =
     request ''file.write_artifact''
       (VDict [(''content'', VList (map (\<lambda>b. VInt (int b)) content)), (''media_type'', media_type)])"

section \<open>Interleaved use\<close>

inductive session_step :: "nat \<Rightarrow> session \<times> fs \<Rightarrow> session \<times> fs \<Rightarrow> bool" for n where
  writes: "write_file n d s p content f = (f', r) \<Longrightarrow> session_step n (s, f) (s, f')"
| starts: "run_start n f s argv timeout_ms cwd pid = (s', r) \<Longrightarrow> session_step n (s, f) (s', f)"
| process_writes: "pid \<in> processes s \<Longrightarrow> session_step n (s, f) (s, f')"
| ends: "session_step n (s, f) (run_end s pid, f)"
| freezes: "session_step n (s, f) (freeze_tools s, f)"

inductive_cases session_stepE: "session_step n (s, f) (s', f')"

section \<open>Properties\<close>

lemma session_path_inside:
  "session_path n f s p = Inr target \<Longrightarrow> take (length (workspace s)) target = workspace s"
  by (auto simp: session_path_def rbind_Inr_iff split: if_splits)

text \<open>A path without links, at which the operating system stays.\<close>

definition plain :: "fs \<Rightarrow> path \<Rightarrow> bool" where
  "plain f p \<longleftrightarrow> (\<forall>k < length p. links f (take (Suc k) p) = None \<and> p ! k \<noteq> ''..'')"

lemma plain_butlast: "plain f p \<Longrightarrow> plain f (butlast p)"
  by (auto simp: plain_def take_butlast nth_butlast)

lemma plain_snoc: "plain f (acc @ [p]) \<longleftrightarrow> plain f acc \<and> p \<noteq> ''..'' \<and> links f (acc @ [p]) = None"
  by (auto simp: plain_def less_Suc_eq nth_append)

lemma plain_Cons: "plain f (acc @ p # ps) \<Longrightarrow> p \<noteq> ''..'' \<and> links f (acc @ [p]) = None"
  unfolding plain_def by (elim allE [of _ "length acc"]) simp

lemma resolve_plain: "resolve n f acc ps = Inr target \<Longrightarrow> plain f acc \<Longrightarrow> plain f target"
proof (induction n f acc ps rule: resolve.induct)
  case (3 n f acc p ps)
  show ?case
  proof (cases "p = ''..'' \<or> links f (acc @ [p]) = None")
    case True
    with 3 show ?thesis by (auto simp: plain_butlast plain_snoc split: if_splits)
  next
    case False
    then obtain l where "links f (acc @ [p]) = Some l" by auto
    with False 3 show ?thesis by (auto simp: plain_def split: if_splits)
  qed
qed simp_all

lemma resolve_length: "resolve n f acc ps = Inr target \<Longrightarrow> length target < n + length acc"
proof (induction n f acc ps rule: resolve.induct)
  case (3 n f acc p ps)
  then show ?case by (fastforce split: if_splits option.splits)
qed simp_all

lemma walk_plain: "walk n f acc ps = Inr place \<Longrightarrow> plain f (acc @ ps) \<Longrightarrow> place = acc @ ps"
proof (induction n f acc ps rule: walk.induct)
  case (3 n f acc p ps)
  from plain_Cons [OF 3(5)] 3 show ?case by (auto split: if_splits)
qed simp_all

lemma walk_reaches:
  "length ps < n \<Longrightarrow> plain f (acc @ ps) \<Longrightarrow> (\<forall>k < length ps. is_dir f (acc @ take k ps)) \<Longrightarrow> walk n f acc ps = Inr (acc @ ps)"
proof (induction n f acc ps rule: walk.induct)
  case (3 n f acc p ps)
  have "acc @ [p] \<in> dirs f" if "ps \<noteq> []"
    using 3(6) that by (auto dest!: spec [of _ 1])
  moreover have "\<forall>k < length ps. is_dir f ((acc @ [p]) @ take k ps)"
    using 3(6) by (metis append.assoc append_Cons append_Nil length_Cons not_less_eq take_Suc_Cons Suc_less_eq)
  ultimately show ?case using plain_Cons [OF 3(5)] 3 by auto
qed simp_all

lemma session_path_plain: "session_path n f s p = Inr target \<Longrightarrow> plain f target \<and> length target < n"
  by (auto simp: session_path_def rbind_Inr_iff plain_def [of _ "[]"] dest: resolve_plain resolve_length split: if_splits)

text \<open>C30: A write either fails and changes nothing, or touches exactly one file, whose place is below the
  workspace and reached through no link: it holds the whole content when the write succeeded and a
  beginning of it when the disk failed midway; the operating system itself follows the symbolic
  links of the path it is given. A write to a file in an existing directory of the workspace
  succeeds unless the disk fails.\<close>
theorem write_file_stays_inside:
  assumes "write_file n d s p content f = (f', r)"
  shows "links f' = links f \<and> dirs f' = dirs f \<and>
    ((\<exists>e. r = Inl e) \<and> f' = f \<or>
     (\<exists>target written. \<not> s_frozen s \<and> take (length (workspace s)) target = workspace s \<and> plain f target \<and> \<not> is_dir f target \<and>
        files f' = (files f)(target := Some written) \<and>
        (r = Inr () \<and> written = content \<or> (\<exists>e k. r = Inl e \<and> written = take k content)))) \<and>
    (\<forall>target. \<not> s_frozen s \<and> session_path n f s p = Inr target \<and> (\<forall>k < length target. is_dir f (take k target)) \<and>
       \<not> is_dir f target \<and> d = Complete \<longrightarrow> r = Inr ())"
proof (cases "s_frozen s \<or> \<not> ok (session_path n f s p)")
  case True
  with assms show ?thesis by (auto simp: write_file_def ok_iff split: if_splits sum.splits)
next
  case False
  then obtain target where t: "\<not> s_frozen s" "session_path n f s p = Inr target" by (auto simp: ok_iff)
  with assms have w: "write_bytes n d target content f = (f', r)" by (simp add: write_file_def)
  have plain: "plain f target" "length target < n" using session_path_plain [OF t(2)] by simp_all
  have inside: "take (length (workspace s)) target = workspace s" using t(2) by (rule session_path_inside)
  have place: "walk n f [] target = Inr place \<Longrightarrow> place = target" for place using walk_plain [of n f "[]"] plain(1) by simp
  have "walk n f [] target = Inr target" if "\<forall>k < length target. is_dir f (take k target)"
    using walk_reaches [of target n f "[]"] plain that by simp
  moreover have "is_dir f (butlast target)" if "\<forall>k < length target. is_dir f (take k target)" "target \<noteq> []"
    using that by (cases target rule: rev_cases) auto
  ultimately have "r = Inr ()" if "\<forall>k < length target. is_dir f (take k target)" "\<not> is_dir f target" "d = Complete"
    using w that by (simp add: write_bytes_def)
  moreover have "links f' = links f \<and> dirs f' = dirs f \<and> ((\<exists>e. r = Inl e) \<and> f' = f \<or>
     \<not> is_dir f target \<and> (\<exists>written. files f' = (files f)(target := Some written) \<and>
        (r = Inr () \<and> written = content \<or> (\<exists>e k. r = Inl e \<and> written = take k content))))"
    using w by (auto simp: write_bytes_def dest!: place split: sum.splits if_splits disk.splits)
  ultimately show ?thesis using t plain(1) inside by auto
qed

definition session_ok :: "session \<times> fs \<Rightarrow> bool" where
  "session_ok st \<longleftrightarrow> (s_frozen (fst st) \<longrightarrow> processes (fst st) = {})"

interpretation session_run: step_invariant "\<lambda>st. processes (fst st) = {}" "session_step n" session_ok for n
proof
  show "processes (fst st) = {} \<Longrightarrow> session_ok st" for st by (simp add: session_ok_def)
  show "session_ok st \<Longrightarrow> session_step n st st' \<Longrightarrow> session_ok st'" for st st'
    by (erule session_step.cases)
       (auto simp: session_ok_def run_start_def run_end_def freeze_tools_def split: val.splits if_splits sum.splits)
qed

lemma frozen_step:
  "session_ok st \<Longrightarrow> s_frozen (fst st) \<and> snd st = f \<Longrightarrow> session_step n st st' \<Longrightarrow> s_frozen (fst st') \<and> snd st' = f"
  by (erule session_step.cases)
     (auto simp: session_ok_def write_file_def run_start_def run_end_def freeze_tools_def split: val.splits if_splits sum.splits)

text \<open>From the moment a session is frozen no operation changes a file through it, starts a process or
  unfreezes it.\<close>
theorem frozen_session_is_immutable:
  assumes "reachable (\<lambda>st. processes (fst st) = {}) (session_step n) (s, f)" "s_frozen s"
    and "(session_step n)\<^sup>*\<^sup>* (s, f) (s', f')"
  shows "f' = f \<and> s_frozen s' \<and> processes s' = {}"
proof -
  have ok: "session_ok (s, f)" using assms(1) by (rule session_run.reachable_inv)
  have "s_frozen (fst (s', f')) \<and> snd (s', f') = f"
    by (rule session_run.run_stable [OF assms(3) ok frozen_step]) (use assms(2) in auto)
  moreover have "session_ok (s', f')" using assms(3) ok by (rule session_run.run_inv)
  ultimately show ?thesis by (simp add: session_ok_def)
qed

definition demo_fs :: fs where
  \<comment> \<open>a workspace with one link to a directory inside and one to a directory outside\<close>
  "demo_fs = \<lparr>files = (\<lambda>p. None), dirs = {[''w''], [''w'', ''d''], [''etc'']},
     links = [[''w'', ''out''] \<mapsto> \<lparr>link_absolute = True, link_target = [''etc'']\<rparr>,
              [''w'', ''in''] \<mapsto> \<lparr>link_absolute = False, link_target = [''d'']\<rparr>]\<rparr>"

definition demo_session :: session where
  "demo_session = \<lparr>identity = VNone, workspace = [''w''], s_frozen = False, processes = {}\<rparr>"

theorem write_file_stays_inside_witness:
  "snd (write_file 9 Complete demo_session ''out/passwd'' [1] demo_fs) = Inl (ValueError ''SESSION_PATH_OUTSIDE_WORKSPACE'') \<and>
   files (fst (write_file 9 Complete demo_session ''out/passwd'' [1] demo_fs)) [''etc'', ''passwd''] = None \<and>
   snd (write_file 9 Complete demo_session ''in/a'' [1] demo_fs) = Inr () \<and>
   files (fst (write_file 9 Complete demo_session ''in/a'' [1] demo_fs)) [''w'', ''d'', ''a''] = Some [1] \<and>
   dirs (fst (write_file 9 (Torn 0) demo_session ''in/a'' [1] demo_fs)) = dirs demo_fs"
proof -
  have "snd (write_file 9 Complete demo_session ''out/passwd'' [1] demo_fs) = Inl (ValueError ''SESSION_PATH_OUTSIDE_WORKSPACE'')"
    "snd (write_file 9 Complete demo_session ''in/a'' [1] demo_fs) = Inr ()"
    "files (fst (write_file 9 Complete demo_session ''out/passwd'' [1] demo_fs)) [''etc'', ''passwd''] = None"
    "files (fst (write_file 9 Complete demo_session ''in/a'' [1] demo_fs)) [''w'', ''d'', ''a''] = Some [1]"
    by code_simp+
  moreover have "dirs (fst (write_file 9 (Torn 0) demo_session ''in/a'' [1] demo_fs)) = dirs demo_fs"
    using write_file_stays_inside [OF prod.collapse [symmetric], of 9 "Torn 0" demo_session "''in/a''" "[1]" demo_fs] by simp
  ultimately show ?thesis by simp
qed

theorem frozen_session_is_immutable_witness:
  "fst (write_file 9 Complete (freeze_tools demo_session) ''a'' [1] demo_fs) = demo_fs"
proof -
  obtain f r where w: "write_file 9 Complete (freeze_tools demo_session) ''a'' [1] demo_fs = (f, r)" by fastforce
  then have run: "(session_step 9)\<^sup>*\<^sup>* (freeze_tools demo_session, demo_fs) (freeze_tools demo_session, f)"
    by (intro r_into_rtranclp writes)
  have "reachable (\<lambda>st. processes (fst st) = {}) (session_step 9) (freeze_tools demo_session, demo_fs)"
    by (rule reachable.start) (simp add: freeze_tools_def)
  from frozen_session_is_immutable [OF this _ run] w show ?thesis by (simp add: freeze_tools_def)
qed

end
