(* ===== verification/Env_Host.thy ===== *)
theory Env_Host
  imports Tool_Correct
begin

text \<open>
  The environment role process (\<open>reference/sdk/src/uenv/sdk/environment_host.py\<close>). The plugin of
  the dataset package acts on a world \<open>'w\<close> that holds its environment object, the artifacts and
  the session; its four methods are fields of the package, and calling a shutdown callable, the
  session's \<open>freeze_tools\<close> among them, is a function on the world. A handler takes the parameters
  of its request and returns the new host and world with the result or the exception, so that what
  was assigned before an exception stays assigned. The clock reading is an argument.
\<close>

record env_context =
  ec_deadline :: dbl
  ec_seed :: val

record 'w env_package =
  ep_input_model :: string
  ep_config_model :: "string option"
  ep_state_model :: "string option"
  ep_new :: "val \<Rightarrow> 'w \<Rightarrow> 'w \<times> unit res"                        \<comment> \<open>\<open>package['environment'](config)\<close>\<close>
  ep_reset :: "task_spec \<Rightarrow> env_context \<Rightarrow> 'w \<Rightarrow> 'w \<times> val res"
  ep_snapshot :: "env_context \<Rightarrow> 'w \<Rightarrow> 'w \<times> val res"
  ep_close :: "env_context \<Rightarrow> 'w \<Rightarrow> 'w \<times> unit res"

record 'w env_host =
  eh_component :: val
  eh_environment :: bool          \<comment> \<open>\<open>self.environment is not None\<close>\<close>
  eh_context :: "env_context option"
  eh_tools :: "'w tool_host"
  eh_identity :: val              \<comment> \<open>\<open>self.session.identity\<close>\<close>
  eh_reset :: bool
  eh_closed :: bool

record 'w env_setup =
  es_lib :: lib
  es_frames :: nat
  es_ctab :: ctab
  es_sids :: sids
  es_registry :: registry
  es_package :: "'w env_package"
  es_definitions :: "(string \<times> 'w tool_definition) list"
  es_shutdown :: "string \<Rightarrow> 'w \<Rightarrow> 'w \<times> unit res"   \<comment> \<open>calling a shutdown callable\<close>

type_synonym 'w env_reply = "'w env_host \<times> 'w \<times> val res"

definition new_env_host :: "val \<Rightarrow> val \<Rightarrow> 'w env_host" where
  "new_env_host component ident = \<lparr>eh_component = component, eh_environment = False, eh_context = None,
     eh_tools = new_tool_host, eh_identity = ident, eh_reset = False, eh_closed = False\<rparr>"

definition empty_config :: string where
  "empty_config = ''uenv://schemas/vnext/EmptyConfig''"

definition config_schema :: "sids \<Rightarrow> string option \<Rightarrow> val" where
  \<comment> \<open>\<open>model.__schema_id__ if model else EmptyConfig\<close>\<close>
  "config_schema sids model = (case model of None \<Rightarrow> VStr empty_config | Some m \<Rightarrow> schema_id_val sids m)"

definition check_prepare :: "'w env_setup \<Rightarrow> 'w env_host \<Rightarrow> val \<Rightarrow> val res" where
  "check_prepare S h params =
     rbind (if eh_environment h then Inr False
            else rbind (item params ''dataset_package'') (\<lambda>p. Inr (py_eq p (eh_component h)))) (\<lambda>matches.
     rbind (guard matches (RpcError ''ENVIRONMENT_PACKAGE_MISMATCH'')) (\<lambda>_.
     rbind (item params ''session'') (\<lambda>ses.
     rbind (guard (py_eq ses (eh_identity h)) (RpcError ''ENVIRONMENT_SESSION_MISMATCH'')) (\<lambda>_.
     rbind (item params ''environment'') (\<lambda>config.
     rbind (item config ''schema_ref'') (\<lambda>schema_ref.
     rbind (guard (py_eq schema_ref (config_schema (es_sids S) (ep_config_model (es_package S))))
              (RpcError ''ENVIRONMENT_CONFIG_SCHEMA_MISMATCH'')) (\<lambda>_.
     rbind (validate (es_lib S) (es_registry S) ''TypedConfig'' config) (\<lambda>_.
       item config ''data''))))))))"

definition prepare_environment :: "'w env_setup \<Rightarrow> val \<Rightarrow> 'w env_host \<Rightarrow> 'w \<Rightarrow> 'w env_reply" where
  "prepare_environment S params h w =
     (case check_prepare S h params of
        Inl e \<Rightarrow> (h, w, Inl e)
      | Inr data \<Rightarrow>
          (case ep_new (es_package S) data w of
             (w', Inl e) \<Rightarrow> (h, w', Inl e)
           | (w', Inr _) \<Rightarrow> (h\<lparr>eh_environment := True\<rparr>, w', Inr VNone)))"

definition deadline_after :: "dbl \<Rightarrow> val \<Rightarrow> dbl res" where
  \<comment> \<open>\<open>time.monotonic() + remaining / 1000\<close>; only the quotient of an integer can be too large\<close>
  "deadline_after now remaining =
     rbind (as_num remaining) (\<lambda>r.
       case r of
         Fin x \<Rightarrow> (case rnd (x / 1000) of
                     Fin y \<Rightarrow> Inr (case now of Fin t \<Rightarrow> rnd (t + y) | _ \<Rightarrow> now)
                   | _ \<Rightarrow> Inl OverflowError)
       | _ \<Rightarrow> Inr r)"

definition make_context :: "dbl \<Rightarrow> val \<Rightarrow> val \<Rightarrow> 'w env_host \<Rightarrow> 'w env_host \<times> env_context res" where
  \<comment> \<open>\<open>_context(remaining, seed)\<close>: without a seed, the seed of the last context\<close>
  "make_context now remaining seed h =
     (let s = (if seed = VNone then (case eh_context h of Some c \<Rightarrow> ec_seed c | None \<Rightarrow> VNone) else seed)
      in case deadline_after now remaining of
           Inl e \<Rightarrow> (h, Inl e)
         | Inr d \<Rightarrow> (h\<lparr>eh_context := Some \<lparr>ec_deadline = d, ec_seed = s\<rparr>\<rparr>, Inr \<lparr>ec_deadline = d, ec_seed = s\<rparr>))"

definition check_reset :: "'w env_setup \<Rightarrow> 'w env_host \<Rightarrow> val \<Rightarrow> task_spec res" where
  "check_reset S h params =
     rbind (guard (eh_environment h \<and> \<not> eh_reset h) (RpcError ''ENVIRONMENT_RESET_STATE_INVALID'')) (\<lambda>_.
     rbind (item params ''task'') (\<lambda>task.
     rbind (validate (es_lib S) (es_registry S) ''TaskSpec'' task) (\<lambda>_.
       task_from_wire (es_frames S) (es_ctab S) (es_sids S) task (ep_input_model (es_package S)))))"

definition checked_observation :: "'w env_setup \<Rightarrow> val \<Rightarrow> val res" where
  "checked_observation S obs =
     rbind (to_wire (es_sids S) obs) (\<lambda>result.
     rbind (validate (es_lib S) (es_registry S) ''Observation'' result) (\<lambda>_. Inr result))"

definition reset_environment :: "'w env_setup \<Rightarrow> dbl \<Rightarrow> val \<Rightarrow> 'w env_host \<Rightarrow> 'w \<Rightarrow> 'w env_reply" where
  "reset_environment S now params h w =
     (case check_reset S h params of
        Inl e \<Rightarrow> (h, w, Inl e)
      | Inr task \<Rightarrow>
          (let h1 = h\<lparr>eh_reset := True\<rparr>
           in case rbind (item params ''remaining_timeout_ms'') (\<lambda>remaining.
                   rbind (item params ''seed'') (\<lambda>seed. Inr (remaining, seed))) of
                Inl e \<Rightarrow> (h1, w, Inl e)
              | Inr (remaining, seed) \<Rightarrow>
                  (case make_context now remaining seed h1 of
                     (h2, Inl e) \<Rightarrow> (h2, w, Inl e)
                   | (h2, Inr ctx) \<Rightarrow>
                       (let (w', obs) = ep_reset (es_package S) task ctx w
                        in (h2, w', rbind obs (checked_observation S))))))"

definition session_freeze :: string where
  \<comment> \<open>names the callable \<open>self.session.freeze_tools\<close>\<close>
  "session_freeze = ''session.freeze_tools''"

definition tool_contexts :: "val list \<Rightarrow> (string \<times> tool_context) list res" where
  \<comment> \<open>every sandbox tool sees its own configuration, the environment and the session\<close>
  "tool_contexts bindings =
     rbind (rmap (\<lambda>b. rbind (item b ''name'') (\<lambda>nm. rbind (as_str nm) (\<lambda>name.
                      rbind (item b ''config'') (\<lambda>c. rbind (item c ''data'') (\<lambda>data.
                        Inr (name, \<lparr>tc_config = data, tc_environment = VOpaque ''environment'',
                                    tc_freeze = Some session_freeze\<rparr>)))))) bindings)
       (\<lambda>ps. Inr (fold (\<lambda>p d. AList.update (fst p) (snd p) d) ps []))"

definition check_prepare_tools :: "'w env_host \<Rightarrow> val \<Rightarrow> val list res" where
  "check_prepare_tools h params =
     rbind (if \<not> eh_environment h then Inr False
            else rbind (item params ''session'') (\<lambda>ses. Inr (py_eq ses (eh_identity h)))) (\<lambda>matches.
     rbind (guard matches (RpcError ''TOOL_SESSION_MISMATCH'')) (\<lambda>_.
     rbind (item params ''tools'') (\<lambda>t. rbind (as_list t) (\<lambda>bindings.
     rbind (rany (\<lambda>b. rbind (item b ''execution_scope'') (\<lambda>scope.
                      if \<not> py_eq scope (VStr ''sandbox'') then Inr True else has b ''native_agent'')) bindings) (\<lambda>foreign.
     rbind (guard (\<not> foreign) (RpcError ''TOOL_EXECUTION_SCOPE_MISMATCH'')) (\<lambda>_. Inr bindings))))))"

definition prepare_tools :: "'w env_setup \<Rightarrow> val \<Rightarrow> 'w env_host \<Rightarrow> 'w \<Rightarrow> 'w env_reply" where
  "prepare_tools S params h w =
     (case rbind (check_prepare_tools h params) (\<lambda>bindings.
           rbind (tool_contexts bindings) (\<lambda>contexts. Inr (bindings, contexts))) of
        Inl e \<Rightarrow> (h, w, Inl e)
      | Inr (bindings, contexts) \<Rightarrow>
          (let (t, r) = prepare (es_lib S) (es_registry S) bindings (es_definitions S) contexts (VDict []) (eh_tools h)
           in (h\<lparr>eh_tools := t\<rparr>, w, rbind r (\<lambda>bs. Inr (VList bs)))))"

definition validate_tool :: "'w env_setup \<Rightarrow> val \<Rightarrow> 'w env_host \<Rightarrow> unit res" where
  "validate_tool S params h =
     rbind (item params ''binding'') (\<lambda>binding. rbind (item params ''call'') (\<lambda>call.
       validate_call (es_lib S) (eh_tools h) binding call))"

definition execute_tool :: "'w env_setup \<Rightarrow> val \<Rightarrow> 'w env_host \<Rightarrow> 'w \<Rightarrow> 'w env_reply" where
  "execute_tool S params h w =
     (case rbind (validate_tool S params h) (\<lambda>_. item params ''call'') of
        Inl e \<Rightarrow> (h, w, Inl e)
      | Inr call \<Rightarrow>
          (let (w', r) = execute_call (es_lib S) (es_sids S) (es_registry S) (eh_tools h) call w in (h, w', r)))"

definition freeze_environment :: "'w env_setup \<Rightarrow> bool \<Rightarrow> 'w env_host \<Rightarrow> 'w \<Rightarrow> 'w env_reply" where
  \<comment> \<open>the flag tells whether a background thread is alive when the tools freeze\<close>
  "freeze_environment S threads_alive h w =
     (case freeze (es_shutdown S) threads_alive (eh_tools h) w of
        (t, w', Inl e) \<Rightarrow> (h\<lparr>eh_tools := t\<rparr>, w', Inl e)
      | (t, w', Inr _) \<Rightarrow>
          (let (w2, r) = es_shutdown S session_freeze w' in (h\<lparr>eh_tools := t\<rparr>, w2, rbind r (\<lambda>_. Inr VNone))))"

fun instance_of :: "val \<Rightarrow> string option \<Rightarrow> bool" where
  \<comment> \<open>\<open>isinstance(state, expected)\<close> for the classes of a package, none of which is derived from another\<close>
  "instance_of (VModel c d) (Some m) = (c = m)"
| "instance_of _ _ = False"

definition checked_state :: "'w env_setup \<Rightarrow> val \<Rightarrow> val res" where
  "checked_state S state =
     rbind (to_wire (es_sids S) state) (\<lambda>result.
       if result = VNone then Inr VNone
       else if \<not> instance_of state (ep_state_model (es_package S))
       then Inl (RpcError ''ENVIRONMENT_STATE_SCHEMA_MISMATCH'')
       else rbind (validate (es_lib S) (es_registry S) ''TypedConfig'' result) (\<lambda>_. Inr result))"

definition state_snapshot :: "'w env_setup \<Rightarrow> dbl \<Rightarrow> val \<Rightarrow> 'w env_host \<Rightarrow> 'w \<Rightarrow> 'w env_reply" where
  "state_snapshot S now params h w =
     (if \<not> settled (eh_tools h) then (h, w, Inl (RpcError ''TOOLS_NOT_FROZEN''))
      else if \<not> eh_environment h then (h, w, Inl (AttributeError ''state_snapshot''))
      else (case item params ''remaining_timeout_ms'' of
              Inl e \<Rightarrow> (h, w, Inl e)
            | Inr remaining \<Rightarrow>
                (case make_context now remaining VNone h of
                   (h1, Inl e) \<Rightarrow> (h1, w, Inl e)
                 | (h1, Inr ctx) \<Rightarrow>
                     (let (w', state) = ep_snapshot (es_package S) ctx w
                      in (h1, w', rbind state (checked_state S))))))"

definition close_environment :: "'w env_setup \<Rightarrow> bool \<Rightarrow> dbl \<Rightarrow> 'w env_host \<Rightarrow> 'w \<Rightarrow> 'w env_reply" where
  \<comment> \<open>the plugin is closed even when freezing raised; the exception of the plugin wins\<close>
  "close_environment S threads_alive now h w =
     (if eh_closed h then (h, w, Inr VNone)
      else (let (t, w1, r1) = freeze (es_shutdown S) threads_alive (eh_tools h) w;
                h1 = h\<lparr>eh_tools := t\<rparr>
            in if \<not> eh_environment h then (h1\<lparr>eh_closed := True\<rparr>, w1, rbind r1 (\<lambda>_. Inr VNone))
               else (case make_context now (VInt 5000)
                            (case eh_context h of Some c \<Rightarrow> ec_seed c | None \<Rightarrow> VInt 0) h1 of
                       (h2, Inl e) \<Rightarrow> (h2\<lparr>eh_closed := True\<rparr>, w1, Inl e)
                     | (h2, Inr ctx) \<Rightarrow>
                         (case ep_close (es_package S) ctx w1 of
                            (w2, Inl e) \<Rightarrow> (h2\<lparr>eh_closed := True\<rparr>, w2, Inl e)
                          | (w2, Inr _) \<Rightarrow> (h2\<lparr>eh_closed := True\<rparr>, w2, rbind r1 (\<lambda>_. Inr VNone))))))"

section \<open>The served requests\<close>

datatype env_request =
    Env_Prepare val | Env_Reset val | Env_Snapshot val
  | Tools_Prepare val | Tools_Validate val | Tools_Execute val | Tools_Freeze bool | Host_Close bool

fun serve :: "'w env_setup \<Rightarrow> dbl \<Rightarrow> env_request \<Rightarrow> 'w env_host \<Rightarrow> 'w \<Rightarrow> 'w env_reply" where
  \<comment> \<open>the handler table of \<open>bind\<close>\<close>
  "serve S now (Env_Prepare p) h w = prepare_environment S p h w"
| "serve S now (Env_Reset p) h w = reset_environment S now p h w"
| "serve S now (Env_Snapshot p) h w = state_snapshot S now p h w"
| "serve S now (Tools_Prepare p) h w = prepare_tools S p h w"
| "serve S now (Tools_Validate p) h w = (h, w, rbind (validate_tool S p h) (\<lambda>_. Inr VNone))"
| "serve S now (Tools_Execute p) h w = execute_tool S p h w"
| "serve S now (Tools_Freeze alive) h w = freeze_environment S alive h w"
| "serve S now (Host_Close alive) h w = close_environment S alive now h w"


fun serve_all :: "'w env_setup \<Rightarrow> (dbl \<times> env_request) list \<Rightarrow> 'w env_host \<Rightarrow> 'w \<Rightarrow> 'w env_host \<times> 'w" where
  "serve_all S [] h w = (h, w)"
| "serve_all S ((now, q) # qs) h w = (let (h', w', r) = serve S now q h w in serve_all S qs h' w')"

section \<open>The life of a host\<close>

definition env_host_ok :: "'w env_host \<Rightarrow> bool" where
  "env_host_ok h \<longleftrightarrow> (settled (eh_tools h) \<longrightarrow> frozen (eh_tools h)) \<and> (eh_reset h \<longrightarrow> eh_environment h)"

definition env_progress :: "'w env_host \<Rightarrow> 'w env_host \<Rightarrow> bool" where
  \<comment> \<open>no flag of the host is ever taken back\<close>
  "env_progress h h' \<longleftrightarrow> (env_host_ok h \<longrightarrow> env_host_ok h') \<and>
     (eh_environment h \<longrightarrow> eh_environment h') \<and> (eh_reset h \<longrightarrow> eh_reset h') \<and> (eh_closed h \<longrightarrow> eh_closed h') \<and>
     (frozen (eh_tools h) \<longrightarrow> frozen (eh_tools h')) \<and> (settled (eh_tools h) \<longrightarrow> settled (eh_tools h')) \<and>
     (prepared (eh_tools h) \<longrightarrow> prepared (eh_tools h') \<and> tools (eh_tools h') = tools (eh_tools h))"

lemma env_progress_refl: "env_progress h h"
  by (simp add: env_progress_def)

lemma env_progress_trans: "env_progress h h1 \<Longrightarrow> env_progress h1 h2 \<Longrightarrow> env_progress h h2"
  by (auto simp: env_progress_def)

lemma make_context_host: "make_context now remaining seed h = (h', r) \<Longrightarrow> \<exists>c. h' = h\<lparr>eh_context := c\<rparr>"
  by (cases "deadline_after now remaining")
     (auto simp: make_context_def Let_def intro: exI [of _ "eh_context h"])

lemma env_progress_context: "env_progress h h1 \<Longrightarrow> make_context now remaining seed h1 = (h2, r) \<Longrightarrow> env_progress h h2"
proof -
  assume a: "env_progress h h1" "make_context now remaining seed h1 = (h2, r)"
  from make_context_host [OF a(2)] obtain c where "h2 = h1\<lparr>eh_context := c\<rparr>" ..
  with a(1) show ?thesis by (simp add: env_progress_def env_host_ok_def)
qed

lemma freeze_progress: "freeze run alive t w = (t', w', r) \<Longrightarrow> env_progress h (h\<lparr>eh_tools := t'\<rparr>)" if "eh_tools h = t"
  using that by (auto simp: freeze_def env_progress_def env_host_ok_def split: if_splits prod.splits sum.splits)

lemma prepare_progress:
  "prepare L reg bs ds cs a (eh_tools h) = (t, r) \<Longrightarrow> env_progress h (h\<lparr>eh_tools := t\<rparr>)"
  by (auto simp: prepare_def env_progress_def env_host_ok_def split: if_splits sum.splits)

lemma reset_progress:
  assumes "reset_environment S now p h w = (h', w', r)"
  shows "env_progress h h'"
proof (cases "check_reset S h p")
  case (Inr task)
  then have "eh_environment h" by (auto simp: check_reset_def rbind_Inr_iff guard_Inr_iff)
  then have "env_progress h (h\<lparr>eh_reset := True\<rparr>)" by (simp add: env_progress_def env_host_ok_def)
  with assms Inr show ?thesis
    by (auto simp: reset_environment_def Let_def split: sum.splits prod.splits intro: env_progress_context)
qed (use assms in \<open>auto simp: reset_environment_def env_progress_refl\<close>)

lemma close_progress:
  assumes "close_environment S alive now h w = (h', w', r)"
  shows "env_progress h h'"
proof -
  obtain t w1 r1 where f: "freeze (es_shutdown S) alive (eh_tools h) w = (t, w1, r1)" by (metis prod_cases3)
  have p: "env_progress h (h\<lparr>eh_tools := t\<rparr>)" by (rule freeze_progress [OF refl f])
  have c: "env_progress h1 (h1\<lparr>eh_closed := True\<rparr>)" for h1 :: "'a env_host" by (simp add: env_progress_def env_host_ok_def)
  show ?thesis using assms f p
    by (auto simp: close_environment_def Let_def env_progress_refl split: if_splits sum.splits prod.splits
        intro: env_progress_trans [OF _ c] env_progress_context)
qed

lemma serve_progress: "serve S now q h w = (h', w', r) \<Longrightarrow> env_progress h h'"
proof (cases q)
  case (Env_Prepare p)
  then show "serve S now q h w = (h', w', r) \<Longrightarrow> ?thesis"
    by (auto simp: prepare_environment_def env_progress_def env_host_ok_def split: sum.splits prod.splits)
next
  case (Env_Snapshot p)
  then show "serve S now q h w = (h', w', r) \<Longrightarrow> ?thesis"
    by (auto simp: state_snapshot_def Let_def env_progress_refl split: if_splits sum.splits prod.splits
        intro: env_progress_context [OF env_progress_refl])
next
  case (Tools_Prepare p)
  then show "serve S now q h w = (h', w', r) \<Longrightarrow> ?thesis"
    by (auto simp: prepare_tools_def Let_def env_progress_refl split: sum.splits prod.splits intro: prepare_progress)
next
  case (Tools_Freeze p)
  then show "serve S now q h w = (h', w', r) \<Longrightarrow> ?thesis"
    by (auto simp: freeze_environment_def Let_def split: sum.splits prod.splits intro: freeze_progress)
qed (auto simp: execute_tool_def Let_def env_progress_refl split: sum.splits prod.splits intro: reset_progress close_progress)

lemma serve_all_progress: "serve_all S qs h w = (h', w') \<Longrightarrow> env_progress h h'"
proof (induction qs arbitrary: h w)
  case (Cons q qs)
  obtain now k where q: "q = (now, k)" by (cases q)
  obtain h1 w1 r where "serve S now k h w = (h1, w1, r)" by (metis prod_cases3)
  with Cons.IH [of h1 w1] Cons.prems q show ?case using serve_progress env_progress_trans by fastforce
qed (simp add: env_progress_refl)

lemma execute_tool_frozen:
  assumes "frozen (eh_tools h)"
  shows "\<exists>e. execute_tool S p h w = (h, w, Inl e)"
  using assms by (auto simp: execute_tool_def frozen_call Let_def split: sum.splits)

text \<open>After the snapshot: every request but a further snapshot or a close leaves the world alone,
  except that a freeze runs the session's own freeze once more.\<close>

fun moves_view :: "env_request \<Rightarrow> bool" where
  "moves_view (Env_Snapshot p) = True"
| "moves_view (Host_Close alive) = True"
| "moves_view q = False"

fun is_freeze :: "env_request \<Rightarrow> bool" where
  "is_freeze (Tools_Freeze alive) = True"
| "is_freeze q = False"

definition refreeze :: "'w env_setup \<Rightarrow> 'w \<Rightarrow> 'w" where
  "refreeze S w = fst (es_shutdown S session_freeze w)"

definition viewed :: "'w env_host \<Rightarrow> bool" where
  \<comment> \<open>the environment was made and reset, and the tools are settled\<close>
  "viewed h \<longleftrightarrow> env_host_ok h \<and> eh_environment h \<and> eh_reset h \<and> settled (eh_tools h)"

lemma viewed_stays: "viewed h \<Longrightarrow> env_progress h h' \<Longrightarrow> viewed h'"
  by (auto simp: viewed_def env_progress_def)

lemma viewed_world:
  assumes "viewed h" "serve S now q h w = (h', w', r)" "\<not> moves_view q"
  shows "w' = (if is_freeze q then refreeze S w else w)"
proof -
  from assms(1) have h: "eh_environment h" "eh_reset h" "settled (eh_tools h)" "frozen (eh_tools h)"
    by (auto simp: viewed_def env_host_ok_def)
  show ?thesis
  proof (cases q)
    case (Env_Prepare p)
    with assms(2) h show ?thesis by (auto simp: prepare_environment_def check_prepare_def guard_def)
  next
    case (Env_Reset p)
    with assms(2) h show ?thesis by (auto simp: reset_environment_def check_reset_def guard_def)
  next
    case (Tools_Prepare p)
    with assms(2) show ?thesis by (auto simp: prepare_tools_def split: sum.splits prod.splits)
  next
    case (Tools_Execute p)
    with assms(2) execute_tool_frozen [OF h(4), of S p w] show ?thesis by auto
  next
    case (Tools_Freeze alive)
    with assms(2) h show ?thesis
      by (auto simp: freeze_environment_def freeze_def refreeze_def split: prod.splits)
  qed (use assms(2,3) in auto)
qed

lemma viewed_world_all:
  assumes "viewed h" "serve_all S qs h w = (h', w')" "\<forall>x \<in> set qs. \<not> moves_view (snd x)"
  shows "w' = (refreeze S ^^ length (filter (\<lambda>x. is_freeze (snd x)) qs)) w"
  using assms
proof (induction qs arbitrary: h w)
  case (Cons x qs)
  obtain now q h1 w1 r where x: "x = (now, q)" and s: "serve S now q h w = (h1, w1, r)" by (metis prod_cases3 surj_pair)
  from Cons.prems(1) serve_progress [OF s] have "viewed h1" by (rule viewed_stays)
  with Cons.IH [of h1 w1] Cons.prems x s viewed_world [OF Cons.prems(1) s] show ?case
    by (auto simp: funpow_swap1)
qed simp

text \<open>C13: A state snapshot is only taken of a settled tool host; whatever requests follow, every tool call
  among them is refused without touching the world, and when the environment had been reset,
  requests other than a further snapshot or a close leave the world as the snapshot left it,
  except that each further freeze runs the session's own freeze once more. (What a background task
  does that outlives the freeze is no request; see the schedule of the tool host.)\<close>
theorem snapshot_view_is_final:
  assumes "serve S now (Env_Snapshot p) h w = (h1, w1, Inr state)" "env_host_ok h"
    and "serve_all S qs h1 w1 = (h2, w2)"
  shows "settled (eh_tools h) \<and> (\<forall>now2 q. \<exists>e. serve S now2 (Tools_Execute q) h2 w2 = (h2, w2, Inl e)) \<and>
    (eh_reset h \<and> (\<forall>x \<in> set qs. \<not> moves_view (snd x)) \<longrightarrow>
      w2 = (refreeze S ^^ length (filter (\<lambda>x. is_freeze (snd x)) qs)) w1)"
proof -
  from assms(1) have s: "settled (eh_tools h)" "eh_environment h" by (auto simp: state_snapshot_def split: if_splits)
  with assms(2) have "frozen (eh_tools h)" by (simp add: env_host_ok_def)
  moreover have "env_progress h h2"
    using serve_progress [OF assms(1)] serve_all_progress [OF assms(3)] by (rule env_progress_trans)
  ultimately have "\<exists>e. serve S now2 (Tools_Execute q) h2 w2 = (h2, w2, Inl e)" for now2 q
    using execute_tool_frozen by (auto simp: env_progress_def)
  moreover have "viewed h1" if "eh_reset h"
    using that s assms(2) serve_progress [OF assms(1)] by (auto simp: env_progress_def viewed_def)
  ultimately show ?thesis using s viewed_world_all [OF _ assms(3)] by blast
qed

text \<open>Once a reset of the environment succeeded, every later reset is refused, whatever requests of
  any kind come in between.\<close>
theorem environment_resets_once:
  assumes "serve S now (Env_Reset p) h w = (h1, w1, Inr obs)" "serve_all S qs h1 w1 = (h2, w2)"
  shows "serve S now2 (Env_Reset q) h2 w2 = (h2, w2, Inl (RpcError ''ENVIRONMENT_RESET_STATE_INVALID''))"
proof -
  obtain task where "check_reset S h p = Inr task" using assms(1)
    by (cases "check_reset S h p") (auto simp: reset_environment_def)
  with assms(1) have "eh_reset h1"
    by (auto simp: reset_environment_def Let_def split: sum.splits prod.splits dest!: make_context_host)
  with serve_all_progress [OF assms(2)] have "eh_reset h2" by (simp add: env_progress_def)
  then show ?thesis by (simp add: reset_environment_def check_reset_def)
qed


section \<open>A small package\<close>

definition small_setup :: "nat env_setup" where
  "small_setup = \<lparr>es_lib = rational_lib, es_frames = 9, es_ctab = package_models,
     es_sids = [(''Gsm8kInput'', ''urn:i'')],
     es_registry = \<lparr>core = VDict [(''$id'', VStr ''urn:core''),
       (''$defs'', VDict [(''TaskSpec'', VBool True), (''Observation'', VBool True)])], extensions = []\<rparr>,
     es_package = \<lparr>ep_input_model = ''Gsm8kInput'', ep_config_model = None, ep_state_model = None,
       ep_new = (\<lambda>c w. (w, Inr ())),
       ep_reset = (\<lambda>t c w. (Suc w, rbind (item (task_input t) ''instruction'') (\<lambda>q. Inr (observation [text_part q] False False)))),
       ep_snapshot = (\<lambda>c w. (w, Inr VNone)), ep_close = (\<lambda>c w. (w, Inr ()))\<rparr>,
     es_definitions = [], es_shutdown = (\<lambda>s w. (w, Inr ()))\<rparr>"

definition small_host :: "nat env_host" where
  "small_host = (new_env_host VNone VNone)\<lparr>eh_environment := True\<rparr>"

definition small_reset :: val where
  "small_reset = VDict [(''task'', VDict [(''task_id'', VStr ''t''), (''dataset'', VNone), (''sample_id'', VStr ''s''),
       (''input'', VDict [(''schema_ref'', VStr ''urn:i''), (''data'', VDict [(''instruction'', VStr ''2+2?'')])])]),
     (''remaining_timeout_ms'', VInt 0), (''seed'', VInt 1)]"

definition small_snapshot :: val where
  "small_snapshot = VDict [(''remaining_timeout_ms'', VInt 0)]"

theorem environment_resets_once_witness:
  "\<exists>h w obs. serve small_setup (Fin 0) (Env_Reset small_reset) small_host 0 = (h, w, Inr obs) \<and>
     serve small_setup (Fin 1) (Env_Reset small_reset) h w = (h, w, Inl (RpcError ''ENVIRONMENT_RESET_STATE_INVALID''))"
proof -
  have "ok (snd (snd (serve small_setup (Fin 0) (Env_Reset small_reset) small_host 0)))" by code_simp
  then obtain h w obs where r: "serve small_setup (Fin 0) (Env_Reset small_reset) small_host 0 = (h, w, Inr obs)"
    by (cases "serve small_setup (Fin 0) (Env_Reset small_reset) small_host 0") (auto simp: ok_iff)
  from environment_resets_once [OF r serve_all.simps(1)] r show ?thesis by blast
qed

definition viewed_host :: "nat env_host" where
  "viewed_host = small_host\<lparr>eh_reset := True, eh_tools := new_tool_host\<lparr>frozen := True, settled := True\<rparr>\<rparr>"

theorem snapshot_view_is_final_witness:
  "\<exists>h w state h2 w2 e. serve small_setup (Fin 0) (Env_Snapshot small_snapshot) viewed_host 3 = (h, w, Inr state) \<and>
     serve_all small_setup [(Fin 1, Env_Reset small_reset), (Fin 2, Tools_Freeze False)] h w = (h2, w2) \<and> w2 = w \<and>
     serve small_setup (Fin 3) (Tools_Execute VNone) h2 w2 = (h2, w2, Inl e)"
proof -
  let ?qs = "[(Fin 1, Env_Reset small_reset), (Fin 2, Tools_Freeze False)]"
  have "ok (snd (snd (serve small_setup (Fin 0) (Env_Snapshot small_snapshot) viewed_host 3)))" by code_simp
  then obtain h w state where r: "serve small_setup (Fin 0) (Env_Snapshot small_snapshot) viewed_host 3 = (h, w, Inr state)"
    by (cases "serve small_setup (Fin 0) (Env_Snapshot small_snapshot) viewed_host 3") (auto simp: ok_iff)
  obtain h2 w2 where q: "serve_all small_setup ?qs h w = (h2, w2)" by (metis surj_pair)
  have "env_host_ok viewed_host" "eh_reset viewed_host"
    by (simp_all add: env_host_ok_def viewed_host_def small_host_def new_env_host_def)
  with snapshot_view_is_final [OF r _ q] have "w2 = refreeze small_setup w"
    "\<exists>e. serve small_setup (Fin 3) (Tools_Execute VNone) h2 w2 = (h2, w2, Inl e)" by auto
  moreover have "refreeze small_setup w = w" by (simp add: refreeze_def small_setup_def)
  ultimately show ?thesis using r q by auto
qed

end
