(* ===== verification/Scorer_Host.thy ===== *)
theory Scorer_Host
  imports Env_Host
begin

text \<open>
  The scorer role process (\<open>reference/sdk/src/uenv/sdk/scorer_host.py\<close>), the only one that gets
  private scoring material. The scorer of the package is a field of the package record; harness and
  artifact callbacks go through \<open>peer.request\<close>, a function argument.
\<close>

record scorer_package =
  sp_input_model :: string
  sp_config_model :: "string option"
  sp_private_data_model :: "string option"
  sp_state_model :: "string option"
  sp_score :: "val \<Rightarrow> score_input \<Rightarrow> scoring_context \<Rightarrow> score_result res"   \<comment> \<open>\<open>scorer(config).score(...)\<close>\<close>

record scorer_setup =
  ss_lib :: lib
  ss_frames :: nat
  ss_ctab :: ctab
  ss_sids :: sids
  ss_registry :: registry
  ss_package :: scorer_package
  ss_request :: "string \<Rightarrow> val \<Rightarrow> val res"

record scorer_host =
  sh_component :: val
  sh_called :: bool
  sh_closed :: bool

definition new_scorer_host :: "val \<Rightarrow> scorer_host" where
  "new_scorer_host component = \<lparr>sh_component = component, sh_called = False, sh_closed = False\<rparr>"

definition as_byte :: "val \<Rightarrow> nat res" where
  "as_byte v = rbind (as_int v) (\<lambda>i.
     if 0 \<le> i \<and> i < 256 then Inr (nat i) else Inl (ValueError ''bytes must be in range(0, 256)''))"

definition to_bytes :: "val \<Rightarrow> nat list res" where
  \<comment> \<open>\<open>bytes(v)\<close>: a count gives zero bytes, a list its elements\<close>
  "to_bytes v = (case v of
      VList xs \<Rightarrow> rmap as_byte xs
    | VInt i \<Rightarrow> if i < 0 then Inl (ValueError ''negative count'') else Inr (replicate (nat i) 0)
    | VBool b \<Rightarrow> Inr (replicate (of_bool b) 0)
    | _ \<Rightarrow> Inl (TypeError ''bytes''))"

definition optional_model :: "scorer_setup \<Rightarrow> val \<Rightarrow> string \<Rightarrow> string option \<Rightarrow> val res" where
  "optional_model S request name model =
     rbind (has request name) (\<lambda>given.
       if \<not> given then Inr VNone
       else (case model of
               None \<Rightarrow> Inl (RpcError ''SCORER_INPUT_SCHEMA_MISMATCH'')
             | Some m \<Rightarrow> rbind (item request name) (\<lambda>env.
                 model_from_envelope (ss_frames S) (ss_ctab S) (ss_sids S) m env)))"

definition score_request :: "scorer_setup \<Rightarrow> scorer_host \<Rightarrow> val \<Rightarrow> (val \<times> score_input) res" where
  \<comment> \<open>the checks of \<open>score\<close>: the configuration data and the typed request\<close>
  "score_request S h params =
     rbind (if sh_called h \<or> sh_closed h then Inr False
            else rbind (item params ''dataset_package'') (\<lambda>p. Inr (py_eq p (sh_component h)))) (\<lambda>allowed.
     rbind (guard allowed (RpcError ''SCORER_CALL_STATE_INVALID'')) (\<lambda>_.
     rbind (item params ''config'') (\<lambda>config.
     rbind (item params ''request'') (\<lambda>request.
     rbind (item config ''schema_ref'') (\<lambda>schema_ref.
     rbind (guard (py_eq schema_ref (config_schema (ss_sids S) (sp_config_model (ss_package S))))
              (RpcError ''SCORER_CONFIG_SCHEMA_MISMATCH'')) (\<lambda>_.
     rbind (validate (ss_lib S) (ss_registry S) ''TypedConfig'' config) (\<lambda>_.
     rbind (validate (ss_lib S) (ss_registry S) ''ScoreInput'' request) (\<lambda>_.
     rbind (item request ''task'') (\<lambda>t.
     rbind (task_from_wire (ss_frames S) (ss_ctab S) (ss_sids S) t (sp_input_model (ss_package S))) (\<lambda>task.
     rbind (item request ''final_answer'') (\<lambda>final_answer.
     rbind (item request ''trajectory_ref'') (\<lambda>trajectory_ref.
     rbind (optional_model S request ''private_data'' (sp_private_data_model (ss_package S))) (\<lambda>private_data.
     rbind (optional_model S request ''state'' (sp_state_model (ss_package S))) (\<lambda>state.
     rbind (item config ''data'') (\<lambda>data.
       Inr (data, \<lparr>si_task = task, si_final_answer = final_answer, si_trajectory_ref = trajectory_ref,
                   si_state = state, si_private_data = private_data\<rparr>))))))))))))))))"

definition scorer_context :: "scorer_setup \<Rightarrow> (nat \<Rightarrow> dbl) \<Rightarrow> dbl \<Rightarrow> scoring_context" where
  "scorer_context S clock deadline =
     \<lparr>sc_deadline = deadline, sc_registry = ss_registry S, sc_ticks = (\<lambda>i. (False, clock i)),
      sc_run_harness = Some (ss_request S ''scoring.run_harness''),
      sc_read_artifact = Some (\<lambda>ref. rbind (ss_request S ''scoring.read_artifact'' ref) to_bytes)\<rparr>"

definition score :: "scorer_setup \<Rightarrow> dbl \<Rightarrow> (nat \<Rightarrow> dbl) \<Rightarrow> val \<Rightarrow> scorer_host \<Rightarrow> scorer_host \<times> val res" where
  "score S now clock params h =
     (case score_request S h params of
        Inl e \<Rightarrow> (h, Inl e)
      | Inr (data, request) \<Rightarrow>
          (h\<lparr>sh_called := True\<rparr>,
           rbind (item params ''remaining_timeout_ms'') (\<lambda>remaining.
           rbind (deadline_after now remaining) (\<lambda>deadline.
           rbind (sp_score (ss_package S) data request (scorer_context S clock deadline)) (\<lambda>r.
             to_wire (ss_sids S) (score_obj r))))))"

definition close_scorer :: "scorer_host \<Rightarrow> scorer_host" where
  "close_scorer h = h\<lparr>sh_closed := True\<rparr>"

datatype scorer_call = Score dbl "nat \<Rightarrow> dbl" val | Close_Scorer

fun serve_scorer :: "scorer_setup \<Rightarrow> scorer_call \<Rightarrow> scorer_host \<Rightarrow> scorer_host \<times> val res" where
  "serve_scorer S (Score now clock params) h = score S now clock params h"
| "serve_scorer S Close_Scorer h = (close_scorer h, Inr VNone)"

fun serve_scorer_all :: "scorer_setup \<Rightarrow> scorer_call list \<Rightarrow> scorer_host \<Rightarrow> scorer_host" where
  "serve_scorer_all S [] h = h"
| "serve_scorer_all S (c # cs) h = serve_scorer_all S cs (fst (serve_scorer S c h))"

section \<open>One score per process, typed and validated\<close>

fun is_instance :: "string option \<Rightarrow> val \<Rightarrow> bool" where
  "is_instance (Some m) (VModel c d) = (c = m)"
| "is_instance _ v = (v = VNone)"

lemma init_model_instance: "init_model n ct m d = Inr v \<Longrightarrow> \<exists>e. v = VModel m e"
  by (cases n) (auto simp: rbind_Inr_iff Let_def split: option.splits if_splits)

lemma model_from_envelope_instance:
  assumes "model_from_envelope n ct sids m env = Inr v"
  shows "is_instance (Some m) v"
proof -
  from assms obtain data where "(case data of VDict d \<Rightarrow> init_model n ct m d
      | _ \<Rightarrow> Inl (TypeError ''argument after ** must be a mapping'')) = Inr v"
    by (auto simp: model_from_envelope_def rbind_Inr_iff simp del: val.case split: if_splits)
  then obtain d where "init_model n ct m d = Inr v" by (cases data) auto
  from init_model_instance [OF this] show ?thesis by auto
qed

lemma task_from_wire_instance: "task_from_wire n ct sids t m = Inr task \<Longrightarrow> is_instance (Some m) (task_input task)"
  by (auto simp: task_from_wire_def rbind_Inr_iff dest!: model_from_envelope_instance)

lemma optional_model_instance: "optional_model S request name model = Inr v \<Longrightarrow> v = VNone \<or> is_instance model v"
  by (cases model) (auto simp: optional_model_def rbind_Inr_iff split: if_splits intro: model_from_envelope_instance)

lemma serve_scorer_called: "sh_called h \<or> sh_closed h \<Longrightarrow> sh_called (fst (serve_scorer S c h)) \<or> sh_closed (fst (serve_scorer S c h))"
  by (cases c) (auto simp: score_def close_scorer_def split: sum.splits)

lemma serve_scorer_all_called: "sh_called h \<or> sh_closed h \<Longrightarrow> sh_called (serve_scorer_all S cs h) \<or> sh_closed (serve_scorer_all S cs h)"
proof (induction cs arbitrary: h)
  case (Cons c cs)
  from Cons.IH [OF serve_scorer_called [OF Cons.prems, of S c]] show ?case by simp
qed simp

lemma score_request_closed: "sh_called h \<or> sh_closed h \<Longrightarrow> score_request S h p = Inl (RpcError ''SCORER_CALL_STATE_INVALID'')"
  by (simp add: score_request_def)

text \<open>A scorer host that has answered a scoring call or was closed refuses every later scoring call.\<close>
theorem scorer_scores_once:
  assumes "serve_scorer S c h = (h1, Inr v)"
  shows "score S now clock p (serve_scorer_all S cs h1) =
    (serve_scorer_all S cs h1, Inl (RpcError ''SCORER_CALL_STATE_INVALID''))"
proof -
  have "sh_called h1 \<or> sh_closed h1"
    using assms by (cases c) (auto simp: score_def close_scorer_def split: sum.splits)
  from serve_scorer_all_called [OF this, of S cs] show ?thesis
    by (simp add: score_def score_request_closed)
qed

text \<open>A scorer is only called with a validated configuration and with a task, private data and state
  that are instances of the package's own model classes.\<close>
theorem scorer_gets_typed_request:
  assumes "score_request S h params = Inr (data, request)"
  shows "\<not> sh_called h \<and> \<not> sh_closed h \<and>
    (si_private_data request = VNone \<or> is_instance (sp_private_data_model (ss_package S)) (si_private_data request)) \<and>
    (si_state request = VNone \<or> is_instance (sp_state_model (ss_package S)) (si_state request)) \<and>
    is_instance (Some (sp_input_model (ss_package S))) (task_input (si_task request)) \<and>
    (\<exists>config. item params ''config'' = Inr config \<and> item config ''data'' = Inr data \<and>
       validate (ss_lib S) (ss_registry S) ''TypedConfig'' config = Inr ())"
proof -
  from assms obtain config wire t where
    a: "\<not> sh_called h" "\<not> sh_closed h" "item params ''config'' = Inr config" "item config ''data'' = Inr data"
      "validate (ss_lib S) (ss_registry S) ''TypedConfig'' config = Inr ()" and
    t: "task_from_wire (ss_frames S) (ss_ctab S) (ss_sids S) t (sp_input_model (ss_package S)) = Inr (si_task request)" and
    m: "optional_model S wire ''private_data'' (sp_private_data_model (ss_package S)) = Inr (si_private_data request)"
      "optional_model S wire ''state'' (sp_state_model (ss_package S)) = Inr (si_state request)"
    unfolding score_request_def by (auto simp: rbind_Inr_iff guard_Inr_iff split: if_splits)
  with a m optional_model_instance task_from_wire_instance [OF t] show ?thesis by blast
qed

section \<open>A small scorer\<close>

definition small_scorer :: scorer_setup where
  "small_scorer = \<lparr>ss_lib = rational_lib, ss_frames = 9, ss_ctab = package_models,
     ss_sids = [(''Gsm8kInput'', ''urn:i''), (''Gsm8kPrivateData'', ''urn:p'')],
     ss_registry = \<lparr>core = VDict [(''$id'', VStr ''urn:core''),
       (''$defs'', VDict [(''TypedConfig'', VBool True), (''ScoreInput'', VBool True)])], extensions = []\<rparr>,
     ss_package = \<lparr>sp_input_model = ''Gsm8kInput'', sp_config_model = None,
       sp_private_data_model = Some ''Gsm8kPrivateData'', sp_state_model = None,
       sp_score = (\<lambda>c r ctx. Inr empty_score)\<rparr>,
     ss_request = (\<lambda>m v. Inr VNone)\<rparr>"

definition small_envelope :: "string \<Rightarrow> string \<Rightarrow> string \<Rightarrow> val" where
  "small_envelope schema k v = VDict [(''schema_ref'', VStr schema), (''data'', VDict [(k, VStr v)])]"

definition small_score :: val where
  "small_score = VDict [(''dataset_package'', VNone), (''remaining_timeout_ms'', VInt 0),
     (''config'', VDict [(''schema_ref'', VStr empty_config), (''data'', VDict [])]),
     (''request'', VDict [(''final_answer'', VList [text_part (VStr ''4'')]), (''trajectory_ref'', VNone),
        (''private_data'', small_envelope ''urn:p'' ''answer'' ''4''),
        (''task'', VDict [(''task_id'', VStr ''t''), (''dataset'', VNone), (''sample_id'', VStr ''s''),
           (''input'', small_envelope ''urn:i'' ''instruction'' ''2+2?'')])])]"

theorem scorer_scores_once_witness:
  "\<exists>h v. serve_scorer small_scorer (Score (Fin 0) (\<lambda>i. Fin 0) small_score) (new_scorer_host VNone) = (h, Inr v) \<and>
     score small_scorer (Fin 0) (\<lambda>i. Fin 0) small_score h = (h, Inl (RpcError ''SCORER_CALL_STATE_INVALID''))"
proof -
  let ?r = "serve_scorer small_scorer (Score (Fin 0) (\<lambda>i. Fin 0) small_score) (new_scorer_host VNone)"
  have "ok (snd ?r)" by code_simp
  then obtain h v where r: "?r = (h, Inr v)" by (cases ?r) (auto simp: ok_iff)
  from scorer_scores_once [OF r, of _ _ _ "[]"] r show ?thesis by auto
qed

theorem scorer_gets_typed_request_witness:
  "\<exists>data request. score_request small_scorer (new_scorer_host VNone) small_score = Inr (data, request) \<and>
     is_instance (Some ''Gsm8kInput'') (task_input (si_task request))"
proof -
  have "ok (score_request small_scorer (new_scorer_host VNone) small_score)" by code_simp
  then obtain data request where r: "score_request small_scorer (new_scorer_host VNone) small_score = Inr (data, request)"
    by (auto simp: ok_iff)
  from scorer_gets_typed_request [OF r] have "is_instance (Some ''Gsm8kInput'') (task_input (si_task request))"
    by (simp add: small_scorer_def)
  with r show ?thesis by blast
qed

end
