(* ===== verification/Agents.thy ===== *)
theory Agents
  imports Sdk_Correct
begin

text \<open>
  The agent side of an episode: the context through which an agent reaches its Worker
  (\<open>reference/sdk/src/uenv/sdk/agent_context.py\<close>) and the built-in \<open>PlainAgent\<close>
  (\<open>reference/sdk/src/uenv/sdk/agents.py\<close>).

  The Worker is a world \<open>'w\<close> and a function \<open>request\<close> on it. The loop of \<open>run\<close> has no bound of its
  own: it is iterated with fuel, and \<open>None\<close> is a run that has not returned when the fuel is used up.
\<close>

record agent_obs =
  ob_content :: val
  ob_terminated :: val
  ob_episode_truncated :: val

definition make_observation :: "val \<Rightarrow> agent_obs res" where
  \<comment> \<open>\<open>Observation(**v)\<close>\<close>
  "make_observation v =
     (case v of
        VDict d \<Rightarrow>
          if set (map fst d) \<subseteq> {''content'', ''terminated'', ''episode_truncated''}
          then Inr \<lparr>ob_content = get_or d ''content'' (VList []), ob_terminated = get_or d ''terminated'' (VBool False),
                    ob_episode_truncated = get_or d ''episode_truncated'' (VBool False)\<rparr>
          else Inl (TypeError ''unexpected keyword argument'')
      | _ \<Rightarrow> Inl (TypeError ''argument after ** must be a mapping''))"

definition empty_observation :: agent_obs where
  "empty_observation = \<lparr>ob_content = VList [], ob_terminated = VBool False, ob_episode_truncated = VBool False\<rparr>"

definition ended :: "agent_obs \<Rightarrow> bool" where
  "ended obs \<longleftrightarrow> truthy (ob_terminated obs) \<or> truthy (ob_episode_truncated obs)"

definition observation_from_result :: "val \<Rightarrow> agent_obs res" where
  "observation_from_result result =
     rbind (item result ''status'') (\<lambda>status.
       if py_eq status (VStr ''cancelled'')
       then rbind (item result ''error'') (\<lambda>error. rbind (agent_runtime_error error) Inl)
       else rbind (item result ''observation'') make_observation)"

section \<open>The Worker context\<close>

record worker_context =
  wc_tools :: val
  wc_task :: "task_spec option"
  wc_observation :: agent_obs
  wc_seed :: val

definition new_worker_context :: "val \<Rightarrow> worker_context" where
  "new_worker_context bound = \<lparr>wc_tools = bound, wc_task = None, wc_observation = empty_observation, wc_seed = VNone\<rparr>"

record 'w agent_env =
  ae_lib :: lib
  ae_registry :: registry
  ae_request :: "string \<Rightarrow> val \<Rightarrow> 'w \<Rightarrow> 'w \<times> val res"     \<comment> \<open>\<open>peer.request\<close>\<close>

definition bind_task ::
  "'w agent_env \<Rightarrow> nat \<Rightarrow> ctab \<Rightarrow> sids \<Rightarrow> val \<Rightarrow> val \<Rightarrow> val \<Rightarrow> string \<Rightarrow> worker_context \<Rightarrow> worker_context \<times> unit res" where
  "bind_task A n ct sids task obs seed input_model c =
     (case rbind (guard (wc_task c = None) (RpcError ''AGENT_ALREADY_RUNNING'')) (\<lambda>_.
           rbind (validate (ae_lib A) (ae_registry A) ''TaskSpec'' task) (\<lambda>_.
           rbind (validate (ae_lib A) (ae_registry A) ''Observation'' obs) (\<lambda>_.
             task_from_wire n ct sids task input_model))) of
        Inl e \<Rightarrow> (c, Inl e)
      | Inr t \<Rightarrow>
          (let c1 = c\<lparr>wc_task := Some t\<rparr>
           in case make_observation obs of
                Inl e \<Rightarrow> (c1, Inl e)
              | Inr ob \<Rightarrow> (c1\<lparr>wc_observation := ob, wc_seed := seed\<rparr>, Inr ())))"

fun runtime_error :: "pyerr \<Rightarrow> pyerr" where
  \<comment> \<open>\<open>_request\<close> turns a denied operation into the SDK's own error\<close>
  "runtime_error (RpcError c) = AgentRuntimeError (VDict [(''code'', VStr c)])"
| "runtime_error e = e"

definition worker_request :: "'w agent_env \<Rightarrow> string \<Rightarrow> val \<Rightarrow> 'w \<Rightarrow> 'w \<times> val res" where
  "worker_request A mthd v w =
     (let (w', r) = ae_request A mthd v w in (w', case r of Inl e \<Rightarrow> Inl (runtime_error e) | Inr x \<Rightarrow> Inr x))"

definition generate :: "'w agent_env \<Rightarrow> val list \<Rightarrow> 'w \<Rightarrow> 'w \<times> val res" where
  "generate A messages w = worker_request A ''generate'' (VList messages) w"

definition call_tool :: "'w agent_env \<Rightarrow> val \<Rightarrow> worker_context \<Rightarrow> 'w \<Rightarrow> worker_context \<times> 'w \<times> agent_obs res" where
  "call_tool A call c w =
     (let (w', r) = worker_request A ''step'' call w
      in case rbind r (\<lambda>result.
              rbind (validate (ae_lib A) (ae_registry A) ''ToolResult'' result) (\<lambda>_.
                observation_from_result result)) of
           Inl e \<Rightarrow> (c, w', Inl e)
         | Inr ob \<Rightarrow> (c\<lparr>wc_observation := ob\<rparr>, w', Inr ob))"

section \<open>The plain agent\<close>

record plain_agent =
  pa_history_policy :: string
  pa_system_prompt :: string

definition new_plain_agent :: "val \<Rightarrow> plain_agent res" where
  "new_plain_agent config =
     rbind (as_list config) (\<lambda>keys.
     rbind (guard (set keys = {VStr ''history_policy'', VStr ''system_prompt''})
              (ValueError ''UNSUPPORTED_PLAIN_AGENT_CONFIGURATION'')) (\<lambda>_.
     rbind (item config ''history_policy'') (\<lambda>policy.
     rbind (guard (py_in policy [VStr ''full'', VStr ''last_generation''])
              (ValueError ''UNSUPPORTED_PLAIN_AGENT_CONFIGURATION'')) (\<lambda>_.
     rbind (item config ''system_prompt'') (\<lambda>prompt.
     rbind (guard (is_str prompt) (ValueError ''UNSUPPORTED_PLAIN_AGENT_CONFIGURATION'')) (\<lambda>_.
     rbind (object_config ''AgentRunner'' config) (\<lambda>_.
     rbind (as_str policy) (\<lambda>p. rbind (as_str prompt) (\<lambda>s.
       Inr \<lparr>pa_history_policy = p, pa_system_prompt = s\<rparr>)))))))))"

definition message :: "string \<Rightarrow> val \<Rightarrow> dict \<Rightarrow> val" where
  "message role content rest = VDict ([(''role'', VStr role), (''content'', content)] @ rest)"

definition base_messages :: "plain_agent \<Rightarrow> agent_obs \<Rightarrow> val list" where
  "base_messages agent obs =
     (if pa_system_prompt agent \<noteq> []
      then [message ''system'' (VList [text_part (VStr (pa_system_prompt agent))]) []] else []) @
     [message ''user'' (ob_content obs) []]"

definition tool_message :: "val \<Rightarrow> val \<Rightarrow> val" where
  "tool_message call_id content =
     VDict [(''role'', VStr ''tool''), (''tool_call_id'', call_id), (''content'', content)]"

fun plain_calls ::
  "'w agent_env \<Rightarrow> val list \<Rightarrow> val list \<Rightarrow> worker_context \<Rightarrow> 'w \<Rightarrow> worker_context \<times> 'w \<times> (bool \<times> val list) res" where
  \<comment> \<open>the tool calls of one generation; true when the episode ended after one of them\<close>
  "plain_calls A [] exchange c w = (c, w, Inr (False, exchange))"
| "plain_calls A (call # calls) exchange c w =
     (case call_tool A call c w of
        (c1, w1, Inl e) \<Rightarrow> (c1, w1, Inl e)
      | (c1, w1, Inr ob) \<Rightarrow>
          (case item call ''tool_call_id'' of
             Inl e \<Rightarrow> (c1, w1, Inl e)
           | Inr call_id \<Rightarrow>
               (let exchange' = exchange @ [tool_message call_id (ob_content ob)]
                in if ended (wc_observation c1) then (c1, w1, Inr (True, exchange'))
                   else plain_calls A calls exchange' c1 w1)))"

datatype round =
    Return val
  | Continue "val list" val      \<comment> \<open>the next messages and the last response\<close>

definition budget_codes :: "string list" where
  "budget_codes = [''GENERATION_LIMIT'', ''OUTPUT_TOKEN_LIMIT'', ''TOOL_CALL_LIMIT'', ''FINALIZE_RESERVE_REACHED'']"

fun handle :: "val \<Rightarrow> pyerr \<Rightarrow> round res" where
  \<comment> \<open>\<open>except AgentRuntimeError\<close>: an exhausted budget ends the run with the last response\<close>
  "handle last_response (AgentRuntimeError error) =
     rbind (item error ''code'') (\<lambda>code.
       if py_in code (map VStr budget_codes) then Inr (Return last_response) else Inl (AgentRuntimeError error))"
| "handle last_response e = Inl e"

definition proposed_calls :: "val \<Rightarrow> val option res" where
  \<comment> \<open>nothing when the generation is the final answer\<close>
  "proposed_calls generation =
     rbind (item generation ''finish_reason'') (\<lambda>reason.
       if py_eq reason (VStr ''stop'') \<or> py_eq reason (VStr ''length'') then Inr None
       else if \<not> py_eq reason (VStr ''tool_calls'')
       then Inl (ValueError ''PLAIN_AGENT_REQUIRES_FINAL_ANSWER_OR_TOOL_CALLS'')
       else rbind (get generation ''tool_calls'' VNone) (\<lambda>calls.
         if truthy calls then Inr (Some calls)
         else Inl (ValueError ''PLAIN_AGENT_REQUIRES_FINAL_ANSWER_OR_TOOL_CALLS'')))"

definition plain_round ::
  "'w agent_env \<Rightarrow> plain_agent \<Rightarrow> val list \<Rightarrow> val list \<Rightarrow> val \<Rightarrow> worker_context \<Rightarrow> 'w \<Rightarrow> worker_context \<times> 'w \<times> round res" where
  \<comment> \<open>the body of the loop after the look at the observation\<close>
  "plain_round A agent base messages last_response c w =
     (case generate A messages w of
        (w1, Inl e) \<Rightarrow> (c, w1, handle last_response e)
      | (w1, Inr generation) \<Rightarrow>
          (case item generation ''response'' of
             Inl e \<Rightarrow> (c, w1, Inl e)
           | Inr response \<Rightarrow>
               (case rbind (proposed_calls generation) (\<lambda>p. case p of None \<Rightarrow> Inr None
                         | Some tc \<Rightarrow> rbind (as_list tc) (\<lambda>calls. Inr (Some (tc, calls)))) of
                  Inl e \<Rightarrow> (c, w1, Inl e)
                | Inr None \<Rightarrow> (c, w1, Inr (Return response))
                | Inr (Some (tc, calls)) \<Rightarrow>
                    (case plain_calls A calls [message ''assistant'' response [(''tool_calls'', tc)]] c w1 of
                       (c2, w2, Inl e) \<Rightarrow> (c2, w2, handle response e)
                     | (c2, w2, Inr (True, _)) \<Rightarrow> (c2, w2, Inr (Return response))
                     | (c2, w2, Inr (False, exchange)) \<Rightarrow>
                         (c2, w2, Inr (Continue
                           ((if pa_history_policy agent = ''last_generation'' then base else messages) @ exchange)
                           response))))))"

fun plain_loop ::
  "nat \<Rightarrow> 'w agent_env \<Rightarrow> plain_agent \<Rightarrow> val list \<Rightarrow> val list \<Rightarrow> val \<Rightarrow> worker_context \<Rightarrow> 'w \<Rightarrow>
   (worker_context \<times> 'w \<times> val res) option" where
  "plain_loop 0 A agent base messages last_response c w = None"
| "plain_loop (Suc n) A agent base messages last_response c w =
     (if ended (wc_observation c) then Some (c, w, Inr last_response)
      else (case plain_round A agent base messages last_response c w of
              (c1, w1, Inl e) \<Rightarrow> Some (c1, w1, Inl e)
            | (c1, w1, Inr (Return v)) \<Rightarrow> Some (c1, w1, Inr v)
            | (c1, w1, Inr (Continue messages' response)) \<Rightarrow> plain_loop n A agent base messages' response c1 w1))"

definition plain_run ::
  "nat \<Rightarrow> 'w agent_env \<Rightarrow> plain_agent \<Rightarrow> worker_context \<Rightarrow> 'w \<Rightarrow> (worker_context \<times> 'w \<times> val res) option" where
  "plain_run n A agent c w =
     (let base = base_messages agent (wc_observation c) in plain_loop n A agent base base (VList []) c w)"

section \<open>Denied operations end a run with its last answer\<close>

definition budget_error :: "pyerr \<Rightarrow> bool" where
  "budget_error e \<longleftrightarrow> (\<exists>error c. e = AgentRuntimeError error \<and> item error ''code'' = Inr (VStr c) \<and> c \<in> set budget_codes)"

lemma item_not_budget: "item v k = Inl e \<Longrightarrow> \<not> budget_error e"
  by (cases v) (auto simp: budget_error_def ditem_def split: option.splits)

lemma handle_Inr: "handle last_response e = Inr q \<Longrightarrow> q = Return last_response"
  by (cases e) (auto simp: rbind_Inr_iff split: if_splits)

lemma handle_not_budget: "handle last_response e = Inl e' \<Longrightarrow> \<not> budget_error e'"
proof (cases e)
  case (AgentRuntimeError error)
  assume "handle last_response e = Inl e'"
  with AgentRuntimeError show ?thesis
    by (auto simp: rbind_Inl_iff dest: item_not_budget split: if_splits) (auto simp: budget_error_def py_in_def)
qed (auto simp: budget_error_def)

lemma as_list_not_budget: "as_list v = Inl e \<Longrightarrow> \<not> budget_error e"
  by (cases v) (auto simp: budget_error_def)

lemma get_not_budget: "get v k d = Inl e \<Longrightarrow> \<not> budget_error e"
  by (cases v) (auto simp: budget_error_def)

lemma proposed_calls_not_budget: "proposed_calls g = Inl e \<Longrightarrow> \<not> budget_error e"
  by (auto simp: proposed_calls_def rbind_Inl_iff dest: item_not_budget get_not_budget split: if_splits)
     (simp_all add: budget_error_def)

lemma plain_round_not_budget:
  assumes "plain_round A agent base messages last_response c w = (c', w', Inl e)"
  shows "\<not> budget_error e"
  using assms unfolding plain_round_def
  by (auto simp: rbind_Inl_iff split: prod.splits sum.splits option.splits bool.splits
      dest: handle_not_budget item_not_budget as_list_not_budget proposed_calls_not_budget)

lemma plain_loop_not_budget:
  "plain_loop n A agent base messages last_response c w = Some (c', w', Inl e) \<Longrightarrow> \<not> budget_error e"
  by (induction n arbitrary: messages last_response c w)
     (auto split: if_splits prod.splits sum.splits round.splits dest: plain_round_not_budget)

text \<open>No run of the plain agent ends in one of the four budget errors: they are turned into the last
  response.\<close>
theorem exhausted_budget_is_no_failure:
  "\<nexists>c' w' e. plain_run n A agent c w = Some (c', w', Inl e) \<and> budget_error e"
  by (auto simp: plain_run_def Let_def dest: plain_loop_not_budget)

section \<open>The answer is the last response of the model\<close>

definition recorded :: "'w agent_env \<Rightarrow> ('w \<times> (string \<times> val res) list) agent_env" where
  \<comment> \<open>the same Worker, with a log of the requests and their replies\<close>
  "recorded A = \<lparr>ae_lib = ae_lib A, ae_registry = ae_registry A,
     ae_request = (\<lambda>mthd v (w, tr). let (w', r) = ae_request A mthd v w in ((w', tr @ [(mthd, r)]), r))\<rparr>"

definition response_of :: "string \<times> val res \<Rightarrow> val list" where
  "response_of entry = (if fst entry = ''generate''
     then (case rbind (snd entry) (\<lambda>g. item g ''response'') of Inl _ \<Rightarrow> [] | Inr v \<Rightarrow> [v]) else [])"

definition last_answer :: "val \<Rightarrow> (string \<times> val res) list \<Rightarrow> val" where
  "last_answer initial tr = last (initial # concat (map response_of tr))"

lemma last_answer_snoc:
  "last_answer v (tr @ [x]) = (if response_of x = [] then last_answer v tr else last (response_of x))"
  by (simp add: last_answer_def)

lemma recorded_generate:
  assumes "generate (recorded A) messages (w, tr) = ((w', tr'), r)"
  shows "\<exists>x. tr' = tr @ [(''generate'', x)] \<and> (\<forall>g. r = Inr g \<longleftrightarrow> x = Inr g)"
  using assms by (auto simp: generate_def worker_request_def recorded_def Let_def split: prod.splits sum.splits)

lemma recorded_step:
  assumes "call_tool (recorded A) call c (w, tr) = (c', (w', tr'), r)"
  shows "last_answer v tr' = last_answer v tr"
  using assms by (auto simp: call_tool_def worker_request_def recorded_def Let_def last_answer_snoc response_of_def
      split: prod.splits sum.splits)

lemma recorded_calls:
  "plain_calls (recorded A) calls exchange c (w, tr) = (c', (w', tr'), r) \<Longrightarrow> last_answer v tr' = last_answer v tr"
proof (induction calls arbitrary: exchange c w tr)
  case (Cons call calls)
  obtain c1 w1 tr1 q where s: "call_tool (recorded A) call c (w, tr) = (c1, (w1, tr1), q)" by (metis prod.collapse)
  from recorded_step [OF s] Cons.prems Cons.IH s show ?case
    by (auto simp: Let_def split: sum.splits if_splits)
qed simp

lemma recorded_round:
  assumes "plain_round (recorded A) agent base messages (last_answer v tr) c (w, tr) = (c', (w', tr'), Inr q)"
  shows "(\<forall>a. q = Return a \<longrightarrow> a = last_answer v tr') \<and> (\<forall>m a. q = Continue m a \<longrightarrow> a = last_answer v tr')"
proof -
  obtain w1 tr1 g where s: "generate (recorded A) messages (w, tr) = ((w1, tr1), g)" by (metis prod.collapse)
  from recorded_generate [OF s] obtain x where x: "tr1 = tr @ [(''generate'', x)]" "\<forall>y. g = Inr y \<longleftrightarrow> x = Inr y" by blast
  show ?thesis
  proof (cases g)
    case (Inl e)
    with x have "last_answer v tr1 = last_answer v tr" by (cases x) (auto simp: last_answer_snoc response_of_def)
    with assms s Inl show ?thesis by (cases e) (auto simp: plain_round_def rbind_Inr_iff split: if_splits)
  next
    case (Inr y)
    show ?thesis
    proof (cases "item y ''response''")
      case (Inr response)
      from x(2) [THEN spec, of y] \<open>g = Inr y\<close> have "x = Inr y" by simp
      with x(1) Inr have "last_answer v tr1 = response" by (simp add: last_answer_snoc response_of_def)
      with assms s \<open>g = Inr y\<close> Inr show ?thesis
        by (auto simp: plain_round_def split: sum.splits option.splits prod.splits bool.splits
            dest!: recorded_calls [where v = v] handle_Inr)
    qed (use assms s \<open>g = Inr y\<close> in \<open>simp add: plain_round_def\<close>)
  qed
qed

lemma recorded_loop:
  "plain_loop n (recorded A) agent base messages (last_answer v tr) c (w, tr) = Some (c', (w', tr'), Inr a) \<Longrightarrow>
   a = last_answer v tr'"
proof (induction n arbitrary: messages c w tr)
  case (Suc n)
  obtain c1 w1 tr1 q where s: "plain_round (recorded A) agent base messages (last_answer v tr) c (w, tr) = (c1, (w1, tr1), q)"
    by (metis prod.collapse)
  show ?case
  proof (cases "ended (wc_observation c) \<or> isl q")
    case True
    with Suc.prems s show ?thesis by (auto simp: isl_def split: if_splits)
  next
    case False
    then obtain r where "q = Inr r" by (cases q) auto
    with s recorded_round [of A agent base messages v tr c w c1 w1 tr1 r] Suc.prems Suc.IH False show ?thesis
      by (cases r) auto
  qed
qed simp

text \<open>C16: A plain agent that finishes answers with the response of the last generation that its Worker
  granted, or with nothing when there was none.\<close>
theorem plain_answer_is_last_response:
  assumes "plain_run n (recorded A) agent c (w, []) = Some (c', (w', tr), Inr a)"
  shows "a = last_answer (VList []) tr"
proof -
  have "VList [] = last_answer (VList []) []" by (simp add: last_answer_def)
  with assms show ?thesis by (metis plain_run_def recorded_loop)
qed

definition one_shot :: "nat agent_env" where
  \<comment> \<open>a Worker whose model answers at once\<close>
  "one_shot = \<lparr>ae_lib = rational_lib, ae_registry = \<lparr>core = VDict [], extensions = []\<rparr>,
     ae_request = (\<lambda>m v w. (Suc w, Inr (VDict [(''response'', VList [text_part (VStr ''4'')]), (''finish_reason'', VStr ''stop'')])))\<rparr>"

definition one_agent :: plain_agent where
  "one_agent = \<lparr>pa_history_policy = ''full'', pa_system_prompt = []\<rparr>"

theorem plain_answer_is_last_response_witness:
  "\<exists>c w tr. plain_run 1 (recorded one_shot) one_agent (new_worker_context (VList [])) (0, []) =
      Some (c, (w, tr), Inr (VList [text_part (VStr ''4'')])) \<and>
    last_answer (VList []) tr = VList [text_part (VStr ''4'')]"
proof -
  let ?r = "plain_run 1 (recorded one_shot) one_agent (new_worker_context (VList [])) (0, [])"
  have "map_option (\<lambda>(c, w, r). r) ?r = Some (Inr (VList [text_part (VStr ''4'')]))" by code_simp
  then obtain c w tr where r: "?r = Some (c, (w, tr), Inr (VList [text_part (VStr ''4'')]))" by auto
  from plain_answer_is_last_response [OF r] r show ?thesis by metis
qed

section \<open>A bounded number of generations\<close>

text \<open>
  The agent leaves all counting to the Worker. Whatever a Worker does, it is enough that some
  measure of its state decreases with every generation it grants and never grows with a step.
\<close>

locale generation_budget =
  fixes A :: "'w agent_env" and left :: "'w \<Rightarrow> nat"
  assumes generation_counts: "ae_request A ''generate'' v w = (w', Inr g) \<Longrightarrow> left w' < left w"
    and step_keeps: "ae_request A ''step'' v w = (w', r) \<Longrightarrow> left w' \<le> left w"
begin

lemma generate_left: "generate A messages w = (w', Inr g) \<Longrightarrow> left w' < left w"
  by (auto simp: generate_def worker_request_def Let_def split: prod.splits sum.splits intro: generation_counts)

lemma call_left: "call_tool A call c w = (c', w', r) \<Longrightarrow> left w' \<le> left w"
  by (auto simp: call_tool_def worker_request_def Let_def split: prod.splits sum.splits intro: step_keeps)

lemma calls_left: "plain_calls A calls exchange c w = (c', w', r) \<Longrightarrow> left w' \<le> left w"
proof (induction calls arbitrary: exchange c w)
  case (Cons call calls)
  obtain c1 w1 q where s: "call_tool A call c w = (c1, w1, q)" by (metis prod.collapse)
  from call_left [OF s] Cons.prems s show ?case
    by (auto simp: Let_def split: sum.splits if_splits dest: Cons.IH)
qed simp

lemma round_left: "plain_round A agent base messages last_response c w = (c', w', Inr (Continue m v)) \<Longrightarrow> left w' < left w"
proof -
  assume a: "plain_round A agent base messages last_response c w = (c', w', Inr (Continue m v))"
  obtain w1 g where s: "generate A messages w = (w1, g)" by (cases "generate A messages w")
  from a s obtain y where g: "g = Inr y"
    by (cases g) (auto simp: plain_round_def dest!: handle_Inr)
  from a s g obtain calls exchange x where "plain_calls A calls exchange c w1 = (c', w', x)"
    by (auto simp: plain_round_def dest!: handle_Inr split: sum.splits option.splits prod.splits bool.splits)
  with calls_left generate_left [of messages w w1 y] s g show ?thesis by fastforce
qed

lemma loop_returns: "left w < n \<Longrightarrow> plain_loop n A agent base messages last_response c w \<noteq> None"
proof (induction n arbitrary: messages last_response c w)
  case (Suc n)
  obtain c1 w1 q where s: "plain_round A agent base messages last_response c w = (c1, w1, q)" by (metis prod.collapse)
  show ?case
  proof (cases "\<exists>m v. q = Inr (Continue m v)")
    case True
    with round_left s Suc.prems Suc.IH show ?thesis by fastforce
  next
    case False
    then show ?thesis using s by (auto split: sum.split round.split)
  qed
qed simp

lemma run_returns: "plain_run (Suc (left w)) A agent c w \<noteq> None"
  by (simp add: plain_run_def Let_def loop_returns del: plain_loop.simps)

end

end
