(* ===== verification/Budget.thy ===== *)
theory Budget
  imports Py_Base "HOL-Library.Word"
begin

text \<open>
  The Worker's budget of one attempt (\<open>BudgetEnforcer\<close> of \<open>reference-control/src/runtime.rs\<close>), which
  the Python agents leave all counting to. Counters and clock readings are \<open>u64\<close>, 64-bit words;
  an operation that fails gives the code of its \<open>ControlError\<close>. The reading of the monotonic clock
  in milliseconds is the argument \<open>now\<close>.
\<close>

type_synonym u64 = "64 word"
type_synonym 'a ctl = "string + 'a"

record usage =
  generation_count :: u64
  tool_call_count :: u64
  output_token_count :: u64

record budget =
  deadline_at_ms :: u64
  interaction_deadline_at_ms :: u64
  max_generations :: u64
  max_tool_calls :: u64
  max_total_output_tokens :: u64
  used :: usage

definition checked_add :: "u64 \<Rightarrow> u64 \<Rightarrow> u64 option" where
  "checked_add a b = (if uint a + uint b < 2 ^ 64 then Some (a + b) else None)"

definition saturating_sub :: "u64 \<Rightarrow> u64 \<Rightarrow> u64" where
  "saturating_sub a b = (if b \<le> a then a - b else 0)"

definition validate_usage :: "budget \<Rightarrow> bool" where
  "validate_usage b \<longleftrightarrow> generation_count (used b) \<le> max_generations b \<and>
     tool_call_count (used b) \<le> max_tool_calls b \<and> output_token_count (used b) \<le> max_total_output_tokens b"

definition from_dispatch :: "u64 \<Rightarrow> u64 \<Rightarrow> u64 \<Rightarrow> u64 \<Rightarrow> u64 \<Rightarrow> u64 \<Rightarrow> usage \<Rightarrow> budget ctl" where
  \<comment> \<open>the remaining time is anchored to the local clock; the reserve shortens the interaction only\<close>
  "from_dispatch now remaining reserve generations tool_calls tokens consumed =
     (case (checked_add now remaining, checked_add now (saturating_sub remaining reserve)) of
        (Some d, Some i) \<Rightarrow>
          (let b = \<lparr>deadline_at_ms = d, interaction_deadline_at_ms = i, max_generations = generations,
                    max_tool_calls = tool_calls, max_total_output_tokens = tokens, used = consumed\<rparr>
           in if validate_usage b then Inr b else Inl ''CONSUMED_USAGE_EXCEEDS_LIMITS'')
      | _ \<Rightarrow> Inl ''INVALID_REMAINING_TIMEOUT'')"

definition check_total :: "u64 \<Rightarrow> budget \<Rightarrow> unit ctl" where
  "check_total now b = (if deadline_at_ms b \<le> now then Inl ''EPISODE_TIMEOUT'' else Inr ())"

definition check_interaction :: "u64 \<Rightarrow> budget \<Rightarrow> unit ctl" where
  "check_interaction now b =
     (if deadline_at_ms b \<le> now then Inl ''EPISODE_TIMEOUT''
      else if interaction_deadline_at_ms b \<le> now then Inl ''FINALIZE_RESERVE_REACHED''
      else Inr ())"

definition begin_model :: "u64 \<Rightarrow> budget \<Rightarrow> budget \<times> u64 ctl" where
  \<comment> \<open>counts the generation and returns the output tokens left\<close>
  "begin_model now b =
     (case check_interaction now b of
        Inl e \<Rightarrow> (b, Inl e)
      | Inr _ \<Rightarrow>
          if max_generations b \<le> generation_count (used b) then (b, Inl ''GENERATION_LIMIT'')
          else if max_total_output_tokens b \<le> output_token_count (used b) then (b, Inl ''OUTPUT_TOKEN_LIMIT'')
          else (b\<lparr>used := (used b)\<lparr>generation_count := generation_count (used b) + 1\<rparr>\<rparr>,
                Inr (max_total_output_tokens b - output_token_count (used b))))"

definition finish_model :: "u64 \<Rightarrow> budget \<Rightarrow> budget \<times> unit ctl" where
  "finish_model output_tokens b =
     (case checked_add (output_token_count (used b)) output_tokens of
        None \<Rightarrow> (b, Inl ''OUTPUT_TOKEN_LIMIT'')
      | Some n \<Rightarrow>
          (b\<lparr>used := (used b)\<lparr>output_token_count := n\<rparr>\<rparr>,
           if max_total_output_tokens b < n then Inl ''OUTPUT_TOKEN_LIMIT'' else Inr ()))"

definition begin_tool :: "u64 \<Rightarrow> budget \<Rightarrow> budget \<times> unit ctl" where
  "begin_tool now b =
     (case check_interaction now b of
        Inl e \<Rightarrow> (b, Inl e)
      | Inr _ \<Rightarrow>
          if max_tool_calls b \<le> tool_call_count (used b) then (b, Inl ''TOOL_CALL_LIMIT'')
          else (b\<lparr>used := (used b)\<lparr>tool_call_count := tool_call_count (used b) + 1\<rparr>\<rparr>, Inr ()))"

definition remaining_finalize_ms :: "u64 \<Rightarrow> budget \<Rightarrow> u64 ctl" where
  "remaining_finalize_ms now b =
     (if deadline_at_ms b \<le> now then Inl ''EPISODE_TIMEOUT'' else Inr (deadline_at_ms b - now))"

definition remaining_interaction_ms :: "u64 \<Rightarrow> budget \<Rightarrow> u64 ctl" where
  "remaining_interaction_ms now b =
     (if deadline_at_ms b \<le> now then Inl ''EPISODE_TIMEOUT''
      else if interaction_deadline_at_ms b \<le> now then Inl ''FINALIZE_RESERVE_REACHED''
      else Inr (interaction_deadline_at_ms b - now))"

section \<open>A run of the budget\<close>

datatype budget_op = Begin_Model u64 | Finish_Model u64 | Begin_Tool u64

fun budget_step :: "budget_op \<Rightarrow> budget \<Rightarrow> budget \<times> bool" where
  \<comment> \<open>the new budget, and whether the operation was granted\<close>
  "budget_step (Begin_Model now) b = (let (b', r) = begin_model now b in (b', \<not> isl r))"
| "budget_step (Finish_Model n) b = (let (b', r) = finish_model n b in (b', \<not> isl r))"
| "budget_step (Begin_Tool now) b = (let (b', r) = begin_tool now b in (b', \<not> isl r))"

fun budget_run :: "budget_op list \<Rightarrow> budget \<Rightarrow> budget \<times> budget_op list" where
  \<comment> \<open>the final budget and the granted operations\<close>
  "budget_run [] b = (b, [])"
| "budget_run (q # qs) b =
     (let (b', granted) = budget_step q b; (b'', rest) = budget_run qs b'
      in (b'', if granted then q # rest else rest))"

section \<open>Limits hold and counters do not wrap\<close>

definition models :: "budget_op list \<Rightarrow> nat" where
  "models qs = length (filter (\<lambda>q. case q of Begin_Model _ \<Rightarrow> True | _ \<Rightarrow> False) qs)"

definition tool_starts :: "budget_op list \<Rightarrow> nat" where
  "tool_starts qs = length (filter (\<lambda>q. case q of Begin_Tool _ \<Rightarrow> True | _ \<Rightarrow> False) qs)"

definition tokens :: "budget_op list \<Rightarrow> nat" where
  "tokens qs = sum_list (map (\<lambda>q. case q of Finish_Model n \<Rightarrow> unat n | _ \<Rightarrow> 0) qs)"

lemma counts_simps [simp]:
  "models [] = 0" "tool_starts [] = 0" "tokens [] = 0"
  "models (q # qs) = (case q of Begin_Model _ \<Rightarrow> 1 | _ \<Rightarrow> 0) + models qs"
  "tool_starts (q # qs) = (case q of Begin_Tool _ \<Rightarrow> 1 | _ \<Rightarrow> 0) + tool_starts qs"
  "tokens (q # qs) = (case q of Finish_Model n \<Rightarrow> unat n | _ \<Rightarrow> 0) + tokens qs"
  by (simp_all add: models_def tool_starts_def tokens_def split: budget_op.split)

lemma unat_Suc_below: "(c::u64) < m \<Longrightarrow> unat (c + 1) = Suc (unat c)"
proof -
  assume "c < m"
  moreover have "unat m < 2 ^ 64" using unsigned_less [of m] by simp
  ultimately have "Suc (unat c) < 2 ^ 64" by (simp add: word_less_nat_alt)
  then show ?thesis by (simp add: unat_word_ariths)
qed

lemma checked_add_unat: "checked_add a b = (if unat a + unat b < 2 ^ 64 then Some (a + b) else None)"
proof -
  have "uint a + uint b = int (unat a + unat b)" by simp
  then have "uint a + uint b < 2 ^ 64 \<longleftrightarrow> int (unat a + unat b) < int (2 ^ 64)" by simp
  then have "uint a + uint b < 2 ^ 64 \<longleftrightarrow> unat a + unat b < 2 ^ 64" unfolding of_nat_less_iff .
  then show ?thesis by (simp only: checked_add_def)
qed

lemma checked_add_Some: "checked_add a b = Some c \<Longrightarrow> unat c = unat a + unat b"
  by (auto simp: checked_add_unat unat_word_ariths split: if_splits)

definition same_limits :: "budget \<Rightarrow> budget \<Rightarrow> bool" where
  "same_limits b b' \<longleftrightarrow> deadline_at_ms b' = deadline_at_ms b \<and>
     interaction_deadline_at_ms b' = interaction_deadline_at_ms b \<and> max_generations b' = max_generations b \<and>
     max_tool_calls b' = max_tool_calls b \<and> max_total_output_tokens b' = max_total_output_tokens b"

definition counted :: "budget \<Rightarrow> budget_op list \<Rightarrow> budget \<Rightarrow> bool" where
  \<comment> \<open>what the counters of the second budget say after the granted operations\<close>
  "counted b granted b' \<longleftrightarrow> same_limits b b' \<and>
     unat (generation_count (used b')) = unat (generation_count (used b)) + models granted \<and>
     unat (generation_count (used b')) \<le> max (unat (generation_count (used b))) (unat (max_generations b)) \<and>
     unat (tool_call_count (used b')) = unat (tool_call_count (used b)) + tool_starts granted \<and>
     unat (tool_call_count (used b')) \<le> max (unat (tool_call_count (used b))) (unat (max_tool_calls b)) \<and>
     unat (output_token_count (used b)) + tokens granted
       \<le> max (unat (output_token_count (used b))) (unat (max_total_output_tokens b))"

lemma begin_model_cases:
  assumes "begin_model now b = (b', r)"
  obtains e where "r = Inl e" "b' = b"
  | "generation_count (used b) < max_generations b" "output_token_count (used b) < max_total_output_tokens b"
    "check_interaction now b = Inr ()"
    "b' = b\<lparr>used := (used b)\<lparr>generation_count := generation_count (used b) + 1\<rparr>\<rparr>"
    "r = Inr (max_total_output_tokens b - output_token_count (used b))"
proof (cases "check_interaction now b")
  case (Inl e)
  with assms have "r = Inl e" "b' = b" by (simp_all add: begin_model_def)
  then show thesis by (rule that(1))
next
  case (Inr u)
  with assms that show thesis by (cases u) (force simp: begin_model_def split: if_splits)
qed

lemma begin_tool_cases:
  assumes "begin_tool now b = (b', r)"
  obtains e where "r = Inl e" "b' = b"
  | "tool_call_count (used b) < max_tool_calls b" "check_interaction now b = Inr ()"
    "b' = b\<lparr>used := (used b)\<lparr>tool_call_count := tool_call_count (used b) + 1\<rparr>\<rparr>" "r = Inr ()"
proof (cases "check_interaction now b")
  case (Inl e)
  with assms have "r = Inl e" "b' = b" by (simp_all add: begin_tool_def)
  then show thesis by (rule that(1))
next
  case (Inr u)
  with assms that show thesis by (cases u) (force simp: begin_tool_def split: if_splits)
qed

lemma finish_model_cases:
  assumes "finish_model n b = (b', r)"
  obtains e where "r = Inl e" "b' = b"
  | m where "unat m = unat (output_token_count (used b)) + unat n" "b' = b\<lparr>used := (used b)\<lparr>output_token_count := m\<rparr>\<rparr>"
    "r = (if max_total_output_tokens b < m then Inl ''OUTPUT_TOKEN_LIMIT'' else Inr ())"
proof (cases "checked_add (output_token_count (used b)) n")
  case None
  with assms have "r = Inl ''OUTPUT_TOKEN_LIMIT''" "b' = b" by (simp_all add: finish_model_def)
  then show thesis by (rule that(1))
next
  case (Some m)
  with assms have "b' = b\<lparr>used := (used b)\<lparr>output_token_count := m\<rparr>\<rparr>"
    "r = (if max_total_output_tokens b < m then Inl ''OUTPUT_TOKEN_LIMIT'' else Inr ())"
    by (simp_all add: finish_model_def)
  with checked_add_Some [OF Some] show thesis by (rule that(2))
qed

lemma budget_run_counted: "budget_run qs b = (b', granted) \<Longrightarrow> counted b granted b'"
proof (induction qs arbitrary: b b' granted)
  case Nil
  then show ?case by (simp add: counted_def same_limits_def)
next
  case (Cons q qs)
  obtain b1 g where s: "budget_step q b = (b1, g)" by (cases "budget_step q b")
  obtain b2 rest where r: "budget_run qs b1 = (b2, rest)" by (cases "budget_run qs b1")
  from Cons.prems s r have e: "b' = b2" "granted = (if g then q # rest else rest)" by (auto simp: Let_def)
  from Cons.IH [OF r] have ih: "counted b1 rest b2" .
  show ?case
  proof (cases q)
    case (Begin_Model now)
    obtain b0 x where m: "begin_model now b = (b0, x)" by (cases "begin_model now b")
    with s Begin_Model have "b1 = b0" "g \<longleftrightarrow> \<not> isl x" by auto
    with m ih e Begin_Model show ?thesis
      by (cases rule: begin_model_cases)
        (auto simp: counted_def same_limits_def unat_Suc_below word_less_nat_alt)
  next
    case (Finish_Model n)
    obtain b0 x where m: "finish_model n b = (b0, x)" by (cases "finish_model n b")
    with s Finish_Model have "b1 = b0" "g \<longleftrightarrow> \<not> isl x" by auto
    with m ih e Finish_Model show ?thesis
      by (cases rule: finish_model_cases)
        (auto simp: counted_def same_limits_def word_less_nat_alt max_def split: if_splits)
  next
    case (Begin_Tool now)
    obtain b0 x where m: "begin_tool now b = (b0, x)" by (cases "begin_tool now b")
    with s Begin_Tool have "b1 = b0" "g \<longleftrightarrow> \<not> isl x" by auto
    with m ih e Begin_Tool show ?thesis
      by (cases rule: begin_tool_cases)
        (auto simp: counted_def same_limits_def unat_Suc_below word_less_nat_alt)
  qed
qed

text \<open>C15: However model and tool operations are requested, the granted ones stay within the limits of the
  attempt and are counted exactly: no 64-bit counter wraps around.\<close>
theorem budget_is_enforced:
  assumes "validate_usage b" "budget_run qs b = (b', granted)"
  shows "unat (generation_count (used b')) = unat (generation_count (used b)) + models granted \<and>
    generation_count (used b') \<le> max_generations b \<and>
    unat (tool_call_count (used b')) = unat (tool_call_count (used b)) + tool_starts granted \<and>
    tool_call_count (used b') \<le> max_tool_calls b \<and>
    unat (output_token_count (used b)) + tokens granted \<le> unat (max_total_output_tokens b)"
  using budget_run_counted [OF assms(2)] assms(1)
  by (auto simp: counted_def validate_usage_def word_le_nat_alt max_def split: if_splits)

theorem budget_is_enforced_witness:
  "\<exists>b. from_dispatch 0 9 1 2 1 5 \<lparr>generation_count = 0, tool_call_count = 0, output_token_count = 0\<rparr> = Inr b \<and>
     validate_usage b \<and> models (snd (budget_run [Begin_Model 0, Finish_Model 3, Begin_Model 1, Begin_Model 2] b)) = 2"
proof -
  let ?b = "\<lparr>deadline_at_ms = 9, interaction_deadline_at_ms = 8, max_generations = 2, max_tool_calls = 1,
    max_total_output_tokens = 5, used = \<lparr>generation_count = 0, tool_call_count = 0, output_token_count = 0\<rparr>\<rparr>"
  let ?qs = "[Begin_Model 0, Finish_Model 3, Begin_Model 1, Begin_Model 2]"
  have v: "validate_usage ?b" by (simp add: validate_usage_def)
  have c: "generation_count (used (fst (budget_run ?qs ?b))) = 2"
    by (simp add: Let_def begin_model_def finish_model_def check_interaction_def checked_add_def word_le_nat_alt word_less_nat_alt)
  from budget_is_enforced [OF v, of ?qs "fst (budget_run ?qs ?b)" "snd (budget_run ?qs ?b)"] c
  have "models (snd (budget_run ?qs ?b)) = 2" by simp
  moreover have "from_dispatch 0 9 1 2 1 5 \<lparr>generation_count = 0, tool_call_count = 0, output_token_count = 0\<rparr> = Inr ?b"
    using v by (simp add: from_dispatch_def checked_add_def saturating_sub_def)
  ultimately show ?thesis using v by blast
qed

end
