(* ===== verification/Runtime.thy ===== *)
theory Runtime
  imports Budget Canonical_Json
begin

text \<open>
  The Worker's side of one agent run (\<open>AgentRuntime\<close> and \<open>TrajectoryWriter\<close> of
  \<open>reference-control/src/runtime.rs\<close>, with the contract checks of \<open>contracts.rs\<close>): model calls and
  tool calls under the budget, the calls a generation proposed, and the trajectory. A
  \<open>serde_json::Value\<close> is a \<open>val\<close> built from the JSON constructors; an operation that fails gives the
  code of its \<open>ControlError\<close>. The clock, the cancellation flag, the model provider, the tool host and
  the spool of the writer are the ports of a world \<open>'w\<close>.
\<close>

section \<open>Operations on a state that may fail\<close>

type_synonym ('s, 'a) act = "'s \<Rightarrow> 's \<times> 'a ctl"

definition ret :: "'a \<Rightarrow> ('s, 'a) act" where
  "ret x s = (s, Inr x)"

definition lift :: "'a ctl \<Rightarrow> ('s, 'a) act" where
  "lift r s = (s, r)"

definition bnd :: "('s, 'a) act \<Rightarrow> ('a \<Rightarrow> ('s, 'b) act) \<Rightarrow> ('s, 'b) act" where
  \<comment> \<open>the \<open>?\<close> of Rust: an error ends the function\<close>
  "bnd m f s = (case m s of (s', Inl e) \<Rightarrow> (s', Inl e) | (s', Inr x) \<Rightarrow> f x s')"

definition or_else :: "('s, 'a) act \<Rightarrow> (string \<Rightarrow> ('s, 'a) act) \<Rightarrow> ('s, 'a) act" where
  "or_else m g s = (case m s of (s', Inl e) \<Rightarrow> g e s' | (s', Inr x) \<Rightarrow> (s', Inr x))"

definition getting :: "('s \<Rightarrow> 'a) \<Rightarrow> ('s, 'a) act" where
  "getting f s = (s, Inr (f s))"

definition upd :: "('s \<Rightarrow> 's) \<Rightarrow> ('s, unit) act" where
  "upd f s = (f s, Inr ())"

primrec cbind :: "'a ctl \<Rightarrow> ('a \<Rightarrow> 'b ctl) \<Rightarrow> 'b ctl" where
  "cbind (Inl e) f = Inl e"
| "cbind (Inr x) f = f x"

definition need :: "bool \<Rightarrow> string \<Rightarrow> unit ctl" where
  "need c e = (if c then Inr () else Inl e)"

definition ok_or :: "'a option \<Rightarrow> string \<Rightarrow> 'a ctl" where
  "ok_or x e = (case x of None \<Rightarrow> Inl e | Some y \<Rightarrow> Inr y)"

fun each :: "('a \<Rightarrow> unit ctl) \<Rightarrow> 'a list \<Rightarrow> unit ctl" where
  "each f [] = Inr ()"
| "each f (x # xs) = cbind (f x) (\<lambda>_. each f xs)"

fun collect :: "('a \<Rightarrow> 'b ctl) \<Rightarrow> 'a list \<Rightarrow> 'b list ctl" where
  "collect f [] = Inr []"
| "collect f (x # xs) = cbind (f x) (\<lambda>y. cbind (collect f xs) (\<lambda>ys. Inr (y # ys)))"

lemma bnd_Inr_iff: "bnd m f s = (s', Inr y) \<longleftrightarrow> (\<exists>t x. m s = (t, Inr x) \<and> f x t = (s', Inr y))"
  by (auto simp: bnd_def split: prod.splits sum.splits)

lemma ctl_simps:
  "cbind r f = Inr y \<longleftrightarrow> (\<exists>x. r = Inr x \<and> f x = Inr y)" "need c e = Inr u \<longleftrightarrow> c" "ok_or z e = Inr x \<longleftrightarrow> z = Some x"
  by (cases r, auto simp: need_def ok_or_def split: option.splits)

section \<open>Reading JSON values\<close>

definition vget :: "val \<Rightarrow> string \<Rightarrow> val option" where
  "vget v k = (case v of VDict d \<Rightarrow> map_of d k | _ \<Rightarrow> None)"

definition vindex :: "val \<Rightarrow> string \<Rightarrow> val" where
  \<comment> \<open>\<open>value[k]\<close>, null where there is no such key\<close>
  "vindex v k = (case vget v k of Some x \<Rightarrow> x | None \<Rightarrow> VNone)"

definition as_u64 :: "val \<Rightarrow> u64 option" where
  "as_u64 v = (case v of VInt i \<Rightarrow> if 0 \<le> i \<and> i < 2 ^ 64 then Some (word_of_int i) else None | _ \<Rightarrow> None)"

definition of_u64 :: "u64 \<Rightarrow> val" where
  "of_u64 n = VInt (uint n)"

definition list_of :: "val \<Rightarrow> val list option" where
  "list_of v = (case v of VList xs \<Rightarrow> Some xs | _ \<Rightarrow> None)"

definition str_opt :: "val \<Rightarrow> string option" where
  "str_opt v = (case v of VStr s \<Rightarrow> Some s | _ \<Rightarrow> None)"

definition invalid_field :: "string \<Rightarrow> string" where
  "invalid_field field = ''INVALID_FIELD:'' @ field"

definition string_field :: "val \<Rightarrow> string \<Rightarrow> string ctl" where
  "string_field v field = ok_or (Option.bind (vget v field) str_opt) (invalid_field field)"

definition array_field :: "val \<Rightarrow> string \<Rightarrow> val list ctl" where
  "array_field v field = ok_or (Option.bind (vget v field) list_of) (invalid_field field)"

definition u64_field :: "val \<Rightarrow> string \<Rightarrow> u64 ctl" where
  "u64_field v field = ok_or (Option.bind (vget v field) as_u64) (invalid_field field)"

definition bool_field :: "val \<Rightarrow> string \<Rightarrow> bool ctl" where
  "bool_field v field = (case vget v field of Some (VBool b) \<Rightarrow> Inr b | _ \<Rightarrow> Inl (invalid_field field))"

definition optional_array :: "val \<Rightarrow> string \<Rightarrow> val list option ctl" where
  "optional_array v field =
     (case vget v field of None \<Rightarrow> Inr None | Some x \<Rightarrow> cbind (ok_or (list_of x) (invalid_field field)) (\<lambda>xs. Inr (Some xs)))"

definition object :: "val \<Rightarrow> string \<Rightarrow> dict ctl" where
  "object v name = (case v of VDict d \<Rightarrow> Inr d | _ \<Rightarrow> Inl (name @ ''_MUST_BE_OBJECT''))"

definition json_eq :: "val \<Rightarrow> val \<Rightarrow> bool" where
  \<comment> \<open>equality of \<open>Value\<close>s: objects are maps, whose order does not count\<close>
  "json_eq a b \<longleftrightarrow> sorted_val a = sorted_val b"

definition same_field :: "val \<Rightarrow> val \<Rightarrow> string \<Rightarrow> bool" where
  "same_field a b field \<longleftrightarrow> rel_option json_eq (vget a field) (vget b field)"

section \<open>Contract shapes\<close>

definition definition_of :: "val \<Rightarrow> string \<Rightarrow> val ctl" where
  "definition_of contract name = ok_or (Option.bind (vget contract ''$defs'') (\<lambda>d. vget d name)) (''UNKNOWN_CONTRACT:'' @ name)"

definition shape_head :: "val \<Rightarrow> string \<Rightarrow> val \<Rightarrow> dict ctl" where
  \<comment> \<open>the required and allowed fields of an object; gives the properties of its definition\<close>
  "shape_head contract name v =
     cbind (definition_of contract name) (\<lambda>dfn.
     cbind (object v name) (\<lambda>d.
     cbind (case vget dfn ''properties'' of Some (VDict ps) \<Rightarrow> Inr ps | _ \<Rightarrow> Inl (name @ ''_HAS_NO_PROPERTIES'')) (\<lambda>ps.
     let required = (case vget dfn ''required'' of Some (VList rs) \<Rightarrow> List.map_filter str_opt rs | _ \<Rightarrow> []) in
     cbind (each (\<lambda>field. need (map_of d field \<noteq> None) (''MISSING_FIELD:'' @ name @ ''.'' @ field)) (sort required)) (\<lambda>_.
     cbind (each (\<lambda>field. need (map_of ps field \<noteq> None) (''UNKNOWN_FIELD:'' @ name @ ''.'' @ field)) (sort (map fst d))) (\<lambda>_.
       Inr ps)))))"

definition content_part_shape :: "val \<Rightarrow> val \<Rightarrow> unit ctl" where
  \<comment> \<open>the contract has no kinds but the three; Rust would panic at another\<close>
  "content_part_shape contract v =
     cbind (shape_head contract ''ContentPart'' v) (\<lambda>ps.
     cbind (string_field v ''kind'') (\<lambda>kind.
     cbind (object v ''ContentPart'') (\<lambda>d.
     let known = (case vindex (vindex (VDict ps) ''kind'') ''enum'' of VList vs \<Rightarrow> VStr kind \<in> set vs | _ \<Rightarrow> False) in
     cbind (need (known \<and> length d = 2 \<and> map_of d kind \<noteq> None) ''INVALID_CONTENT_PART'') (\<lambda>_.
       if kind = ''text'' then cbind (string_field v ''text'') (\<lambda>_. Inr ())
       else if kind = ''artifact'' then cbind (shape_head contract ''ArtifactRef'' (vindex v ''artifact'')) (\<lambda>_. Inr ())
       else if kind = ''structured'' then
         cbind (shape_head contract ''TypedConfig'' (vindex v ''structured'')) (\<lambda>_.
         cbind (string_field (vindex v ''structured'') ''schema_ref'') (\<lambda>_.
         (case vindex (vindex v ''structured'') ''data'' of VDict _ \<Rightarrow> Inr ()
          | _ \<Rightarrow> Inl ''STRUCTURED_CONTENT_MUST_BE_MODEL'')))
       else Inl ''unreachable''))))"

definition observation_shape :: "val \<Rightarrow> val \<Rightarrow> unit ctl" where
  "observation_shape contract v =
     cbind (shape_head contract ''Observation'' v) (\<lambda>_.
     cbind (array_field v ''content'') (\<lambda>parts.
     cbind (each (content_part_shape contract) parts) (\<lambda>_.
     cbind (bool_field v ''terminated'') (\<lambda>_.
     cbind (bool_field v ''episode_truncated'') (\<lambda>_. Inr ())))))"

definition tool_result_shape :: "val \<Rightarrow> val \<Rightarrow> unit ctl" where
  "tool_result_shape contract v =
     cbind (shape_head contract ''ToolResult'' v) (\<lambda>_.
     cbind (observation_shape contract (vindex v ''observation'')) (\<lambda>_.
     cbind (string_field v ''status'') (\<lambda>status.
     cbind (need (status \<in> set [''ok'', ''error'', ''timeout'', ''cancelled'']) ''INVALID_TOOL_RESULT_STATUS'') (\<lambda>_.
     cbind (bool_field v ''output_truncated'') (\<lambda>_. Inr ())))))"

definition validate_shape :: "val \<Rightarrow> string \<Rightarrow> val \<Rightarrow> unit ctl" where
  "validate_shape contract name v =
     (if name = ''ContentPart'' then content_part_shape contract v
      else if name = ''ToolResult'' then tool_result_shape contract v
      else if name = ''Observation'' then observation_shape contract v
      else cbind (shape_head contract name v) (\<lambda>_. Inr ()))"

section \<open>The state of an attempt and its ports\<close>

record trace =
  tr_run_id :: string
  tr_episode_id :: string
  tr_attempt_id :: u64
  tr_task_id :: string
  tr_events :: "val list"
  tr_next_sequence :: u64
  tr_sealed :: bool
  tr_complete :: bool

record runtime =
  rt_model :: val
  rt_training :: "val option"
  rt_tools :: "val list"
  rt_seed :: u64
  rt_observation :: val
  rt_budget_denied :: bool
  rt_generation_limited :: bool
  rt_episode_id :: string
  rt_attempt_id :: u64
  rt_generation_ids :: "string list"
  rt_generated :: dict                \<comment> \<open>the proposed calls by identifier\<close>
  rt_parameter_version :: "val option"
  rt_call_ids :: "string list"
  rt_next_generation :: u64
  rt_budget :: budget
  rt_trace :: trace

type_synonym failure = "string \<times> bool"  \<comment> \<open>code and \<open>retryable\<close>\<close>

record 'w ports =
  wp_lib :: lib                                               \<comment> \<open>the texts of numbers that \<open>serde_json\<close> writes\<close>
  wp_contract :: val                                              \<comment> \<open>the bundled contract\<close>
  wp_now :: "'w \<Rightarrow> u64"
  wp_unix :: "'w \<Rightarrow> u64"
  wp_cancelled :: "'w \<Rightarrow> bool"
  wp_reserve :: "u64 \<Rightarrow> 'w \<Rightarrow> 'w \<times> unit ctl"               \<comment> \<open>the spool; without one, no effect\<close>
  wp_append :: "val \<Rightarrow> 'w \<Rightarrow> 'w \<times> unit ctl"
  wp_usage :: "usage \<Rightarrow> 'w \<Rightarrow> 'w \<times> unit ctl"
  wp_model :: "val \<Rightarrow> 'w \<Rightarrow> 'w \<times> val ctl"                 \<comment> \<open>\<open>ModelProvider::generate\<close>\<close>
  wp_check_call :: "val \<Rightarrow> val \<Rightarrow> 'w \<Rightarrow> 'w \<times> unit ctl"     \<comment> \<open>\<open>ToolHost::validate_call\<close>\<close>
  wp_call_tool :: "val \<Rightarrow> val \<Rightarrow> 'w \<Rightarrow> 'w \<times> (failure + val)"  \<comment> \<open>\<open>ToolHost::call_tool\<close>\<close>

type_synonym ('w, 'a) run = "(runtime \<times> 'w, 'a) act"

definition rt :: "(runtime \<Rightarrow> 'a) \<Rightarrow> ('w, 'a) run" where
  "rt f = getting (\<lambda>s. f (fst s))"

definition put :: "(runtime \<Rightarrow> runtime) \<Rightarrow> ('w, unit) run" where
  "put f = upd (\<lambda>s. (f (fst s), snd s))"

definition port :: "('w \<Rightarrow> 'w \<times> 'a ctl) \<Rightarrow> ('w, 'a) run" where
  "port f s = (let (w, r) = f (snd s) in ((fst s, w), r))"

definition budgeted :: "'w ports \<Rightarrow> (u64 \<Rightarrow> budget \<Rightarrow> budget \<times> 'a ctl) \<Rightarrow> ('w, 'a) run" where
  "budgeted P f s =
     (let (b, r) = f (wp_now P (snd s)) (rt_budget (fst s)) in (((fst s)\<lparr>rt_budget := b\<rparr>, snd s), r))"

definition reading :: "'w ports \<Rightarrow> (u64 \<Rightarrow> budget \<Rightarrow> 'a ctl) \<Rightarrow> ('w, 'a) run" where
  "reading P f s = (s, f (wp_now P (snd s)) (rt_budget (fst s)))"

definition set_trace :: "(trace \<Rightarrow> trace) \<Rightarrow> runtime \<Rightarrow> runtime" where
  "set_trace f R = R\<lparr>rt_trace := f (rt_trace R)\<rparr>"

definition set_complete :: "bool \<Rightarrow> ('w, unit) run" where
  "set_complete c = put (set_trace (tr_complete_update (\<lambda>_. c)))"

definition new_trace :: "val \<Rightarrow> trace ctl" where
  "new_trace plan =
     cbind (string_field plan ''run_id'') (\<lambda>run_id. cbind (string_field plan ''episode_id'') (\<lambda>episode_id.
     cbind (u64_field plan ''attempt_id'') (\<lambda>attempt_id.
     cbind (ok_or (Option.bind (Option.bind (vget plan ''task'') (\<lambda>t. vget t ''task_id'')) str_opt) ''INVALID_TASK_ID'') (\<lambda>task_id.
       Inr \<lparr>tr_run_id = run_id, tr_episode_id = episode_id, tr_attempt_id = attempt_id, tr_task_id = task_id,
            tr_events = [], tr_next_sequence = 0, tr_sealed = False, tr_complete = True\<rparr>))))"

definition new_runtime :: "val \<Rightarrow> val \<Rightarrow> budget \<Rightarrow> trace \<Rightarrow> val \<Rightarrow> runtime ctl" where
  "new_runtime contract plan b tr initial_observation =
     cbind (validate_shape contract ''Observation'' initial_observation) (\<lambda>_.
     cbind (ok_or (vget plan ''model'') ''MISSING_MODEL'') (\<lambda>model.
     cbind (array_field plan ''tools'') (\<lambda>tools. cbind (u64_field plan ''seed'') (\<lambda>seed.
     cbind (string_field plan ''episode_id'') (\<lambda>episode_id. cbind (u64_field plan ''attempt_id'') (\<lambda>attempt_id.
       Inr \<lparr>rt_model = model, rt_training = vget plan ''training'', rt_tools = tools, rt_seed = seed,
            rt_observation = initial_observation, rt_budget_denied = False, rt_generation_limited = False,
            rt_episode_id = episode_id, rt_attempt_id = attempt_id, rt_generation_ids = [], rt_generated = [],
            rt_parameter_version = None, rt_call_ids = [], rt_next_generation = 0, rt_budget = b, rt_trace = tr\<rparr>))))))"

section \<open>The trajectory\<close>

fun contains_field :: "string \<Rightarrow> val \<Rightarrow> bool" where
  "contains_field field (VDict d) \<longleftrightarrow> field \<in> fst ` set d \<or> (\<exists>p \<in> set d. contains_field field (snd p))"
| "contains_field field (VList vs) \<longleftrightarrow> (\<exists>v \<in> set vs. contains_field field v)"
| "contains_field field _ \<longleftrightarrow> False"

definition payload_types :: "(string \<times> string) list" where
  "payload_types = [(''state'', ''StateEvent''), (''observation'', ''Observation''), (''generation'', ''GenerationEvent''),
     (''tool_call'', ''ToolCall''), (''tool_result'', ''ToolResult''), (''score'', ''ScoreResult''), (''error'', ''ErrorRecord''),
     (''terminal'', ''TerminalEvent'')]"

definition max_segment_bytes :: int where
  "max_segment_bytes = 4 * 1024 * 1024"

definition show_u64 :: "u64 \<Rightarrow> string" where
  "show_u64 n = show_int (uint n)"

definition event_of :: "trace \<Rightarrow> u64 \<Rightarrow> u64 \<Rightarrow> string \<Rightarrow> val \<Rightarrow> val" where
  "event_of t number now_ms kind payload =
     VDict [(''schema_version'', VStr ''vnext.3''),
            (''event_id'', VStr (tr_episode_id t @ '':'' @ show_u64 (tr_attempt_id t) @ '':'' @ show_u64 number)),
            (''run_id'', VStr (tr_run_id t)), (''episode_id'', VStr (tr_episode_id t)), (''attempt_id'', of_u64 (tr_attempt_id t)),
            (''task_id'', VStr (tr_task_id t)), (''sequence'', of_u64 number), (''occurred_at_ms'', of_u64 now_ms),
            (''kind'', VStr kind), (''payload'', payload)]"

definition event_fits :: "lib \<Rightarrow> val \<Rightarrow> unit ctl" where
  "event_fits L event = (case canonical_bytes L event of
       Inl _ \<Rightarrow> Inl ''CANONICAL_JSON_FAILED''
     | Inr bs \<Rightarrow> need (int (length bs) + 1 \<le> max_segment_bytes) ''TRAJECTORY_EVENT_TOO_LARGE'')"

definition try_record :: "'w ports \<Rightarrow> string \<Rightarrow> val \<Rightarrow> ('w, string) run" where
  "try_record P kind payload =
     bnd (rt rt_trace) (\<lambda>t.
     bnd (lift (need (\<not> tr_sealed t) ''TRAJECTORY_ALREADY_SEALED'')) (\<lambda>_.
     bnd (lift (ok_or (checked_add (tr_next_sequence t) 1) ''TRAJECTORY_SEQUENCE_OVERFLOW'')) (\<lambda>n.
     bnd (put (set_trace (tr_next_sequence_update (\<lambda>_. n)))) (\<lambda>_.
     bnd (port (wp_reserve P (tr_next_sequence t))) (\<lambda>_.
     bnd (lift (ok_or (map_of payload_types kind) ''UNKNOWN_TRAJECTORY_EVENT_KIND'')) (\<lambda>payload_type.
     bnd (lift (validate_shape (wp_contract P) payload_type payload)) (\<lambda>_.
     bnd (getting (\<lambda>s. event_of t (tr_next_sequence t) (wp_unix P (snd s)) kind payload)) (\<lambda>event.
     bnd (lift (validate_shape (wp_contract P) ''TrajectoryEvent'' event)) (\<lambda>_.
     bnd (lift (need (\<not> contains_field ''private_data'' payload) ''PRIVATE_DATA_IN_TRAJECTORY'')) (\<lambda>_.
     bnd (lift (event_fits (wp_lib P) event)) (\<lambda>_.
     bnd (port (wp_append P event)) (\<lambda>_.
     bnd (put (set_trace (tr_events_update (\<lambda>es. es @ [event])))) (\<lambda>_.
       ret (tr_episode_id t @ '':'' @ show_u64 (tr_attempt_id t) @ '':'' @ show_u64 (tr_next_sequence t)))))))))))))))"

definition record_event :: "'w ports \<Rightarrow> string \<Rightarrow> val \<Rightarrow> ('w, unit) run" where
  \<comment> \<open>\<open>record\<close>: a failed record makes the trajectory incomplete\<close>
  "record_event P kind payload =
     bnd (or_else (try_record P kind payload) (\<lambda>e. bnd (set_complete False) (\<lambda>_. lift (Inl e)))) (\<lambda>_. ret ())"

definition persist_usage :: "'w ports \<Rightarrow> usage \<Rightarrow> ('w, unit) run" where
  "persist_usage P u = port (wp_usage P u)"

section \<open>Model calls\<close>

definition prepare_part :: "'w ports \<Rightarrow> val \<Rightarrow> val ctl" where
  "prepare_part P part =
     cbind (validate_shape (wp_contract P) ''ContentPart'' part) (\<lambda>_.
       if vindex part ''kind'' = VStr ''structured''
       then (case dumps (wp_lib P) canonical_opts (vindex (vindex part ''structured'') ''data'') of
               Inl _ \<Rightarrow> Inl ''STRUCTURED_CONTENT_SERIALIZATION_FAILED''
             | Inr t \<Rightarrow> Inr (VDict [(''kind'', VStr ''text''), (''text'', VStr t)]))
       else Inr part)"

definition prepare_messages :: "'w ports \<Rightarrow> val \<Rightarrow> val list ctl" where
  "prepare_messages P messages =
     cbind (ok_or (list_of messages) ''MESSAGES_MUST_BE_ARRAY'')
       (collect (\<lambda>m.
          cbind (validate_shape (wp_contract P) ''Message'' m) (\<lambda>_.
          cbind (object m ''Message'') (\<lambda>d.
          cbind (ok_or (Option.bind (map_of d ''content'') list_of) ''INVALID_MESSAGE_CONTENT'') (\<lambda>parts.
          cbind (collect (prepare_part P) parts) (\<lambda>parts'.
            Inr (VDict (AList.update ''content'' (VList parts') d))))))))"

definition check_active :: "'w ports \<Rightarrow> ('w, unit) run" where
  "check_active P = bnd (getting (\<lambda>s. wp_cancelled P (snd s))) (\<lambda>c. lift (need (\<not> c) ''EPISODE_CANCELLED''))"

definition finished :: "val \<Rightarrow> bool" where
  "finished obs \<longleftrightarrow> vget obs ''terminated'' = Some (VBool True) \<or> vget obs ''episode_truncated'' = Some (VBool True)"

definition check_interaction_open :: "'w ports \<Rightarrow> ('w, unit) run" where
  "check_interaction_open P =
     bnd (check_active P) (\<lambda>_.
     bnd (rt rt_observation) (\<lambda>obs. lift (need (\<not> finished obs) ''ENVIRONMENT_ALREADY_FINISHED'')))"


definition check_versions :: "val option \<Rightarrow> val option \<Rightarrow> val \<Rightarrow> unit ctl" where
  \<comment> \<open>only under training: the policy and parameter versions of the event\<close>
  "check_versions training fixed_version event =
     (case training of
        None \<Rightarrow> Inr ()
      | Some tr \<Rightarrow>
          cbind (string_field event ''policy_version'') (\<lambda>policy.
          cbind (need (policy \<noteq> []) ''MODEL_POLICY_VERSION_MISSING'') (\<lambda>_.
          cbind (string_field tr ''version_policy'') (\<lambda>kind.
            if kind = ''fixed_episode'' then
              cbind (string_field tr ''requested_policy_version'') (\<lambda>requested.
              cbind (need (policy = requested \<and>
                  (case fixed_version of None \<Rightarrow> True | Some v \<Rightarrow> rel_option json_eq (vget event ''parameter_version'') (Some v)))
                ''MODEL_POLICY_VERSION_MISMATCH'') (\<lambda>_.
              cbind (u64_field event ''parameter_version'') (\<lambda>_. Inr ())))
            else if kind = ''per_generation'' then cbind (u64_field event ''parameter_version'') (\<lambda>_. Inr ())
            else Inl ''INVALID_VERSION_POLICY''))))"

definition named_binding :: "val list \<Rightarrow> val option \<Rightarrow> val ctl" where
  "named_binding bindings name = ok_or (find (\<lambda>b. rel_option json_eq (vget b ''name'') name) bindings) ''TOOL_NOT_SELECTED''"

fun check_proposed :: "val \<Rightarrow> runtime \<Rightarrow> val \<Rightarrow> string list \<Rightarrow> val list \<Rightarrow> unit ctl" where
  "check_proposed contract R event seen [] = Inr ()"
| "check_proposed contract R event seen (call # calls) =
     cbind (validate_shape contract ''ToolCall'' call) (\<lambda>_.
     cbind (string_field call ''tool_call_id'') (\<lambda>i.
     cbind (need (i \<notin> set seen \<and> map_of (rt_generated R) i = None \<and> i \<notin> set (rt_call_ids R)) ''DUPLICATE_TOOL_CALL_ID'') (\<lambda>_.
     cbind (need (same_field call event ''generation_id'') ''MODEL_TOOL_GENERATION_MISMATCH'') (\<lambda>_.
     cbind (named_binding (rt_tools R) (vget call ''name'')) (\<lambda>binding.
     cbind (need (same_field call binding ''implementation'') ''TOOL_CALL_BINDING_MISMATCH'') (\<lambda>_.
     cbind (u64_field call ''timeout_ms'') (\<lambda>ms.
     cbind (need (ms \<noteq> 0) ''INVALID_TOOL_TIMEOUT'') (\<lambda>_. check_proposed contract R event (i # seen) calls))))))))"

definition trace_fields :: "string list" where
  "trace_fields = [''policy_version'', ''parameter_version'', ''tokenizer'', ''input_token_ids'', ''output_token_ids'',
     ''output_logprobs'', ''loss_mask'']"

definition same_length :: "val list option \<Rightarrow> val list option \<Rightarrow> bool" where
  "same_length xs ys \<longleftrightarrow> (case xs of None \<Rightarrow> True | Some a \<Rightarrow> map_option length ys = Some (length a))"

definition all_in :: "(val \<Rightarrow> bool) \<Rightarrow> val list option \<Rightarrow> bool" where
  "all_in p xs \<longleftrightarrow> (case xs of None \<Rightarrow> True | Some a \<Rightarrow> list_all p a)"

definition check_tokens :: "val option \<Rightarrow> val \<Rightarrow> u64 ctl" where
  \<comment> \<open>the token trace of the event; gives the number of output tokens\<close>
  "check_tokens training event =
     cbind (u64_field event ''output_token_count'') (\<lambda>n.
     cbind (optional_array event ''output_token_ids'') (\<lambda>output_ids.
     cbind (need (case output_ids of None \<Rightarrow> True | Some a \<Rightarrow> of_nat (length a) = n) ''OUTPUT_TOKEN_COUNT_MISMATCH'') (\<lambda>_.
     cbind (optional_array event ''output_logprobs'') (\<lambda>logprobs.
     cbind (need (same_length logprobs output_ids) ''OUTPUT_LOGPROBS_LENGTH_MISMATCH'') (\<lambda>_.
     cbind (optional_array event ''loss_mask'') (\<lambda>mask.
     cbind (need (same_length mask output_ids) ''LOSS_MASK_LENGTH_MISMATCH'') (\<lambda>_.
     cbind (optional_array event ''input_token_ids'') (\<lambda>input_ids.
     cbind (need (all_in (\<lambda>v. as_u64 v \<noteq> None) input_ids \<and> all_in (\<lambda>v. as_u64 v \<noteq> None) output_ids) ''INVALID_TOKEN_ID'') (\<lambda>_.
     cbind (need (all_in (\<lambda>v. case v of VInt _ \<Rightarrow> True | VFloat x \<Rightarrow> is_finite x | _ \<Rightarrow> False) logprobs) ''INVALID_OUTPUT_LOGPROB'') (\<lambda>_.
     cbind (need (all_in (\<lambda>v. as_u64 v \<in> {Some 0, Some 1}) mask) ''INVALID_LOSS_MASK'') (\<lambda>_.
     cbind (if Option.bind training (\<lambda>tr. vget tr ''require_token_trace'') = Some (VBool True)
            then each (\<lambda>field. need (vget event field \<noteq> None) (''TRAINING_TOKEN_TRACE_REQUIRED:'' @ field)) trace_fields
            else Inr ()) (\<lambda>_. Inr n))))))))))))"

definition validate_generation_trace :: "val \<Rightarrow> runtime \<Rightarrow> val \<Rightarrow> u64 ctl" where
  "validate_generation_trace contract R event =
     cbind (check_versions (rt_training R) (rt_parameter_version R) event) (\<lambda>_.
     cbind (array_field event ''response'') (\<lambda>parts.
     cbind (each (validate_shape contract ''ContentPart'') parts) (\<lambda>_.
     cbind (string_field event ''finish_reason'') (\<lambda>reason.
     cbind (definition_of contract ''GenerationEvent'') (\<lambda>dfn.
     cbind (need (case vindex (vindex (vindex dfn ''properties'') ''finish_reason'') ''enum'' of
                    VList vs \<Rightarrow> VStr reason \<in> set vs | _ \<Rightarrow> False) ''INVALID_FINISH_REASON'') (\<lambda>_.
     cbind (optional_array event ''tool_calls'') (\<lambda>proposed.
     cbind (need ((reason = ''tool_calls'') = (proposed \<noteq> None) \<and> proposed \<noteq> Some []) ''MODEL_TOOL_CALLS_MISMATCH'') (\<lambda>_.
     cbind (check_proposed contract R event [] (case proposed of None \<Rightarrow> [] | Some cs \<Rightarrow> cs)) (\<lambda>_.
       check_tokens (rt_training R) event)))))))))"

definition saturating_add :: "u64 \<Rightarrow> u64 \<Rightarrow> u64" where
  "saturating_add a b = (case checked_add a b of Some n \<Rightarrow> n | None \<Rightarrow> - 1)"

definition model_command :: "runtime \<Rightarrow> string \<Rightarrow> dict \<Rightarrow> dict \<Rightarrow> val list \<Rightarrow> u64 \<Rightarrow> u64 \<Rightarrow> val" where
  "model_command R generation_id model generation messages limit ms =
     VDict ([(''generation_id'', VStr generation_id),
             (''model'', VDict (AList.update ''generation'' (VDict (AList.update ''max_output_tokens'' (of_u64 limit) generation)) model)),
             (''messages'', VList messages), (''tools'', VList (rt_tools R)), (''seed'', of_u64 (rt_seed R)),
             (''remaining_timeout_ms'', of_u64 ms)] @
            (case rt_training R of None \<Rightarrow> [] | Some tr \<Rightarrow> [(''training'', tr)]))"

definition check_event :: "val \<Rightarrow> runtime \<Rightarrow> string \<Rightarrow> val list \<Rightarrow> val \<Rightarrow> u64 ctl" where
  \<comment> \<open>the identity of a generation event; gives its number of output tokens\<close>
  "check_event contract R generation_id messages event =
     cbind (validate_shape contract ''GenerationEvent'' event) (\<lambda>_.
     cbind (need (vget event ''generation_id'' = Some (VStr generation_id)) ''MODEL_GENERATION_ID_MISMATCH'') (\<lambda>_.
     cbind (need (rel_option json_eq (vget event ''messages'') (Some (VList messages))) ''MODEL_MESSAGES_MISMATCH'') (\<lambda>_.
     cbind (need (same_field event (rt_model R) ''model_id'' \<and> same_field event (rt_model R) ''source'') ''MODEL_IDENTITY_MISMATCH'') (\<lambda>_.
     cbind (validate_generation_trace contract R event) (\<lambda>n.
     cbind (need (generation_id \<notin> set (rt_generation_ids R)) ''DUPLICATE_GENERATION_ID'') (\<lambda>_. Inr n))))))"

definition add_calls :: "val list \<Rightarrow> runtime \<Rightarrow> runtime" where
  \<comment> \<open>the identifiers were checked when the trace was validated\<close>
  "add_calls calls R = R\<lparr>rt_generated := fold (\<lambda>call g.
      case string_field call ''tool_call_id'' of Inr i \<Rightarrow> AList.update i call g | Inl _ \<Rightarrow> g) calls (rt_generated R)\<rparr>"

definition event_calls :: "val \<Rightarrow> val list" where
  "event_calls event = (case optional_array event ''tool_calls'' of Inr (Some cs) \<Rightarrow> cs | _ \<Rightarrow> [])"

definition fix_version :: "val \<Rightarrow> runtime \<Rightarrow> runtime" where
  "fix_version event R =
     (if (case rt_training R of None \<Rightarrow> False | Some tr \<Rightarrow> vindex tr ''version_policy'' = VStr ''fixed_episode'')
      then R\<lparr>rt_parameter_version := vget event ''parameter_version''\<rparr> else R)"

definition configured_tokens :: "val \<Rightarrow> (dict \<times> dict \<times> u64) ctl" where
  "configured_tokens spec =
     cbind (object spec ''ModelSpec'') (\<lambda>model.
     cbind (case map_of model ''generation'' of Some (VDict g) \<Rightarrow> Inr g | _ \<Rightarrow> Inl ''INVALID_MODEL_GENERATION'') (\<lambda>generation.
     cbind (ok_or (Option.bind (map_of generation ''max_output_tokens'') as_u64) ''INVALID_MAX_OUTPUT_TOKENS'') (\<lambda>n.
       Inr (model, generation, n))))"

definition generation_name :: "runtime \<Rightarrow> string" where
  "generation_name R = rt_episode_id R @ '':'' @ show_u64 (rt_attempt_id R) @ '':generation:'' @ show_u64 (rt_next_generation R)"

definition open_generation :: "'w ports \<Rightarrow> val \<Rightarrow> ('w, string \<times> dict \<times> dict \<times> val list \<times> u64 \<times> u64) run" where
  \<comment> \<open>the checks before a model call, and the generation counted in the budget\<close>
  "open_generation P messages =
     bnd (check_interaction_open P) (\<lambda>_.
     bnd (lift (prepare_messages P messages)) (\<lambda>ms.
     bnd (rt rt_model) (\<lambda>spec.
     bnd (lift (configured_tokens spec)) (\<lambda>(model, generation, configured).
     bnd (reading P remaining_interaction_ms) (\<lambda>remaining_ms.
     bnd (budgeted P begin_model) (\<lambda>remaining_tokens.
     bnd (rt (\<lambda>R. (generation_name R, rt_next_generation R))) (\<lambda>(generation_id, index).
     bnd (lift (ok_or (checked_add index 1) ''GENERATION_INDEX_OVERFLOW'')) (\<lambda>n.
     bnd (put (rt_next_generation_update (\<lambda>_. n))) (\<lambda>_.
       ret (generation_id, model, generation, ms, min configured remaining_tokens, remaining_ms))))))))))"

definition close_generation :: "'w ports \<Rightarrow> bool \<Rightarrow> u64 \<Rightarrow> u64 \<Rightarrow> val \<Rightarrow> ('w, val) run" where
  \<comment> \<open>what a checked event changes\<close>
  "close_generation P was_complete limit n event =
     bnd (budgeted P (\<lambda>_. finish_model n)) (\<lambda>_.
     bnd (lift (need (n \<le> limit) ''MODEL_OUTPUT_LIMIT_EXCEEDED'')) (\<lambda>_.
     bnd (record_event P ''generation'' event) (\<lambda>_.
     bnd (rt (\<lambda>R. used (rt_budget R))) (\<lambda>u.
     bnd (persist_usage P u) (\<lambda>_.
     bnd (set_complete was_complete) (\<lambda>_.
     bnd (put (add_calls (event_calls event))) (\<lambda>_.
     bnd (put (fix_version event)) (\<lambda>_.
     bnd (check_active P) (\<lambda>_.
     bnd (put (rt_generation_limited_update (\<lambda>_. vindex event ''finish_reason'' = VStr ''length''))) (\<lambda>_.
       ret event))))))))))"

definition generate_inner :: "'w ports \<Rightarrow> val \<Rightarrow> ('w, val) run" where
  "generate_inner P messages =
     bnd (open_generation P messages) (\<lambda>(generation_id, model, generation, ms, limit, remaining_ms).
     bnd (rt (\<lambda>R. tr_complete (rt_trace R))) (\<lambda>was_complete.
     bnd (set_complete False) (\<lambda>_.
     bnd (rt (\<lambda>R. let u = used (rt_budget R) in u\<lparr>output_token_count := saturating_add (output_token_count u) limit\<rparr>)) (\<lambda>reservation.
     bnd (persist_usage P reservation) (\<lambda>_.
     bnd (rt (\<lambda>R. model_command R generation_id model generation ms limit remaining_ms)) (\<lambda>command.
     bnd (port (wp_model P command)) (\<lambda>event.
     bnd (rt (\<lambda>R. check_event (wp_contract P) R generation_id ms event)) (\<lambda>checked.
     bnd (lift checked) (\<lambda>n.
     bnd (put (rt_generation_ids_update (\<lambda>ids. generation_id # ids))) (\<lambda>_.
       close_generation P was_complete limit n event))))))))))"

section \<open>Tool calls\<close>

definition contains_text :: "string \<Rightarrow> string \<Rightarrow> bool" where
  "contains_text word s \<longleftrightarrow> sublist word s"

definition failed_tool_result :: "val \<Rightarrow> failure \<Rightarrow> val" where
  "failed_tool_result call failure =
     (let (c, retryable) = failure; i = vindex call ''tool_call_id'' in
      VDict [(''tool_call_id'', i),
             (''status'', VStr (if contains_text ''TIMEOUT'' c then ''timeout''
                                else if contains_text ''CANCELLED'' c then ''cancelled'' else ''error'')),
             (''observation'', VDict [(''content'', VList []), (''terminated'', VBool False), (''episode_truncated'', VBool False)]),
             (''output_truncated'', VBool False),
             (''error'', VDict [(''code'', VStr c), (''phase'', VStr ''tool''), (''message'', VStr c), (''retryable'', VBool retryable),
                               (''operation_id'', i)])])"

definition call_fields :: "string list" where
  "call_fields = [''generation_id'', ''name'', ''implementation'', ''arguments'']"

definition check_call :: "val \<Rightarrow> runtime \<Rightarrow> val \<Rightarrow> (string \<times> val \<times> val) ctl" where
  \<comment> \<open>the checks of a requested call: its identifier, what was proposed, and its binding\<close>
  "check_call contract R call =
     cbind (validate_shape contract ''ToolCall'' call) (\<lambda>_.
     cbind (string_field call ''tool_call_id'') (\<lambda>i.
     cbind (string_field call ''generation_id'') (\<lambda>g.
     cbind (need (g \<in> set (rt_generation_ids R)) ''UNKNOWN_TOOL_CALL_GENERATION_ID'') (\<lambda>_.
     cbind (need (i \<notin> set (rt_call_ids R)) ''DUPLICATE_TOOL_CALL_ID'') (\<lambda>_.
     cbind (ok_or (map_of (rt_generated R) i) ''TOOL_CALL_NOT_GENERATED'') (\<lambda>generated.
     cbind (need (list_all (same_field call generated) call_fields) ''TOOL_CALL_CHANGED'') (\<lambda>_.
     cbind (string_field call ''name'') (\<lambda>name.
     cbind (ok_or (find (\<lambda>b. vget b ''name'' = Some (VStr name)) (rt_tools R)) ''TOOL_NOT_SELECTED'') (\<lambda>binding.
     cbind (need (same_field call binding ''implementation'') ''TOOL_CALL_BINDING_MISMATCH'') (\<lambda>_.
       Inr (i, generated, binding)))))))))))"

definition configured_timeout :: "val \<Rightarrow> u64" where
  "configured_timeout binding =
     (case Option.bind (Option.bind (Option.bind (vget binding ''config'') (\<lambda>c. vget c ''data'')) (\<lambda>d. vget d ''timeout_ms'')) as_u64 of
        Some n \<Rightarrow> n | None \<Rightarrow> - 1)"

definition requested_timeout :: "val \<Rightarrow> val \<Rightarrow> val \<Rightarrow> u64 ctl" where
  "requested_timeout call generated binding =
     cbind (u64_field call ''timeout_ms'') (\<lambda>requested.
     cbind (u64_field generated ''timeout_ms'') (\<lambda>proposed.
     cbind (need (requested \<le> proposed) ''TOOL_CALL_TIMEOUT_INCREASED'') (\<lambda>_.
     cbind (need (requested \<noteq> 0 \<and> configured_timeout binding \<noteq> 0) ''INVALID_TOOL_TIMEOUT'') (\<lambda>_.
       Inr (min requested (configured_timeout binding))))))"

definition with_timeout :: "val \<Rightarrow> u64 \<Rightarrow> val" where
  "with_timeout call ms = (case call of VDict d \<Rightarrow> VDict (AList.update ''timeout_ms'' (of_u64 ms) d) | _ \<Rightarrow> call)"

definition open_call :: "'w ports \<Rightarrow> val \<Rightarrow> ('w, string \<times> val \<times> val) run" where
  \<comment> \<open>all checks before a tool runs; gives the identifier, the binding and the call with its effective timeout\<close>
  "open_call P call =
     bnd (check_interaction_open P) (\<lambda>_.
     bnd (rt (\<lambda>R. check_call (wp_contract P) R call)) (\<lambda>checked.
     bnd (lift checked) (\<lambda>(i, generated, binding).
     bnd (lift (requested_timeout call generated binding)) (\<lambda>ms.
     bnd (reading P remaining_interaction_ms) (\<lambda>remaining.
     bnd (ret (max 1 (min ms remaining))) (\<lambda>effective.
     bnd (port (wp_check_call P binding (with_timeout call effective))) (\<lambda>_.
     bnd (reading P remaining_interaction_ms) (\<lambda>remaining2.
     bnd (budgeted P begin_tool) (\<lambda>_.
     bnd (rt (\<lambda>R. used (rt_budget R))) (\<lambda>u.
     bnd (persist_usage P u) (\<lambda>_.
     bnd (put (rt_call_ids_update (\<lambda>ids. i # ids))) (\<lambda>_.
       ret (i, binding, with_timeout call (min effective remaining2))))))))))))))"

definition fail_call :: "'w ports \<Rightarrow> val \<Rightarrow> failure \<Rightarrow> ('w, val) run" where
  "fail_call P call failure =
     bnd (record_event P ''tool_result'' (failed_tool_result call failure)) (\<lambda>_. lift (Inl (fst failure)))"

definition check_result :: "val \<Rightarrow> val \<Rightarrow> val \<Rightarrow> unit ctl" where
  "check_result contract call result =
     cbind (validate_shape contract ''ToolResult'' result) (\<lambda>_.
       need (same_field result call ''tool_call_id'') ''TOOL_RESULT_ID_MISMATCH'')"

definition observe_result :: "val \<Rightarrow> runtime \<Rightarrow> runtime" where
  "observe_result result R =
     (if vindex result ''status'' = VStr ''ok'' then R\<lparr>rt_observation := vindex result ''observation''\<rparr> else R)"

definition tool_port :: "'w ports \<Rightarrow> val \<Rightarrow> val \<Rightarrow> ('w, failure + val) run" where
  \<comment> \<open>a failure of the tool is a value of this operation\<close>
  "tool_port P binding call s = (let (w, r) = wp_call_tool P binding call (snd s) in ((fst s, w), Inr r))"

definition step_inner :: "'w ports \<Rightarrow> val \<Rightarrow> ('w, val) run" where
  "step_inner P call =
     bnd (open_call P call) (\<lambda>(i, binding, effective_call).
     bnd (record_event P ''tool_call'' effective_call) (\<lambda>_.
     bnd (rt (\<lambda>R. tr_complete (rt_trace R))) (\<lambda>was_complete.
     bnd (set_complete False) (\<lambda>_.
     bnd (tool_port P binding effective_call) (\<lambda>r. case r of
         Inl failure \<Rightarrow> fail_call P effective_call failure
       | Inr result \<Rightarrow>
           (case check_result (wp_contract P) effective_call result of
              Inl e \<Rightarrow> fail_call P effective_call (e, False)
            | Inr _ \<Rightarrow>
                bnd (put (observe_result result)) (\<lambda>_.
                bnd (record_event P ''tool_result'' result) (\<lambda>_.
                bnd (set_complete was_complete) (\<lambda>_.
                bnd (check_active P) (\<lambda>_. ret result))))))))))"

section \<open>The interface of the agent\<close>

definition denial_codes :: "string list" where
  "denial_codes = [''GENERATION_LIMIT'', ''OUTPUT_TOKEN_LIMIT'', ''TOOL_CALL_LIMIT'', ''FINALIZE_RESERVE_REACHED'']"

definition record_budget_denial :: "('w, 'a) run \<Rightarrow> ('w, 'a) run" where
  "record_budget_denial m =
     or_else m (\<lambda>e. bnd (if e \<in> set denial_codes then put (rt_budget_denied_update (\<lambda>_. True)) else ret ()) (\<lambda>_. lift (Inl e)))"

definition runtime_generate :: "'w ports \<Rightarrow> val \<Rightarrow> ('w, val) run" where
  "runtime_generate P messages = record_budget_denial (generate_inner P messages)"

definition runtime_step :: "'w ports \<Rightarrow> val \<Rightarrow> ('w, val) run" where
  "runtime_step P call = record_budget_denial (step_inner P call)"

definition termination_reason :: "'w ports \<Rightarrow> runtime \<times> 'w \<Rightarrow> string" where
  "termination_reason P s =
     (let R = fst s in
      if vindex (rt_observation R) ''terminated'' = VBool True then ''environment_terminal''
      else if vindex (rt_observation R) ''episode_truncated'' = VBool True then ''environment_truncated''
      else if rt_budget_denied R \<or> rt_generation_limited R \<or> isl (remaining_interaction_ms (wp_now P (snd s)) (rt_budget R))
      then ''budget_exhausted'' else ''final_answer'')"

end
