(* ===== verification/Worker.thy ===== *)
theory Worker
  imports Agents Runtime Transition
begin

text \<open>
  The Worker as the peer of an agent (\<open>ProcessAgentHost::run_agent\<close> of \<open>reference-control/src/rpc.rs\<close>):
  the two requests an agent may send, what they promise about tool calls, and that the endless
  loop of the plain agent ends against them.
\<close>

definition reply :: "'a ctl \<Rightarrow> 'a res" where
  \<comment> \<open>the Python peer sees the code of a \<open>ControlError\<close> as an \<open>RpcError\<close>\<close>
  "reply r = (case r of Inl c \<Rightarrow> Inl (RpcError c) | Inr v \<Rightarrow> Inr v)"

definition serve_agent :: "'w ports \<Rightarrow> string \<Rightarrow> val \<Rightarrow> runtime \<times> 'w \<Rightarrow> (runtime \<times> 'w) \<times> val res" where
  "serve_agent P mthd v s =
     (let (s', r) = (if mthd = ''generate'' then runtime_generate P v s
                     else if mthd = ''step'' then runtime_step P v s
                     else (s, Inl ''RPC_METHOD_NOT_ALLOWED''))
      in (s', reply r))"

definition worker_env :: "lib \<Rightarrow> registry \<Rightarrow> 'w ports \<Rightarrow> (runtime \<times> 'w) agent_env" where
  "worker_env L reg P = \<lparr>ae_lib = L, ae_registry = reg, ae_request = serve_agent P\<rparr>"

fun serve_requests :: "'w ports \<Rightarrow> (string \<times> val) list \<Rightarrow> runtime \<times> 'w \<Rightarrow> runtime \<times> 'w" where
  "serve_requests P [] s = s"
| "serve_requests P ((mthd, v) # rs) s = serve_requests P rs (fst (serve_agent P mthd v s))"

section \<open>Relations between the states before and after an operation\<close>

definition moves :: "('s \<Rightarrow> bool) \<Rightarrow> ('s \<Rightarrow> 's \<Rightarrow> bool) \<Rightarrow> ('s, 'a) act \<Rightarrow> bool" where
  \<comment> \<open>from states with the first property the operation goes to related ones, whether it fails or not\<close>
  "moves F L m \<longleftrightarrow> (\<forall>s. F s \<longrightarrow> L s (fst (m s)))"

lemma movesD: "moves F L m \<Longrightarrow> F s \<Longrightarrow> m s = (s', r) \<Longrightarrow> L s s'"
  by (auto simp: moves_def dest: spec [of _ s])

locale move_relation =
  fixes L :: "'s \<Rightarrow> 's \<Rightarrow> bool"
  assumes same: "L s s" and chain: "L s t \<Longrightarrow> L t u \<Longrightarrow> L s u"
begin

lemma moves_ret [intro]: "moves F L (ret x)"
  by (simp add: moves_def ret_def same)

lemma moves_lift [intro]: "moves F L (lift r)"
  by (simp add: moves_def lift_def same)

lemma moves_getting [intro]: "moves F L (getting f)"
  by (simp add: moves_def getting_def same)

lemma moves_bnd:
  assumes "moves F L m" "\<And>s s' x. F s \<Longrightarrow> m s = (s', Inr x) \<Longrightarrow> L s s' \<Longrightarrow> G x s'" "\<And>x. moves (G x) L (f x)"
  shows "moves F L (bnd m f)"
  unfolding moves_def
proof (intro allI impI)
  fix s assume s: "F s"
  obtain t r where m: "m s = (t, r)" by fastforce
  show "L s (fst (bnd m f s))"
  proof (cases r)
    case (Inr x)
    with assms m s have "L s t" "G x t" by (auto dest: movesD)
    moreover from this assms(3) [of x] have "L t (fst (f x t))" by (simp add: moves_def)
    ultimately show ?thesis using m Inr by (auto simp: bnd_def intro: chain)
  qed (use m s assms(1) in \<open>auto simp: bnd_def dest: movesD\<close>)
qed

lemma moves_or_else:
  assumes "moves F L m" "\<And>e. moves (\<lambda>_. True) L (g e)"
  shows "moves F L (or_else m g)"
  unfolding moves_def
proof (intro allI impI)
  fix s assume s: "F s"
  obtain t r where m: "m s = (t, r)" by fastforce
  with assms(1) s have "L s t" by (auto dest: movesD)
  then show "L s (fst (or_else m g s))"
  proof (cases r)
    case (Inl e)
    from assms(2) [of e] have "L t (fst (g e t))" by (simp add: moves_def)
    with \<open>L s t\<close> m Inl show ?thesis by (auto simp: or_else_def intro: chain)
  qed (simp add: or_else_def m)
qed

lemma after_bnd:
  assumes "bnd m f s = (s', Inr x)" "\<And>y. moves (\<lambda>_. True) L (f y)"
  shows "\<exists>t y. m s = (t, Inr y) \<and> L t s'"
proof -
  from assms(1) obtain t y where m: "m s = (t, Inr y)" "f y t = (s', Inr x)"
    by (auto simp: bnd_def split: prod.splits sum.splits)
  from movesD [OF assms(2) _ m(2)] m(1) show ?thesis by auto
qed

lemma moves_bnd_any [intro]: "moves (\<lambda>_. True) L m \<Longrightarrow> (\<And>x. moves (\<lambda>_. True) L (f x)) \<Longrightarrow> moves (\<lambda>_. True) L (bnd m f)"
  by (rule moves_bnd) auto

lemma moves_or_else_any [intro]: "moves (\<lambda>_. True) L m \<Longrightarrow> (\<And>e. moves (\<lambda>_. True) L (g e)) \<Longrightarrow> moves (\<lambda>_. True) L (or_else m g)"
  by (rule moves_or_else)

end

lemma moves_weaken: "moves G L m \<Longrightarrow> (\<And>s. F s \<Longrightarrow> G s) \<Longrightarrow> (\<And>s t. L s t \<Longrightarrow> L' s t) \<Longrightarrow> moves F L' m"
  by (auto simp: moves_def)

lemma moves_case_prod [intro]: "(\<And>a b. moves F L (f a b)) \<Longrightarrow> moves F L (case x of (a, b) \<Rightarrow> f a b)"
  by (cases x) simp

lemma moves_case_sum [intro]: "(\<And>a. moves F L (f a)) \<Longrightarrow> (\<And>b. moves F L (g b)) \<Longrightarrow> moves F L (case x of Inl a \<Rightarrow> f a | Inr b \<Rightarrow> g b)"
  by (cases x) simp_all

lemma moves_if [intro]: "moves F L m \<Longrightarrow> moves F L m' \<Longrightarrow> moves F L (if c then m else m')"
  by simp

section \<open>Triples\<close>

text \<open>A small Hoare logic for operations that fail, which tells the state after a success from the state after
  an error.\<close>

definition triple :: "('s \<Rightarrow> bool) \<Rightarrow> ('s, 'a) act \<Rightarrow> ('a \<Rightarrow> 's \<Rightarrow> bool) \<Rightarrow> ('s \<Rightarrow> bool) \<Rightarrow> bool" where
  \<comment> \<open>after a success the second assertion holds of the result and the state, after an error the third of the state\<close>
  "triple p m q e \<longleftrightarrow> (\<forall>s. p s \<longrightarrow> (case m s of (t, Inl _) \<Rightarrow> e t | (t, Inr x) \<Rightarrow> q x t))"

lemma tripleD: "triple p m q e \<Longrightarrow> p s \<Longrightarrow> (case m s of (t, Inl _) \<Rightarrow> e t | (t, Inr x) \<Rightarrow> q x t)"
  by (simp add: triple_def)

lemma triple_bnd: "triple p m q' e \<Longrightarrow> (\<And>x. triple (q' x) (f x) q e) \<Longrightarrow> triple p (bnd m f) q e"
  unfolding triple_def bnd_def by (fastforce split: prod.splits sum.splits)

lemma triple_or_else: "triple p m q e' \<Longrightarrow> (\<And>c. triple e' (g c) q e) \<Longrightarrow> triple p (or_else m g) q e"
  unfolding triple_def or_else_def by (fastforce split: prod.splits sum.splits)

lemma ret_triple: "triple p (ret x) (\<lambda>_. p) e"
  by (simp add: triple_def ret_def)

lemma triple_case_prod: "(\<And>a b. triple p (f a b) q e) \<Longrightarrow> triple p (case x of (a, b) \<Rightarrow> f a b) q e"
  by (cases x) simp

lemma triple_state: "triple p m (\<lambda>_. q) q \<Longrightarrow> p s \<Longrightarrow> q (fst (m s))"
  using tripleD [of p m "\<lambda>_. q" q s] by (auto split: prod.splits sum.splits)

section \<open>Operations that only write the trajectory\<close>

definition quiet :: "('w \<Rightarrow> 'k) \<Rightarrow> runtime \<times> 'w \<Rightarrow> runtime \<times> 'w \<Rightarrow> bool" where
  "quiet k s t \<longleftrightarrow> (\<exists>tr. fst t = (fst s)\<lparr>rt_trace := tr\<rparr>) \<and> k (snd t) = k (snd s)"

lemma quiet_same: "quiet k s s"
  by (auto simp: quiet_def intro: exI [of _ "rt_trace (fst s)"])

interpretation quieter: move_relation "quiet k" for k
  by unfold_locales (auto simp: quiet_same, auto simp: quiet_def)

definition keeps :: "('w \<Rightarrow> 'k) \<Rightarrow> ('w \<Rightarrow> 'w \<times> 'a) \<Rightarrow> bool" where
  "keeps k f \<longleftrightarrow> (\<forall>w. k (fst (f w)) = k w)"

lemma quiet_basic [intro]:
  "moves F (quiet k) (rt h)" "moves F (quiet k) (reading P q)" "moves F (quiet k) (put (set_trace g))"
  "keeps k f \<Longrightarrow> moves F (quiet k) (port f)"
proof -
  show "moves F (quiet k) (rt h)" "moves F (quiet k) (reading P q)"
    by (simp_all add: moves_def rt_def getting_def reading_def quiet_same)
  show "moves F (quiet k) (put (set_trace g))"
    by (auto simp: moves_def put_def upd_def quiet_def set_trace_def)
  show "moves F (quiet k) (port f)" if "keeps k f"
    using that quiet_same [of k] by (simp add: moves_def port_def Let_def quiet_def keeps_def split: prod.split) (metis fst_conv)
qed

text \<open>The ports a part of the world is kept by: every port other than the tools themselves.\<close>

locale kept_ports =
  fixes P :: "'w ports" and k :: "'w \<Rightarrow> 'k"
  assumes reserve_keeps: "keeps k (wp_reserve P n)" and append_keeps: "keeps k (wp_append P e)"
    and usage_keeps: "keeps k (wp_usage P u)" and model_keeps: "keeps k (wp_model P c)"
    and check_keeps: "keeps k (wp_check_call P b c)"
begin

lemmas basic [intro] = quiet_basic quieter.moves_ret quieter.moves_lift quieter.moves_getting quieter.moves_bnd_any
  quieter.moves_or_else_any reserve_keeps append_keeps usage_keeps model_keeps check_keeps

lemma set_complete_quiet: "moves F (quiet k) (set_complete c)"
  unfolding set_complete_def by (rule quiet_basic)

lemma record_quiet: "moves (\<lambda>_. True) (quiet k) (record_event P kind payload)"
  unfolding record_event_def try_record_def by (intro basic set_complete_quiet)

lemma persist_quiet: "moves (\<lambda>_. True) (quiet k) (persist_usage P u)"
  unfolding persist_usage_def by (intro basic)

lemma active_quiet: "moves (\<lambda>_. True) (quiet k) (check_active P)"
  unfolding check_active_def by (intro basic)

lemma open_quiet: "moves (\<lambda>_. True) (quiet k) (check_interaction_open P)"
  unfolding check_interaction_open_def by (intro basic active_quiet)

lemma fail_quiet: "moves (\<lambda>_. True) (quiet k) (fail_call P call failure)"
  unfolding fail_call_def by (intro basic record_quiet)

lemmas quiet_steps = set_complete_quiet record_quiet persist_quiet active_quiet open_quiet fail_quiet

end

interpretation any_ports: kept_ports P "\<lambda>_. ()" for P
  by unfold_locales (simp_all add: keeps_def)

section \<open>The generations left\<close>

definition generations_left :: "runtime \<times> 'w \<Rightarrow> nat" where
  "generations_left s = unat (max_generations (rt_budget (fst s))) - unat (generation_count (used (rt_budget (fst s))))"

definition no_more :: "runtime \<times> 'w \<Rightarrow> runtime \<times> 'w \<Rightarrow> bool" where
  "no_more s t \<longleftrightarrow> generations_left t \<le> generations_left s"

interpretation counting: move_relation no_more
  by unfold_locales (auto simp: no_more_def)

lemma keep_budget:
  "(\<And>R. rt_budget (f R) = rt_budget R) \<Longrightarrow> moves F no_more (put f)"
  "moves F no_more (port g)" "moves F no_more (rt h)" "moves F no_more (tool_port P b c)" "moves F no_more (reading P q)"
  by (auto simp: moves_def put_def upd_def port_def rt_def getting_def tool_port_def reading_def no_more_def generations_left_def
      Let_def split: prod.splits)

lemma begin_model_less: "begin_model now b = (b', r) \<Longrightarrow>
    unat (max_generations b') - unat (generation_count (used b')) \<le> unat (max_generations b) - unat (generation_count (used b)) \<and>
    (\<not> isl r \<longrightarrow> unat (max_generations b') - unat (generation_count (used b')) < unat (max_generations b) - unat (generation_count (used b)))"
  by (erule begin_model_cases) (auto simp: unat_Suc_below word_less_nat_alt)

lemma count_budget:
  "moves F no_more (budgeted P begin_model)"
  "moves F no_more (budgeted P begin_tool)"
  "moves F no_more (budgeted P (\<lambda>_. finish_model n))"
  by (auto simp: moves_def budgeted_def no_more_def generations_left_def Let_def split: prod.splits
      dest: begin_model_less elim!: begin_tool_cases finish_model_cases)
lemmas counts [intro] = keep_budget count_budget counting.moves_ret counting.moves_lift counting.moves_getting
  counting.moves_bnd_any counting.moves_or_else_any

lemma quiet_count: "moves F (quiet k) m \<Longrightarrow> moves F no_more m"
  by (erule moves_weaken) (auto simp: quiet_def no_more_def generations_left_def)

lemmas count_steps = any_ports.quiet_steps [THEN quiet_count]

lemma count_close: "moves (\<lambda>_. True) no_more (close_generation P c limit n event)"
  unfolding close_generation_def
  by (intro counts count_steps) (simp_all add: add_calls_def fix_version_def)

lemma count_step: "moves (\<lambda>_. True) no_more (runtime_step P call)"
  unfolding runtime_step_def record_budget_denial_def step_inner_def open_call_def
  by (intro counts count_steps moves_case_prod moves_case_sum moves_if) (simp_all add: observe_result_def)

lemma count_generate: "moves (\<lambda>_. True) no_more (generate_inner P messages)"
  unfolding generate_inner_def open_generation_def
  by (intro counts count_steps count_close moves_case_prod) simp_all

lemma count_opened:
  assumes "open_generation P messages s = (s', Inr x)"
  shows "generations_left s' < generations_left s"
proof -
  from assms obtain t u n v where o: "check_interaction_open P s = (t, Inr ())"
    and b: "budgeted P begin_model t = (u, Inr n)" and v: "generations_left s' = generations_left u"
    by (auto simp: open_generation_def bnd_Inr_iff rt_def getting_def lift_def reading_def put_def upd_def ret_def
        generations_left_def split: prod.splits)
  from movesD [OF count_steps(5) _ o] have "generations_left t \<le> generations_left s" by (simp add: no_more_def)
  moreover from b have "generations_left u < generations_left t"
    by (auto simp: budgeted_def generations_left_def Let_def split: prod.splits dest: begin_model_less)
  ultimately show ?thesis using v by simp
qed

lemma count_generated:
  assumes "runtime_generate P messages s = (s', Inr x)"
  shows "generations_left s' < generations_left s"
proof -
  from assms have "generate_inner P messages s = (s', Inr x)"
    by (auto simp: runtime_generate_def record_budget_denial_def or_else_def bnd_def lift_def put_def upd_def ret_def
        split: prod.splits sum.splits if_splits)
  then have "\<exists>t y. open_generation P messages s = (t, Inr y) \<and> no_more t s'"
    unfolding generate_inner_def
    by (rule counting.after_bnd) (intro counts count_steps count_close moves_case_prod, simp_all)
  then obtain t y where t: "open_generation P messages s = (t, Inr y)" and r: "no_more t s'" by blast
  from count_opened [OF t] r show ?thesis by (simp add: no_more_def)
qed


interpretation worker_budget: generation_budget "worker_env L reg P" generations_left for L reg P
proof
  show "generations_left s' < generations_left s" if "ae_request (worker_env L reg P) ''generate'' v s = (s', Inr g)"
    for v s s' g
    using that by (auto simp: worker_env_def serve_agent_def reply_def Let_def
        split: prod.splits sum.splits intro: count_generated)
  show "generations_left s' \<le> generations_left s" if "ae_request (worker_env L reg P) ''step'' v s = (s', r)"
    for v s s' r
    using that movesD [OF count_step [of P v], of s]
    by (auto simp: worker_env_def serve_agent_def Let_def no_more_def split: prod.splits)
qed

text \<open>C17: Against a Worker that enforces its budget, every run of the plain agent's endless loop returns
  within one round more than the generations allowed.\<close>
theorem plain_agent_returns:
  "\<exists>c' s' r. plain_run (Suc (unat (max_generations (rt_budget R)))) (worker_env L reg P) agent c (R, w) = Some (c', s', r)"
proof -
  have "generations_left (R, w) < Suc (unat (max_generations (rt_budget R)))" by (simp add: generations_left_def)
  from worker_budget.loop_returns [OF this] show ?thesis
    by (simp add: plain_run_def Let_def del: plain_loop.simps)
qed

end
