(* ===== verification/Eval_Json.thy ===== *)
theory Eval_Json
  imports Canonical_Json Schema_Registry
begin

text \<open>
  Code equations for the printer of JSON values, so that witnesses which print a document evaluate
  in reasonable time: by bits of a character and by digits of an integer, not by unary numbers.
\<close>

lemma esc_char_code [code]:
  "esc_char (Char b0 b1 b2 b3 b4 b5 b6 b7) =
     (let c = Char b0 b1 b2 b3 b4 b5 b6 b7 in
      if b5 \<or> b6 \<or> b7 then (if c = CHR 0x22 \<or> c = CHR 0x5C then [CHR 0x5C, c] else [c])
      else if c = CHR 0x08 then [CHR 0x5C, CHR ''b''] else if c = CHR 0x0C then [CHR 0x5C, CHR ''f'']
      else if c = CHR 0x0A then [CHR 0x5C, CHR ''n''] else if c = CHR 0x0D then [CHR 0x5C, CHR ''r'']
      else if c = CHR 0x09 then [CHR 0x5C, CHR ''t'']
      else [CHR 0x5C, CHR ''u'', CHR ''0'', CHR ''0'', hex_digit (code c div 16), hex_digit (code c mod 16)])"
  by (cases b0; cases b1; cases b2; cases b3; cases b4; cases b5; cases b6; cases b7) (simp_all add: esc_char_def Let_def)

lemma sorted_val_code [code]: "sorted_val v = (case v of VList xs \<Rightarrow> VList (map sorted_val xs)
   | VDict d \<Rightarrow> VDict (map (\<lambda>p. (fst p, sorted_val (snd p))) (sort_key fst d)) | _ \<Rightarrow> v)"
  by (cases v) simp_all

function show_pos :: "int \<Rightarrow> string" where
  "show_pos i = (if i < 10 then [''0123456789'' ! nat i] else show_pos (i div 10) @ [''0123456789'' ! nat (i mod 10)])"
  by pat_completeness auto
termination
  by (relation "measure nat") auto

declare show_pos.simps [simp del]

lemma digit_at: "n < 10 \<Longrightarrow> ''0123456789'' ! n = char_of (48 + n)"
proof -
  have "\<forall>n \<in> set [0..<10]. ''0123456789'' ! n = char_of (48 + n)" by code_simp
  then show "n < 10 \<Longrightarrow> ?thesis" by simp
qed

lemma show_pos: "0 \<le> i \<Longrightarrow> show_pos i = show_nat (nat i)"
proof (induction i rule: show_pos.induct)
  case (1 i)
  show ?case
  proof (cases "i < 10")
    case True
    with 1 digit_at [of "nat i"] show ?thesis
      by (subst show_pos.simps, subst show_nat.simps) (simp add: nat_less_iff)
  next
    case False
    have "nat (i mod 10) < 10" by (simp add: nat_less_iff)
    moreover have "nat (i div 10) = nat i div 10" "nat (i mod 10) = nat i mod 10"
      using 1 by (simp_all add: nat_div_distrib nat_mod_distrib)
    ultimately show ?thesis using 1 False digit_at [of "nat i mod 10"]
      by (subst show_pos.simps, subst show_nat.simps) (simp add: nat_less_iff)
  qed
qed

lemma show_int_code [code]: "show_int i = (if i < 0 then CHR ''-'' # show_pos (- i) else show_pos i)"
  by (simp add: show_int_def show_pos)

lemma validate_code [code]:
  "validate L reg name v =
     rbind (dumps L canonical_opts v) (\<lambda>_.
     rbind (bound_schema reg) (\<lambda>bound.
     rbind (item bound ''$id'') (\<lambda>i. rbind (as_str i) (\<lambda>cid.
     rbind (validation_target reg bound name) (\<lambda>target.
     rbind (guard (conforms L ((cid, bound) # extensions reg) target v) (ValidationError name)) (\<lambda>_.
       if name = ''ScoreResult'' then unique_metrics v else Inr ()))))))"
  by (simp add: validate_def canonical_bytes_def rbind_assoc)

end
