(* ===== verification/Worker_Correct.thy ===== *)
theory Worker_Correct
  imports Worker Eval_Json
begin

text \<open>
  What the Worker promises about tool calls: its requests refine a ledger in which a call is
  proposed by a generation, started at most once and executed as proposed; and what an agent
  observes of the results.
\<close>

section \<open>The ledger\<close>

record ledger =
  lg_proposed :: "string \<Rightarrow> val option"
  lg_started :: "string set"
  lg_executed :: "(val \<times> val) list"      \<comment> \<open>binding and call, in the order of execution\<close>

definition call_id :: "val \<Rightarrow> val option" where
  "call_id c = vget c ''tool_call_id''"

definition as_proposed :: "val list \<Rightarrow> val \<Rightarrow> string \<Rightarrow> val \<times> val \<Rightarrow> bool" where
  \<comment> \<open>the call repeats the proposal, and goes to the selected tool of its name and implementation\<close>
  "as_proposed bindings g i bc \<longleftrightarrow>
     call_id (snd bc) = Some (VStr i) \<and> list_all (same_field (snd bc) g) call_fields \<and>
     fst bc \<in> set bindings \<and> vget (fst bc) ''name'' = vget (snd bc) ''name'' \<and> same_field (snd bc) (fst bc) ''implementation''"

definition executed_ids :: "ledger \<Rightarrow> val option list" where
  "executed_ids l = map (\<lambda>bc. call_id (snd bc)) (lg_executed l)"

inductive ledger_step :: "val list \<Rightarrow> ledger \<Rightarrow> ledger \<Rightarrow> bool" for bindings where
  propose: "dom new \<inter> dom (lg_proposed l) = {} \<Longrightarrow>
    ledger_step bindings l (l\<lparr>lg_proposed := lg_proposed l ++ new\<rparr>)"
| start: "lg_proposed l i = Some g \<Longrightarrow> i \<notin> lg_started l \<Longrightarrow>
    ledger_step bindings l (l\<lparr>lg_started := insert i (lg_started l)\<rparr>)"
| run: "i \<in> lg_started l \<Longrightarrow> Some (VStr i) \<notin> set (executed_ids l) \<Longrightarrow> lg_proposed l i = Some g \<Longrightarrow>
    as_proposed bindings g i bc \<Longrightarrow> ledger_step bindings l (l\<lparr>lg_executed := lg_executed l @ [bc]\<rparr>)"

definition empty_ledger :: "ledger \<Rightarrow> bool" where
  "empty_ledger l \<longleftrightarrow> lg_started l = {} \<and> lg_executed l = []"

definition ledger_ok :: "val list \<Rightarrow> ledger \<Rightarrow> bool" where
  "ledger_ok bindings l \<longleftrightarrow> distinct (executed_ids l) \<and>
     (\<forall>bc \<in> set (lg_executed l). \<exists>i g. i \<in> lg_started l \<and> lg_proposed l i = Some g \<and> as_proposed bindings g i bc)"

lemma ledger_ok_start: "empty_ledger l \<Longrightarrow> ledger_ok bindings l"
  by (simp add: empty_ledger_def ledger_ok_def executed_ids_def)

lemma ledger_ok_step: "ledger_step bindings l l' \<Longrightarrow> ledger_ok bindings l \<Longrightarrow> ledger_ok bindings l'"
proof (induction rule: ledger_step.induct)
  case (propose new l)
  have "(lg_proposed l ++ new) i = Some g" if "lg_proposed l i = Some g" for i g
    using that propose.hyps by (auto simp: map_add_def split: option.split)
  with propose.prems show ?case by (fastforce simp: ledger_ok_def executed_ids_def)
next
  case (run i l g bc)
  then have "call_id (snd bc) \<notin> set (executed_ids l)" by (simp add: as_proposed_def)
  with run show ?case by (auto simp: ledger_ok_def executed_ids_def)
qed (fastforce simp: ledger_ok_def executed_ids_def)

interpretation call_ledger: step_invariant empty_ledger "ledger_step bindings" "ledger_ok bindings" for bindings
  by unfold_locales (auto intro: ledger_ok_start ledger_ok_step)

section \<open>The Worker with its tool calls written down\<close>

definition with_log :: "('w \<Rightarrow> 'w \<times> 'a) \<Rightarrow> 'w \<times> 'l \<Rightarrow> ('w \<times> 'l) \<times> 'a" where
  "with_log f s = (let (w, r) = f (fst s) in ((w, snd s), r))"

definition logged :: "'w ports \<Rightarrow> ('w \<times> (val \<times> val) list) ports" where
  \<comment> \<open>the world keeps the bindings and calls the tool host was given\<close>
  "logged P = \<lparr>wp_lib = wp_lib P, wp_contract = wp_contract P, wp_now = (\<lambda>s. wp_now P (fst s)), wp_unix = (\<lambda>s. wp_unix P (fst s)),
     wp_cancelled = (\<lambda>s. wp_cancelled P (fst s)), wp_reserve = (\<lambda>n. with_log (wp_reserve P n)),
     wp_append = (\<lambda>e. with_log (wp_append P e)), wp_usage = (\<lambda>u. with_log (wp_usage P u)),
     wp_model = (\<lambda>c. with_log (wp_model P c)), wp_check_call = (\<lambda>b c. with_log (wp_check_call P b c)),
     wp_call_tool = (\<lambda>b c s. let (w, r) = wp_call_tool P b c (fst s) in ((w, snd s @ [(b, c)]), r))\<rparr>"

interpretation logged_ports: kept_ports "logged P" snd for P
  by unfold_locales (simp_all add: keeps_def logged_def with_log_def split: prod.split)

definition ledger_of :: "runtime \<times> ('w \<times> (val \<times> val) list) \<Rightarrow> ledger" where
  "ledger_of s = \<lparr>lg_proposed = map_of (rt_generated (fst s)), lg_started = set (rt_call_ids (fst s)), lg_executed = snd (snd s)\<rparr>"

definition framed :: "runtime \<times> ('w \<times> (val \<times> val) list) \<Rightarrow> runtime \<times> ('w \<times> (val \<times> val) list) \<Rightarrow> bool" where
  "framed s t \<longleftrightarrow> ledger_of t = ledger_of s \<and> rt_tools (fst t) = rt_tools (fst s)"

interpretation framing: move_relation framed
  by unfold_locales (auto simp: framed_def)

definition refines :: "runtime \<times> ('w \<times> (val \<times> val) list) \<Rightarrow> runtime \<times> ('w \<times> (val \<times> val) list) \<Rightarrow> bool" where
  "refines s t \<longleftrightarrow> rt_tools (fst t) = rt_tools (fst s) \<and> (ledger_step (rt_tools (fst s)))\<^sup>*\<^sup>* (ledger_of s) (ledger_of t)"

interpretation refining: move_relation refines
  by unfold_locales (auto simp: refines_def)

definition held :: "(ledger \<Rightarrow> val list \<Rightarrow> bool) \<Rightarrow> runtime \<times> ('w \<times> (val \<times> val) list) \<Rightarrow> bool" where
  "held \<Phi> s \<longleftrightarrow> \<Phi> (ledger_of s) (rt_tools (fst s))"

lemma framed_refines: "moves F framed m \<Longrightarrow> moves F refines m"
  by (erule moves_weaken) (auto simp: framed_def refines_def)

lemma quiet_framed: "moves F (quiet snd) m \<Longrightarrow> moves F framed m"
  by (erule moves_weaken) (auto simp: quiet_def framed_def ledger_of_def)

lemma framed_bnd:
  assumes "moves (\<lambda>_. True) framed m" "\<And>x. moves (held \<Phi>) refines (f x)"
  shows "moves (held \<Phi>) refines (bnd m f)"
proof (rule refining.moves_bnd)
  show "moves (held \<Phi>) refines m" using assms(1) by (rule moves_weaken) (auto simp: framed_def refines_def)
  show "held \<Phi> s'" if "held \<Phi> s" "m s = (s', Inr x)" for s s' x
    using that movesD [OF assms(1) _ that(2)] by (simp add: held_def framed_def)
  show "moves (held \<Phi>) refines (f x)" for x by (rule assms(2))
qed

lemma check_bnd:
  assumes "\<And>x. moves (\<lambda>s. F s \<and> chk (fst s) = Inr x) refines (f x)"
  shows "moves F refines (bnd (rt chk) (\<lambda>r. bnd (lift r) f))"
  unfolding moves_def
proof (intro allI impI)
  fix s assume "F s"
  with assms show "refines s (fst (bnd (rt chk) (\<lambda>r. bnd (lift r) f) s))"
  proof (cases "chk (fst s)")
    case (Inr x)
    with assms [of x] \<open>F s\<close> have "refines s (fst (f x s))" unfolding moves_def by blast
    with Inr show ?thesis by (simp add: bnd_def rt_def getting_def lift_def)
  qed (simp add: bnd_def rt_def getting_def lift_def refining.same)
qed

lemma check_bnd3:
  assumes "\<And>i g b. moves (\<lambda>s. F s \<and> chk (fst s) = Inr (i, g, b)) refines (f i g b)"
  shows "moves F refines (bnd (rt chk) (\<lambda>r. bnd (lift r) (\<lambda>(i, g, b). f i g b)))"
proof (rule check_bnd)
  show "moves (\<lambda>s. F s \<and> chk (fst s) = Inr x) refines (case x of (i, g, b) \<Rightarrow> f i g b)" for x
    using assms by (cases x) simp
qed

lemma refines_step:
  "rt_tools (fst t) = rt_tools (fst s) \<Longrightarrow> ledger_step (rt_tools (fst s)) (ledger_of s) (ledger_of t) \<Longrightarrow> refines s t"
  by (auto simp: refines_def)

declare ctl_simps [simp]

lemma held_if: "moves (held \<Phi>) L m \<Longrightarrow> (\<And>s. F s \<Longrightarrow> held \<Phi> s) \<Longrightarrow> moves F L m"
  by (auto simp: moves_def)

lemma bnd_assoc: "bnd (bnd m f) g = bnd m (\<lambda>x. bnd (f x) g)"
  by (auto simp: bnd_def fun_eq_iff split: prod.split sum.split)

lemma bnd_ret: "bnd (ret x) f = f x"
  by (simp add: bnd_def ret_def fun_eq_iff)

lemma bnd_prod: "bnd (case x of (a, b) \<Rightarrow> f a b) g = (case x of (a, b) \<Rightarrow> bnd (f a b) g)"
  by (cases x) simp

lemmas frames = logged_ports.quiet_steps [THEN quiet_framed]

lemma frame_basic:
  "(\<And>R. map_of (rt_generated (f R)) = map_of (rt_generated R)) \<Longrightarrow> (\<And>R. set (rt_call_ids (f R)) = set (rt_call_ids R)) \<Longrightarrow>
     (\<And>R. rt_tools (f R) = rt_tools R) \<Longrightarrow> moves F framed (put f)"
  "moves F framed (rt h)" "moves F framed (lift r)" "moves F framed (ret x)" "moves F framed (reading Q q)"
  "moves F framed (budgeted Q b)" "moves F framed (port (wp_model (logged P) c))" "moves F framed (port (wp_check_call (logged P) d c))"
  by (auto simp: moves_def put_def upd_def rt_def getting_def lift_def ret_def reading_def budgeted_def port_def framed_def
      ledger_of_def Let_def logged_def with_log_def split: prod.split)


section \<open>Requests refine the ledger\<close>

definition ready :: "string \<Rightarrow> val \<Rightarrow> val \<Rightarrow> val \<Rightarrow> ledger \<Rightarrow> val list \<Rightarrow> bool" where
  \<comment> \<open>a call that passed all checks, not yet started\<close>
  "ready i g b call l bindings \<longleftrightarrow> Some (VStr i) \<notin> set (executed_ids l) \<and> i \<notin> lg_started l \<and> lg_proposed l i = Some g \<and>
     as_proposed bindings g i (b, call)"

definition started :: "string \<Rightarrow> val \<Rightarrow> val \<Rightarrow> val \<Rightarrow> ledger \<Rightarrow> val list \<Rightarrow> bool" where
  "started i g b call l bindings \<longleftrightarrow> Some (VStr i) \<notin> set (executed_ids l) \<and> i \<in> lg_started l \<and> lg_proposed l i = Some g \<and>
     as_proposed bindings g i (b, call)"

lemma moves_started:
  fixes f :: "unit \<Rightarrow> (runtime \<times> 'w \<times> (val \<times> val) list, 'b) act"
  assumes "\<And>x. moves (held (started i g b call)) refines (f x)"
  shows "moves (held (ready i g b call)) refines (bnd (put (rt_call_ids_update (\<lambda>ids. i # ids))) f)"
proof (rule refining.moves_bnd)
  let ?m = "put (rt_call_ids_update (\<lambda>ids. i # ids)) :: ('w \<times> (val \<times> val) list, unit) run"
  have l: "ledger_of (fst (?m s)) = (ledger_of s)\<lparr>lg_started := insert i (lg_started (ledger_of s))\<rparr>"
    "rt_tools (fst (fst (?m s))) = rt_tools (fst s)" for s
    by (simp_all add: put_def upd_def ledger_of_def)
  show "moves (held (ready i g b call)) refines ?m"
    unfolding moves_def
  proof (intro allI impI refines_step)
    fix s :: "runtime \<times> 'w \<times> (val \<times> val) list" assume "held (ready i g b call) s"
    then show "ledger_step (rt_tools (fst s)) (ledger_of s) (ledger_of (fst (?m s)))"
      unfolding l by (auto simp: held_def ready_def intro: ledger_step.start)
  qed (use l in simp)
  show "held (started i g b call) s'" if "held (ready i g b call) s" "?m s = (s', Inr x)" for s s' x
    using that l [of s] by (simp add: held_def ready_def started_def executed_ids_def)
  show "moves (held (started i g b call)) refines (f x)" for x by (rule assms)
qed

lemma same_field_timeout: "vget (with_timeout call ms) field = (if field = ''timeout_ms'' \<and> (\<exists>d. call = VDict d) then Some (of_u64 ms) else vget call field)"
  by (cases call) (auto simp: with_timeout_def vget_def update_conv)

lemma as_proposed_timeout [simp]: "as_proposed bindings g i (b, with_timeout call ms) = as_proposed bindings g i (b, call)"
  by (simp add: as_proposed_def call_id_def call_fields_def same_field_def same_field_timeout)

lemma started_timeout [simp]: "started i g b (with_timeout call ms) = started i g b call"
  by (simp add: started_def fun_eq_iff)

lemma tool_refines:
  fixes P :: "'w ports" and f :: "failure + val \<Rightarrow> (runtime \<times> 'w \<times> (val \<times> val) list, 'b) act"
  assumes "\<And>x. moves (\<lambda>_. True) framed (f x)"
  shows "moves (held (started i g b call)) refines (bnd (tool_port (logged P) b call) f)"
proof (rule refining.moves_bnd [where G = "\<lambda>_ _. True"])
  let ?m = "tool_port (logged P) b call"
  have l: "ledger_of (fst (?m s)) = (ledger_of s)\<lparr>lg_executed := lg_executed (ledger_of s) @ [(b, call)]\<rparr>"
    "rt_tools (fst (fst (?m s))) = rt_tools (fst s)" for s
    by (simp_all add: tool_port_def logged_def Let_def ledger_of_def split: prod.split)
  show "moves (held (started i g b call)) refines ?m"
    unfolding moves_def
  proof (intro allI impI refines_step)
    fix s :: "runtime \<times> 'w \<times> (val \<times> val) list" assume "held (started i g b call) s"
    then show "ledger_step (rt_tools (fst s)) (ledger_of s) (ledger_of (fst (?m s)))"
      unfolding l by (auto simp: held_def started_def intro: ledger_step.run)
  qed (use l in simp)
  show "moves (\<lambda>_. True) refines (f x)" for x by (rule framed_refines [OF assms])
qed simp

lemma string_field_Inr [simp]: "string_field v field = Inr s \<longleftrightarrow> vget v field = Some (VStr s)"
proof -
  have "str_opt v = Some s \<longleftrightarrow> v = VStr s" for v by (cases v) (simp_all add: str_opt_def)
  then show ?thesis by (auto simp: string_field_def bind_eq_Some_conv)
qed

lemmas frame_steps = frames [THEN framed_bnd] frame_basic(2-8) [THEN framed_bnd]

lemma tool_timeout_refines:
  assumes "\<And>x. moves (\<lambda>_. True) framed (f x)"
  shows "moves (held (started i g b call)) refines (bnd (tool_port (logged P) b (with_timeout call ms)) f)"
  using tool_refines [of f i g b "with_timeout call ms" P] assms by simp

definition sound :: "ledger \<Rightarrow> val list \<Rightarrow> bool" where
  "sound l bindings \<longleftrightarrow> set (executed_ids l) \<subseteq> (\<lambda>i. Some (VStr i)) ` lg_started l"

lemma ledger_ok_sound: "ledger_ok bindings l \<Longrightarrow> sound l bindings'"
  by (fastforce simp: ledger_ok_def sound_def executed_ids_def as_proposed_def)

lemma check_call_ready:
  assumes "held sound s \<and> check_call contract (fst s) call = Inr (i, g, b)"
  shows "held (ready i g b call) s"
  using assms by (auto simp: check_call_def held_def ready_def sound_def ledger_of_def as_proposed_def call_id_def find_Some_iff)

lemma ended_framed:
  "moves (\<lambda>_. True) framed (fail_call (logged P) c e)"
  "moves (\<lambda>_. True) framed (bnd (put (observe_result result)) (\<lambda>_. bnd (record_event (logged P) kind result) (\<lambda>_.
     bnd (set_complete cc) (\<lambda>_. bnd (check_active (logged P)) (\<lambda>_. ret result)))))"
  by (rule frames, intro framing.moves_bnd_any frames frame_basic) (simp_all add: observe_result_def)

lemma step_refines: "moves (held sound) refines (step_inner (logged P) call)"
  unfolding step_inner_def open_call_def bnd_assoc bnd_prod bnd_ret prod.case
  by (rule framed_bnd [OF frames(5)], rule check_bnd3, rule held_if [rotated], erule check_call_ready)
    (intro frame_steps moves_started tool_timeout_refines moves_case_sum ended_framed)

section \<open>A generation proposes\<close>

definition fresh_calls :: "val \<Rightarrow> ledger \<Rightarrow> val list \<Rightarrow> bool" where
  "fresh_calls event l bindings \<longleftrightarrow>
     (\<forall>call \<in> set (event_calls event). \<exists>i. string_field call ''tool_call_id'' = Inr i \<and> lg_proposed l i = None)"

lemma check_proposed_fresh:
  "check_proposed contract R event seen calls = Inr () \<Longrightarrow> call \<in> set calls \<Longrightarrow>
   \<exists>i. string_field call ''tool_call_id'' = Inr i \<and> map_of (rt_generated R) i = None"
  by (induction calls arbitrary: seen) auto

lemma check_event_fresh:
  "held sound s \<and> check_event contract (fst s) i ms event = Inr n \<Longrightarrow> held (fresh_calls event) s"
  unfolding check_event_def validate_generation_trace_def event_calls_def held_def fresh_calls_def ledger_of_def
  by (auto dest: check_proposed_fresh)

lemma add_calls_map:
  assumes "\<forall>call \<in> set calls. \<exists>i. string_field call ''tool_call_id'' = Inr i \<and> map_of g i = None" "map_of g \<subseteq>\<^sub>m map_of g'"
  shows "map_of g \<subseteq>\<^sub>m map_of (fold (\<lambda>call g. case string_field call ''tool_call_id'' of Inr i \<Rightarrow> AList.update i call g | Inl _ \<Rightarrow> g) calls g')"
  using assms
proof (induction calls arbitrary: g')
  case (Cons call calls)
  then obtain i where i: "string_field call ''tool_call_id'' = Inr i" "map_of g i = None" by auto
  with Cons.prems(2) have u: "map_of g \<subseteq>\<^sub>m map_of (AList.update i call g')"
    by (auto simp: map_le_def update_conv')
  have "\<forall>call \<in> set calls. \<exists>i. string_field call ''tool_call_id'' = Inr i \<and> map_of g i = None"
    using Cons.prems(1) by simp
  from Cons.IH [OF this u] i(1) show ?case by (simp del: string_field_Inr)
qed simp

lemma moves_propose:
  fixes f :: "unit \<Rightarrow> (runtime \<times> 'w \<times> (val \<times> val) list, 'b) act"
  assumes "\<And>x. moves (\<lambda>_. True) framed (f x)"
  shows "moves (held (fresh_calls event)) refines (bnd (put (add_calls (event_calls event))) f)"
proof (rule refining.moves_bnd [where G = "\<lambda>_ _. True"])
  let ?m = "put (add_calls (event_calls event)) :: ('w \<times> (val \<times> val) list, unit) run"
  show "moves (held (fresh_calls event)) refines ?m"
    unfolding moves_def
  proof (intro allI impI refines_step)
    fix s :: "runtime \<times> 'w \<times> (val \<times> val) list" assume s: "held (fresh_calls event) s"
    let ?g = "map_of (rt_generated (fst s))" and ?g' = "map_of (rt_generated (add_calls (event_calls event) (fst s)))"
    let ?new = "?g' |` (- dom ?g)"
    have "?g \<subseteq>\<^sub>m ?g'"
      using add_calls_map [of "event_calls event" "rt_generated (fst s)" "rt_generated (fst s)"] s
      by (auto simp: held_def fresh_calls_def ledger_of_def add_calls_def)
    then have "?g' = ?g ++ ?new"
      by (auto simp: fun_eq_iff map_add_def restrict_map_def map_le_def dom_def split: option.split)
    then have l: "ledger_of (fst (?m s)) = (ledger_of s)\<lparr>lg_proposed := lg_proposed (ledger_of s) ++ ?new\<rparr>"
      by (simp add: put_def upd_def ledger_of_def add_calls_def)
    show "ledger_step (rt_tools (fst s)) (ledger_of s) (ledger_of (fst (?m s)))"
      unfolding l by (rule ledger_step.propose) (auto simp: ledger_of_def)
  qed (simp add: put_def upd_def add_calls_def)
  show "moves (\<lambda>_. True) refines (f x)" for x by (rule framed_refines [OF assms])
qed simp

lemma close_refines: "moves (held (fresh_calls event)) refines (close_generation (logged P) c limit n event)"
  unfolding close_generation_def
  by (intro frame_steps moves_propose framing.moves_bnd_any frames frame_basic) (simp_all add: fix_version_def)

lemma put_ids_framed: "moves F framed (put (rt_generation_ids_update f))" "moves F framed (put (rt_next_generation_update g))"
    "moves F framed (put (rt_budget_denied_update h))"
  by (rule frame_basic; simp)+

lemma generate_refines: "moves (held sound) refines (generate_inner (logged P) messages)"
  unfolding generate_inner_def open_generation_def bnd_assoc bnd_prod bnd_ret prod.case
  apply (intro check_bnd frame_steps put_ids_framed [THEN framed_bnd] moves_case_prod)
  apply (rule held_if [rotated], erule check_event_fresh)
  apply (intro put_ids_framed [THEN framed_bnd] close_refines)
  done


lemma denial_framed: "moves F refines m \<Longrightarrow> moves F refines (record_budget_denial m)"
  unfolding record_budget_denial_def
  by (rule refining.moves_or_else) (auto intro!: framed_refines framing.moves_bnd_any frame_basic put_ids_framed)

lemma serve_refines:
  assumes "sound (ledger_of s) (rt_tools (fst s))"
  shows "refines s (fst (serve_agent (logged P) mthd v s))"
proof -
  have "moves (held sound) refines (runtime_generate (logged P) v)" "moves (held sound) refines (runtime_step (logged P) v)"
    unfolding runtime_generate_def runtime_step_def by (rule denial_framed generate_refines step_refines)+
  with assms have "refines s (fst (runtime_generate (logged P) v s))" "refines s (fst (runtime_step (logged P) v s))"
    unfolding moves_def held_def by blast+
  then show ?thesis by (auto simp: serve_agent_def Let_def refining.same split: prod.splits)
qed

text \<open>C18: Every request the Worker serves is a run of an abstract ledger of tool calls: generations
  propose calls under new identifiers, a call is started once and only when proposed, and executed
  once and only as proposed, on a selected tool.\<close>
theorem worker_refines_ledger:
  assumes "ledger_ok (rt_tools (fst s)) (ledger_of s)" "serve_agent (logged P) mthd v s = (t, r)"
  shows "rt_tools (fst t) = rt_tools (fst s) \<and> (ledger_step (rt_tools (fst s)))\<^sup>*\<^sup>* (ledger_of s) (ledger_of t)"
  using serve_refines [OF ledger_ok_sound [OF assms(1)], of P mthd v] assms(2) by (simp add: refines_def)

lemma requests_ledger:
  assumes "reachable empty_ledger (ledger_step bindings) (ledger_of s)" "rt_tools (fst s) = bindings"
  shows "reachable empty_ledger (ledger_step bindings) (ledger_of (serve_requests (logged P) rs s))"
  using assms
proof (induction rs arbitrary: s)
  case (Cons q rs)
  obtain mthd v where q: "q = (mthd, v)" by fastforce
  let ?t = "fst (serve_agent (logged P) mthd v s)"
  from serve_refines [OF ledger_ok_sound [OF call_ledger.reachable_inv [OF Cons.prems(1)]], of P mthd v]
  have "(ledger_step bindings)\<^sup>*\<^sup>* (ledger_of s) (ledger_of ?t)" "rt_tools (fst ?t) = bindings"
    using Cons.prems(2) by (simp_all add: refines_def)
  with Cons.IH [of ?t] Cons.prems(1) show ?case by (simp add: q reachable_run)
qed simp

text \<open>C19: In a run of any requests, no tool call reaches the tool host twice, and each one has the
  generation, name, implementation and arguments that a generation proposed and goes to the
  selected tool of that name and implementation.\<close>
theorem tools_run_as_proposed:
  assumes "new_runtime (wp_contract P) plan b tr obs = Inr R" "serve_requests (logged P) rs (R, (w, [])) = (R', (w', calls))"
  shows "distinct (map (\<lambda>bc. call_id (snd bc)) calls) \<and>
    (\<forall>bc \<in> set calls. \<exists>i g. i \<in> set (rt_call_ids R') \<and> map_of (rt_generated R') i = Some g \<and> as_proposed (rt_tools R) g i bc)"
proof -
  have "reachable empty_ledger (ledger_step (rt_tools R)) (ledger_of (serve_requests (logged P) rs (R, (w, []))))"
    using assms(1)
    by (intro requests_ledger reachable.intros(1)) (auto simp: new_runtime_def empty_ledger_def ledger_of_def)
  from call_ledger.reachable_inv [OF this] show ?thesis
    by (simp add: assms(2) ledger_ok_def executed_ids_def ledger_of_def)
qed


section \<open>What the agent observes\<close>

definition same_observation :: "runtime \<times> 'w \<Rightarrow> runtime \<times> 'w \<Rightarrow> bool" where
  "same_observation s t \<longleftrightarrow> rt_observation (fst t) = rt_observation (fst s)"

interpretation observing: move_relation same_observation
  by unfold_locales (auto simp: same_observation_def)

lemma quiet_observation: "moves F (quiet k) m \<Longrightarrow> moves F same_observation m"
  by (erule moves_weaken) (auto simp: quiet_def same_observation_def)

lemmas observation_steps = any_ports.quiet_steps [THEN quiet_observation]

lemma observation_basic:
  "(\<And>R. rt_observation (f R) = rt_observation R) \<Longrightarrow> moves F same_observation (put f)"
  "moves F same_observation (rt h)" "moves F same_observation (reading P q)" "moves F same_observation (budgeted P b)"
  "moves F same_observation (port g)" "moves F same_observation (tool_port P d c)"
  by (auto simp: moves_def put_def upd_def rt_def getting_def reading_def budgeted_def port_def tool_port_def same_observation_def
      Let_def split: prod.split)

lemma open_call_observation: "moves (\<lambda>_. True) same_observation (open_call P call)"
  unfolding open_call_def
  by (intro observing.moves_bnd_any observation_steps observation_basic moves_case_prod observing.moves_lift observing.moves_ret) simp

lemma check_result_object: "check_result contract c result = Inr u \<Longrightarrow> \<exists>d. result = VDict d"
  by (cases result) (auto simp: check_result_def validate_shape_def tool_result_shape_def shape_head_def object_def)

abbreviation observes :: "val \<Rightarrow> runtime \<times> 'w \<Rightarrow> bool" where
  "observes v s \<equiv> rt_observation (fst s) = v"

lemma same_observation_bnd:
  assumes "moves (\<lambda>_. True) same_observation m" "\<And>x. triple (observes v) (f x) q (\<lambda>_. True)"
  shows "triple (observes v) (bnd m f) q (\<lambda>_. True)"
proof (rule triple_bnd [OF _ assms(2)])
  show "triple (observes v) m (\<lambda>_. observes v) (\<lambda>_. True)"
    using assms(1) by (auto simp: triple_def moves_def same_observation_def split: prod.split sum.split) (metis fst_conv)
qed

lemma fail_triple: "triple p (fail_call P call failure) q (\<lambda>_. True)"
  by (auto simp: triple_def fail_call_def bnd_def lift_def split: prod.split sum.split)

lemma observe_triple:
  "triple (observes v) (put (observe_result result))
     (\<lambda>_. observes (if vindex result ''status'' = VStr ''ok'' then vindex result ''observation'' else v)) e"
  by (simp add: triple_def put_def upd_def observe_result_def)

lemma step_observes:
  "triple (observes v) (step_inner P call)
     (\<lambda>result s. observes (if vindex result ''status'' = VStr ''ok'' then vindex result ''observation'' else v) s \<and> (\<exists>d. result = VDict d))
     (\<lambda>_. True)"
  unfolding step_inner_def
proof (intro same_observation_bnd [OF open_call_observation] triple_case_prod same_observation_bnd [OF observation_steps(2)]
    same_observation_bnd [OF observation_basic(2)] same_observation_bnd [OF observation_steps(1)] same_observation_bnd [OF observation_basic(6)])
  fix c b r
  show "triple (observes v) (case r of Inl failure \<Rightarrow> fail_call P c failure
     | Inr result \<Rightarrow> (case check_result (wp_contract P) c result of Inl e \<Rightarrow> fail_call P c (e, False)
        | Inr _ \<Rightarrow> bnd (put (observe_result result)) (\<lambda>_. bnd (record_event P ''tool_result'' result) (\<lambda>_.
            bnd (set_complete b) (\<lambda>_. bnd (check_active P) (\<lambda>_. ret result))))))
     (\<lambda>result s. observes (if vindex result ''status'' = VStr ''ok'' then vindex result ''observation'' else v) s \<and> (\<exists>d. result = VDict d))
     (\<lambda>_. True)"
    by (auto split: sum.split dest: check_result_object simp: triple_def [of _ "ret _"] ret_def
        intro!: fail_triple triple_bnd [OF observe_triple] same_observation_bnd observation_steps)
qed

lemma step_observation:
  assumes "runtime_step P call s = (t, Inr result)"
  shows "rt_observation (fst t) = rt_observation (observe_result result (fst s)) \<and> (\<exists>d. result = VDict d)"
proof -
  from assms have "step_inner P call s = (t, Inr result)"
    by (auto simp: runtime_step_def record_budget_denial_def or_else_def bnd_def lift_def put_def upd_def ret_def
        split: prod.splits sum.splits if_splits)
  with tripleD [OF step_observes [of "rt_observation (fst s)" P call], of s] show ?thesis
    by (simp add: observe_result_def)
qed

text \<open>C26: After a tool call that returned to the agent, the agent observes what the reply of the Worker to
  this step shows, a validated tool result that is not cancelled, and the Worker holds the same
  observation when the status of that reply is ok and keeps its former one otherwise (for an error
  or a timeout the two differ, against the comment in runtime.rs).\<close>
theorem observation_follows_ok_results:
  assumes "call_tool (worker_env L reg P) call c s = (c', t, Inr obs)"
  shows "\<exists>result. serve_agent P ''step'' call s = (t, Inr result) \<and> validate L reg ''ToolResult'' result = Inr () \<and>
    vget result ''status'' \<noteq> Some (VStr ''cancelled'') \<and> item result ''observation'' = Inr (vindex result ''observation'') \<and>
    make_observation (vindex result ''observation'') = Inr obs \<and> wc_observation c' = obs \<and>
    rt_observation (fst t) = (if vget result ''status'' = Some (VStr ''ok'') then vindex result ''observation'' else rt_observation (fst s))"
proof -
  let ?A = "worker_env L reg P"
  from assms obtain r where w: "worker_request ?A ''step'' call s = (t, Inr r)"
    and v: "validate L reg ''ToolResult'' r = Inr ()"
    and o: "observation_from_result r = Inr obs" "c' = c\<lparr>wc_observation := obs\<rparr>"
    by (auto simp: call_tool_def worker_env_def Let_def rbind_Inr_iff split: prod.splits sum.splits)
  from w have served: "serve_agent P ''step'' call s = (t, Inr r)"
    by (auto simp: worker_request_def worker_env_def reply_def Let_def split: prod.splits sum.splits)
  then have "runtime_step P call s = (t, Inr r)"
    by (auto simp: serve_agent_def reply_def split: prod.splits sum.splits)
  from step_observation [OF this] obtain d where s: "rt_observation (fst t) = rt_observation (observe_result r (fst s))"
    and d: "r = VDict d" by blast
  from o(1) obtain st where "item r ''status'' = Inr st" "\<not> py_eq st (VStr ''cancelled'')"
    "rbind (item r ''observation'') make_observation = Inr obs"
    by (auto simp: observation_from_result_def rbind_Inr_iff split: if_splits)
  then show ?thesis using o(2) s d v served
    by (intro exI [of _ r]) (auto simp: observe_result_def rbind_Inr_iff ditem_def vget_def vindex_def split: option.splits)
qed

section \<open>A small attempt\<close>

text \<open>Equations by which the length of a JSON text is evaluated on the bits of its characters.\<close>

definition utf8_size :: "char \<Rightarrow> int" where
  "utf8_size c = int (length (utf8_char c))"

lemma utf8_size_code [code]: "utf8_size (Char b0 b1 b2 b3 b4 b5 b6 b7) = (if b7 then 2 else 1)"
  by (cases b0; cases b1; cases b2; cases b3; cases b4; cases b5; cases b6; cases b7) (simp_all add: utf8_size_def utf8_char_def)

lemma event_fits_code [code]:
  "event_fits L event = (case dumps L canonical_opts event of
       Inl _ \<Rightarrow> Inl ''CANONICAL_JSON_FAILED''
     | Inr t \<Rightarrow> need (sum_list (map utf8_size t) + 1 \<le> max_segment_bytes) ''TRAJECTORY_EVENT_TOO_LARGE'')"
proof -
  have "int (length (utf8 t)) = sum_list (map utf8_size t)" for t
    by (induction t) (simp_all add: utf8_def utf8_size_def)
  then show ?thesis by (auto simp: event_fits_def canonical_bytes_def split: sum.split)
qed

definition open_shape :: "string list \<Rightarrow> val" where
  "open_shape fs = VDict [(''properties'', VDict (map (\<lambda>f. (f, VDict [])) fs))]"

definition small_contract :: val where
  "small_contract = VDict [(''$defs'', VDict
     [(''Observation'', open_shape [''content'', ''terminated'', ''episode_truncated'']),
      (''ToolCall'', open_shape [''tool_call_id'', ''generation_id'', ''name'', ''implementation'', ''arguments'', ''timeout_ms'']),
      (''ToolResult'', open_shape [''tool_call_id'', ''status'', ''observation'', ''output_truncated'']),
      (''GenerationEvent'', VDict [(''properties'', VDict
         [(''generation_id'', VDict []), (''model_id'', VDict []), (''source'', VDict []), (''messages'', VDict []), (''response'', VDict []),
          (''output_token_count'', VDict []), (''tool_calls'', VDict []),
          (''finish_reason'', VDict [(''enum'', VList [VStr ''stop'', VStr ''tool_calls''])])])]),
      (''TrajectoryEvent'', open_shape [''schema_version'', ''event_id'', ''run_id'', ''episode_id'', ''attempt_id'', ''task_id'',
         ''sequence'', ''occurred_at_ms'', ''kind'', ''payload''])])]"

definition small_plan :: val where
  "small_plan = VDict
     [(''run_id'', VStr ''r''), (''episode_id'', VStr ''e''), (''attempt_id'', VInt 1), (''seed'', VInt 7),
      (''task'', VDict [(''task_id'', VStr ''t'')]),
      (''model'', VDict [(''model_id'', VStr ''m''), (''generation'', VDict [(''max_output_tokens'', VInt 5)])]),
      (''tools'', VList [VDict [(''name'', VStr ''add''), (''implementation'', VStr ''tools/add'')]])]"

definition small_call :: val where
  "small_call = VDict [(''tool_call_id'', VStr ''c''), (''generation_id'', VStr ''e:1:generation:0''), (''name'', VStr ''add''),
     (''implementation'', VStr ''tools/add''), (''arguments'', VDict []), (''timeout_ms'', VInt 3)]"

definition small_observation :: val where
  "small_observation = VDict [(''content'', VList []), (''terminated'', VBool False), (''episode_truncated'', VBool False)]"

definition small_ports :: "nat ports" where
  \<comment> \<open>the world counts the executed calls\<close>
  "small_ports = \<lparr>wp_lib = rational_lib, wp_contract = small_contract, wp_now = (\<lambda>_. 0), wp_unix = (\<lambda>_. 0), wp_cancelled = (\<lambda>_. False),
     wp_reserve = (\<lambda>_ w. (w, Inr ())), wp_append = (\<lambda>_ w. (w, Inr ())), wp_usage = (\<lambda>_ w. (w, Inr ())),
     wp_model = (\<lambda>c w. (w, Inr (VDict [(''generation_id'', VStr ''e:1:generation:0''), (''model_id'', VStr ''m''), (''messages'', VList []),
        (''response'', VList []), (''output_token_count'', VInt 2), (''finish_reason'', VStr ''tool_calls''),
        (''tool_calls'', VList [small_call])]))),
     wp_check_call = (\<lambda>_ _ w. (w, Inr ())),
     wp_call_tool = (\<lambda>_ _ w. (Suc w, Inr (VDict [(''tool_call_id'', VStr ''c''), (''status'', VStr ''ok''),
        (''observation'', small_observation), (''output_truncated'', VBool False)])))\<rparr>"

definition small_budget :: budget where
  "small_budget = \<lparr>deadline_at_ms = 9, interaction_deadline_at_ms = 8, max_generations = 2, max_tool_calls = 1,
     max_total_output_tokens = 5, used = \<lparr>generation_count = 0, tool_call_count = 0, output_token_count = 0\<rparr>\<rparr>"


definition small_start :: "runtime \<times> nat \<times> (val \<times> val) list" where
  "small_start = (case cbind (new_trace small_plan) (\<lambda>tr. new_runtime small_contract small_plan small_budget tr small_observation) of
     Inr R \<Rightarrow> (R, 0, []) | Inl _ \<Rightarrow> undefined)"

lemma small_start_ok: "\<exists>tr R. small_start = (R, 0, []) \<and> new_trace small_plan = Inr tr \<and> new_runtime (wp_contract small_ports) small_plan small_budget tr small_observation = Inr R"
proof -
  have "\<not> isl (cbind (new_trace small_plan) (\<lambda>tr. new_runtime small_contract small_plan small_budget tr small_observation))" by code_simp
  then obtain R where R: "cbind (new_trace small_plan) (\<lambda>tr. new_runtime small_contract small_plan small_budget tr small_observation) = Inr R"
    by (cases "cbind (new_trace small_plan) (\<lambda>tr. new_runtime small_contract small_plan small_budget tr small_observation)")
      (simp_all del: ctl_simps)
  then have "small_start = (R, 0, [])" by (simp add: small_start_def del: ctl_simps)
  moreover from R obtain tr where "new_trace small_plan = Inr tr" "new_runtime small_contract small_plan small_budget tr small_observation = Inr R"
    by auto
  ultimately show ?thesis by (auto simp: small_ports_def)
qed



lemma small_ledger: "ledger_ok (rt_tools (fst small_start)) (ledger_of small_start)"
proof -
  from small_start_ok obtain tr R where R: "small_start = (R, 0, [])"
    "new_runtime (wp_contract small_ports) small_plan small_budget tr small_observation = Inr R" by blast
  from R(2) have "rt_call_ids R = []" by (auto simp: new_runtime_def)
  then show ?thesis by (intro ledger_ok_start) (simp add: R(1) empty_ledger_def ledger_of_def)
qed

definition small_requests :: "(string \<times> val) list" where
  "small_requests = [(''generate'', VList []), (''step'', small_call)]"

theorem worker_refines_ledger_witness:
  "(ledger_step (rt_tools (fst small_start)))\<^sup>*\<^sup>* (ledger_of small_start)
     (ledger_of (fst (serve_agent (logged small_ports) ''generate'' (VList []) small_start)))"
  using worker_refines_ledger [OF small_ledger, of small_ports "''generate''" "VList []"
      "fst (serve_agent (logged small_ports) ''generate'' (VList []) small_start)"
      "snd (serve_agent (logged small_ports) ''generate'' (VList []) small_start)"] by simp

theorem tools_run_as_proposed_witness:
  "\<exists>R calls bc. small_start = (R, 0, []) \<and> snd (snd (serve_requests (logged small_ports) small_requests small_start)) = calls \<and>
     calls = [bc] \<and> (\<exists>i g. as_proposed (rt_tools R) g i bc)"
proof -
  from small_start_ok obtain tr R where R: "small_start = (R, 0, [])"
    "new_runtime (wp_contract small_ports) small_plan small_budget tr small_observation = Inr R" by blast
  obtain R' w' calls where s: "serve_requests (logged small_ports) small_requests (R, (0, [])) = (R', (w', calls))" by (metis prod_cases3)
  have "length (snd (snd (serve_requests (logged small_ports) small_requests small_start))) = 1" by code_simp
  with R(1) s obtain bc where bc: "calls = [bc]" by (auto simp: length_Suc_conv)
  with tools_run_as_proposed [OF R(2) s] have "\<exists>i g. as_proposed (rt_tools R) g i bc" by auto
  with R(1) s bc show ?thesis by (metis snd_conv)
qed

definition result_registry :: registry where
  "result_registry = \<lparr>core = VDict [(''$id'', VStr ''urn:core''), (''$defs'', VDict [(''ToolResult'', VBool True)])], extensions = []\<rparr>"

definition proposed_start :: "runtime \<times> nat" where
  "proposed_start = (let (R, w, calls) = small_start in fst (serve_agent small_ports ''generate'' (VList []) (R, w)))"

theorem observation_follows_ok_results_witness:
  "\<exists>c t obs result. serve_agent small_ports ''step'' small_call proposed_start = (t, Inr result) \<and> call_tool (worker_env rational_lib result_registry small_ports) small_call (new_worker_context (VList [])) proposed_start =
      (c, t, Inr obs) \<and> make_observation (vindex result ''observation'') = Inr obs \<and> wc_observation c = obs"
proof -
  let ?r = "call_tool (worker_env rational_lib result_registry small_ports) small_call (new_worker_context (VList [])) proposed_start"
  have "\<not> isl (snd (snd ?r))" by code_simp
  then obtain c t obs where r: "?r = (c, t, Inr obs)" by (metis isl_def prod_cases3 snd_conv sum.exhaust)
  from observation_follows_ok_results [OF this] r show ?thesis by blast
qed

end
