(* ===== verification/Rpc.thy ===== *)
theory Rpc
  imports Canonical_Json Transition
begin

text \<open>
  The duplex JSON-lines channel between a component process and its Worker
  (\<open>reference/sdk/src/uenv/sdk/rpc.py\<close>).

  The state of a peer is what its threads share: the counter and table of pending requests, the
  futures, the closed flag, the frames written and the messages handed to the executor. Each block
  under the peer's lock, each line read and each future that \<open>close\<close> fails is one step, so that a
  requester can run between any two of them.
\<close>

datatype future = Unused | Waiting | Done "val res"

record rpc_peer =
  rp_next :: nat
  rp_closed :: bool
  rp_pending :: "string list"
  rp_futures :: "string \<Rightarrow> future"
  rp_frames :: "nat list list"      \<comment> \<open>what was written\<close>
  rp_calls :: "val list"            \<comment> \<open>requests given to the executor\<close>
  rp_reading :: bool                \<comment> \<open>the reader is in its loop\<close>
  rp_failing :: "string list"       \<comment> \<open>futures that \<open>close\<close> has still to look at\<close>

definition new_rpc_peer :: rpc_peer where
  "new_rpc_peer = \<lparr>rp_next = 0, rp_closed = False, rp_pending = [], rp_futures = (\<lambda>_. Unused), rp_frames = [],
     rp_calls = [], rp_reading = True, rp_failing = []\<rparr>"

definition max_frame_bytes :: nat where
  "max_frame_bytes = 8 * 1024 * 1024"

definition send :: "lib \<Rightarrow> bool \<Rightarrow> val \<Rightarrow> rpc_peer \<Rightarrow> rpc_peer \<times> unit res" where
  \<comment> \<open>the flag tells whether the pipe is broken\<close>
  "send L broken m p =
     (case dumps L strict_opts m of
        Inl e \<Rightarrow> (p, Inl e)
      | Inr t \<Rightarrow>
          (let data = utf8 (t @ [CHR 0x0A])
           in if max_frame_bytes < length data then (p, Inl (RpcError ''RPC_FRAME_LIMIT''))
              else if rp_closed p then (p, Inl (RpcError ''RPC_CLOSED''))
              else if broken then (p, Inl (OSError ''EPIPE''))
              else (p\<lparr>rp_frames := rp_frames p @ [data]\<rparr>, Inr ())))"

section \<open>Requests\<close>

definition request_id :: "nat \<Rightarrow> string" where
  "request_id n = ''python:'' @ show_nat n"

definition open_request :: "rpc_peer \<Rightarrow> rpc_peer \<times> string res" where
  "open_request p =
     (if rp_closed p then (p, Inl (RpcError ''RPC_CLOSED''))
      else (let n = Suc (rp_next p); i = request_id n
            in (p\<lparr>rp_next := n, rp_pending := rp_pending p @ [i], rp_futures := (rp_futures p)(i := Waiting)\<rparr>, Inr i)))"

definition request_message :: "string \<Rightarrow> string \<Rightarrow> val \<Rightarrow> val" where
  "request_message i mthd params =
     VDict [(''jsonrpc'', VStr ''2.0''), (''id'', VStr i), (''method'', VStr mthd), (''params'', params)]"

definition finish_request :: "string \<Rightarrow> rpc_peer \<Rightarrow> rpc_peer" where
  \<comment> \<open>the \<open>finally\<close> of \<open>request\<close>, after a result, an exception or a timeout\<close>
  "finish_request i p = p\<lparr>rp_pending := filter (\<lambda>j. j \<noteq> i) (rp_pending p)\<rparr>"

section \<open>The executor\<close>

definition handler_result :: "(string \<Rightarrow> (val \<Rightarrow> 'w \<Rightarrow> 'w \<times> val res) option) \<Rightarrow> val \<Rightarrow> 'w \<Rightarrow> 'w \<times> val res" where
  "handler_result handlers m w =
     (case item m ''method'' of
        Inl e \<Rightarrow> (w, Inl e)
      | Inr k \<Rightarrow>
          (if is_list k \<or> is_dict k then (w, Inl (TypeError ''unhashable type''))
           else (case rbind (as_str k) (\<lambda>s. case handlers s of None \<Rightarrow> Inl (RpcError ''RPC_METHOD_NOT_ALLOWED'') | Some h \<Rightarrow> Inr h) of
                   Inl e \<Rightarrow> (w, Inl (RpcError ''RPC_METHOD_NOT_ALLOWED''))
                 | Inr h \<Rightarrow> (case get m ''params'' (VDict []) of Inl e \<Rightarrow> (w, Inl e) | Inr params \<Rightarrow> h params w))))"

fun error_code :: "pyerr \<Rightarrow> val" where
  \<comment> \<open>\<open>getattr(error, 'code', 'COMPONENT_CALL_FAILED')\<close>\<close>
  "error_code (RpcError c) = VStr c"
| "error_code (AgentRuntimeError error) =
     (case item error ''code'' of Inl _ \<Rightarrow> VStr ''COMPONENT_CALL_FAILED'' | Inr c \<Rightarrow> c)"
| "error_code (HTTPError status) = VInt status"
| "error_code _ = VStr ''COMPONENT_CALL_FAILED''"

definition response :: "val res \<Rightarrow> dict" where
  "response r = (case r of
      Inr v \<Rightarrow> [(''result'', v)]
    | Inl e \<Rightarrow> [(''error'', VDict [(''code'', VInt (- 32000)), (''message'', VStr ''Component call failed''),
                                  (''data'', VDict [(''code'', error_code e)])])])"

fun ignored :: "pyerr \<Rightarrow> bool" where
  "ignored (OSError _) = True"
| "ignored (RpcError _) = True"
| "ignored (HTTPError _) = True"        \<comment> \<open>a subclass of \<open>OSError\<close>\<close>
| "ignored (TimeoutError _) = True"     \<comment> \<open>a subclass of \<open>OSError\<close>\<close>
| "ignored _ = False"

definition dispatch ::
  "lib \<Rightarrow> (string \<Rightarrow> (val \<Rightarrow> 'w \<Rightarrow> 'w \<times> val res) option) \<Rightarrow> bool \<Rightarrow> val \<Rightarrow> rpc_peer \<Rightarrow> 'w \<Rightarrow> rpc_peer \<times> 'w \<times> unit res" where
  \<comment> \<open>what it raises ends in the executor's own future, which nobody reads\<close>
  "dispatch L handlers broken m p w =
     (let (w', r) = handler_result handlers m w
      in case item m ''id'' of
           Inl e \<Rightarrow> (p, w', if ignored e then Inr () else Inl e)
         | Inr i \<Rightarrow>
             (case send L broken (VDict ([(''jsonrpc'', VStr ''2.0''), (''id'', i)] @ response r)) p of
                (p', Inl e) \<Rightarrow> (p', w', if ignored e then Inr () else Inl e)
              | (p', Inr _) \<Rightarrow> (p', w', Inr ())))"

section \<open>The reader\<close>

definition stop_reading :: "rpc_peer \<Rightarrow> rpc_peer" where
  "stop_reading p = p\<lparr>rp_reading := False\<rparr>"

definition frame_head :: "val \<Rightarrow> (string \<times> bool) res" where
  \<comment> \<open>the identifier of a message and whether it is a request\<close>
  "frame_head m =
     rbind (get m ''jsonrpc'' VNone) (\<lambda>version.
     rbind (guard (py_eq version (VStr ''2.0'')) (RpcError ''RPC_INVALID_FRAME'')) (\<lambda>_.
     rbind (get m ''id'' VNone) (\<lambda>i.
     rbind (guard (is_str i) (RpcError ''RPC_INVALID_FRAME'')) (\<lambda>_.
     rbind (as_str i) (\<lambda>s. rbind (has m ''method'') (\<lambda>r. Inr (s, r)))))))"

definition code_text :: "val \<Rightarrow> string" where
  \<comment> \<open>the code of an \<open>RpcError\<close> as text\<close>
  "code_text c = (case c of VStr s \<Rightarrow> s | VInt i \<Rightarrow> show_int i | _ \<Rightarrow> [])"

definition answer :: "val \<Rightarrow> val res res" where
  \<comment> \<open>what a response makes of its future\<close>
  "answer m =
     rbind (has m ''error'') (\<lambda>failed.
       if failed
       then rbind (item m ''error'') (\<lambda>e. rbind (item e ''data'') (\<lambda>d. rbind (item d ''code'') (\<lambda>c.
              Inr (Inl (RpcError (code_text c))))))
       else rbind (item m ''result'') (\<lambda>v. Inr (Inr v)))"

definition read_message :: "val \<Rightarrow> rpc_peer \<Rightarrow> rpc_peer" where
  "read_message m p =
     (case frame_head m of
        Inl e \<Rightarrow> stop_reading p
      | Inr (i, is_request) \<Rightarrow>
          if is_request then (if rp_closed p then stop_reading p else p\<lparr>rp_calls := rp_calls p @ [m]\<rparr>)
          else if i \<notin> set (rp_pending p) then stop_reading p
          else (case answer m of
                  Inl e \<Rightarrow> stop_reading p
                | Inr r \<Rightarrow>
                    if rp_futures p i = Waiting then p\<lparr>rp_futures := (rp_futures p)(i := Done r)\<rparr>
                    else stop_reading p))"

definition read_line :: "lib \<Rightarrow> nat list \<Rightarrow> rpc_peer \<Rightarrow> rpc_peer" where
  \<comment> \<open>one turn of \<open>_read\<close> on what \<open>readline(MAX_FRAME_BYTES + 1)\<close> returned\<close>
  "read_line L line p =
     (if line = [] \<or> max_frame_bytes < length line \<or> last line \<noteq> 10 then stop_reading p
      else (case json_loads L line of Inl e \<Rightarrow> stop_reading p | Inr m \<Rightarrow> read_message m p))"

section \<open>Closing\<close>

definition close_begin :: "rpc_peer \<Rightarrow> rpc_peer" where
  "close_begin p = p\<lparr>rp_closed := True, rp_failing := rp_pending p\<rparr>"

definition close_next :: "rpc_peer \<Rightarrow> rpc_peer" where
  \<comment> \<open>the next future of the snapshot; the executor is shut down after the last\<close>
  "close_next p =
     (case rp_failing p of
        [] \<Rightarrow> p
      | i # ids \<Rightarrow>
          p\<lparr>rp_failing := ids,
            rp_futures := (if rp_futures p i = Waiting
                           then (rp_futures p)(i := Done (Inl (RpcError ''RPC_CLOSED''))) else rp_futures p)\<rparr>)"

inductive rpc_step :: "lib \<Rightarrow> rpc_peer \<Rightarrow> rpc_peer \<Rightarrow> bool" for L where
  opens: "open_request p = (p', Inr i) \<Longrightarrow> rpc_step L p p'"
| sends: "send L broken m p = (p', r) \<Longrightarrow> rpc_step L p p'"
| reads: "rp_reading p \<Longrightarrow> rpc_step L p (read_line L line p)"
| closes: "\<not> rp_reading p \<Longrightarrow> \<not> rp_closed p \<Longrightarrow> rpc_step L p (close_begin p)"
| fails: "rpc_step L p (close_next p)"
| finishes: "rpc_step L p (finish_request i p)"

definition rpc_init :: "rpc_peer \<Rightarrow> bool" where
  "rpc_init p \<longleftrightarrow> p = new_rpc_peer"

section \<open>No requester is left waiting\<close>

definition rpc_ok :: "rpc_peer \<Rightarrow> bool" where
  "rpc_ok p \<longleftrightarrow> distinct (rp_pending p) \<and>
     (\<forall>i \<in> set (rp_pending p). rp_futures p i \<noteq> Unused) \<and>
     (\<forall>n > rp_next p. rp_futures p (request_id n) = Unused) \<and>
     (rp_closed p \<longrightarrow> (\<forall>i \<in> set (rp_pending p). rp_futures p i = Waiting \<longrightarrow> i \<in> set (rp_failing p)))"

lemma request_id_inject [simp]: "request_id m = request_id n \<longleftrightarrow> m = n"
  by (simp add: request_id_def)

lemma stop_reading_simps [simp]:
  "rp_next (stop_reading p) = rp_next p" "rp_closed (stop_reading p) = rp_closed p" "rp_pending (stop_reading p) = rp_pending p"
  "rp_futures (stop_reading p) = rp_futures p" "rp_failing (stop_reading p) = rp_failing p" "rp_frames (stop_reading p) = rp_frames p"
  by (simp_all add: stop_reading_def)

lemma read_message_cases:
  obtains "rp_futures (read_message m p) = rp_futures p"
  | i r where "frame_head m = Inr (i, False)" "i \<in> set (rp_pending p)" "rp_futures p i = Waiting" "answer m = Inr r"
    "rp_futures (read_message m p) = (rp_futures p)(i := Done r)"
proof -
  have "rp_futures (read_message m p) = rp_futures p \<or>
    (\<exists>i r. frame_head m = Inr (i, False) \<and> i \<in> set (rp_pending p) \<and> rp_futures p i = Waiting \<and> answer m = Inr r \<and>
       rp_futures (read_message m p) = (rp_futures p)(i := Done r))"
    by (auto simp: read_message_def split: sum.split prod.split)
  with that show thesis by blast
qed

lemma read_message_keeps [simp]:
  "rp_next (read_message m p) = rp_next p" "rp_closed (read_message m p) = rp_closed p"
  "rp_pending (read_message m p) = rp_pending p" "rp_failing (read_message m p) = rp_failing p"
  "rp_frames (read_message m p) = rp_frames p"
  by (auto simp: read_message_def split: sum.splits prod.splits)

lemma read_line_cases:
  obtains "read_line L line p = stop_reading p"
  | m where "json_loads L line = Inr m" "read_line L line p = read_message m p"
proof -
  have "read_line L line p = stop_reading p \<or> (\<exists>m. json_loads L line = Inr m \<and> read_line L line p = read_message m p)"
    by (auto simp: read_line_def split: sum.split)
  with that show thesis by blast
qed

lemma read_message_ok: "rpc_ok p \<Longrightarrow> rpc_ok (read_message m p)"
  by (cases rule: read_message_cases [of m p]) (auto simp: rpc_ok_def)

lemma stop_reading_ok: "rpc_ok p \<Longrightarrow> rpc_ok (stop_reading p)"
  by (simp add: rpc_ok_def)

lemma read_line_ok: "rpc_ok p \<Longrightarrow> rpc_ok (read_line L line p)"
  by (cases rule: read_line_cases [of L line p]) (simp_all add: read_message_ok stop_reading_ok)

lemma send_ok: "send L broken m p = (p', r) \<Longrightarrow> rpc_ok p \<Longrightarrow> rpc_ok p'"
  by (auto simp: send_def rpc_ok_def Let_def split: sum.splits if_splits)

lemma open_ok:
  assumes "open_request p = (p', Inr i)" "rpc_ok p"
  shows "rpc_ok p'"
proof -
  from assms(2) have "request_id (Suc (rp_next p)) \<notin> set (rp_pending p)" unfolding rpc_ok_def by (metis lessI)
  with assms show ?thesis by (auto simp: open_request_def rpc_ok_def Let_def split: if_splits)
qed

lemma close_next_ok: "rpc_ok p \<Longrightarrow> rpc_ok (close_next p)"
  by (auto simp: close_next_def rpc_ok_def split: list.split)

interpretation rpc_run: step_invariant rpc_init "rpc_step L" rpc_ok for L
proof
  show "rpc_init p \<Longrightarrow> rpc_ok p" for p by (simp add: rpc_init_def new_rpc_peer_def rpc_ok_def)
  fix p q
  assume s: "rpc_ok p" "rpc_step L p q"
  from s(2,1) show "rpc_ok q"
  proof cases
    case closes
    with s(1) show ?thesis by (auto simp: rpc_ok_def close_begin_def)
  next
    case (finishes i)
    with s(1) show ?thesis by (auto simp: rpc_ok_def finish_request_def)
  qed (use s(1) in \<open>auto intro: open_ok send_ok close_next_ok read_line_ok\<close>)
qed

lemma close_next_keeps [simp]: "rp_pending (close_next p) = rp_pending p" "rp_closed (close_next p) = rp_closed p"
  "rp_failing (close_next p) = tl (rp_failing p)"
  by (auto simp: close_next_def split: list.split)

lemma close_all_failing: "rp_failing ((close_next ^^ n) p) = drop n (rp_failing p)"
  "rp_pending ((close_next ^^ n) p) = rp_pending p" "rp_closed ((close_next ^^ n) p) = rp_closed p"
  by (induction n) (simp_all add: drop_Suc tl_drop)

lemma close_all_ok: "rpc_ok p \<Longrightarrow> rpc_ok ((close_next ^^ n) p)"
  by (induction n) (simp_all add: close_next_ok)

text \<open>C27: When a peer is closed, at whatever moment, finishing the close resolves the future of every
  pending request, and no new request is accepted.\<close>
theorem closing_releases_every_waiter:
  assumes "reachable rpc_init (rpc_step L) p" "rp_closed p" "i \<in> set (rp_pending p)"
  shows "(\<exists>r. rp_futures ((close_next ^^ length (rp_failing p)) p) i = Done r) \<and>
    open_request p = (p, Inl (RpcError ''RPC_CLOSED''))"
proof -
  let ?q = "(close_next ^^ length (rp_failing p)) p"
  have "rpc_ok ?q" using rpc_run.reachable_inv [OF assms(1)] by (rule close_all_ok)
  with assms(2,3) have "rp_futures ?q i \<noteq> Unused" "rp_futures ?q i \<noteq> Waiting"
    unfolding rpc_ok_def by (auto simp: close_all_failing)
  then show ?thesis using assms(2) by (cases "rp_futures ?q i") (auto simp: open_request_def)
qed

section \<open>A response reaches its own request, once\<close>

lemma frame_head_id: "frame_head m = Inr (i, b) \<Longrightarrow> item m ''id'' = Inr (VStr i)"
  by (cases m) (auto simp: frame_head_def rbind_Inr_iff guard_Inr_iff get_or_def ditem_def
      split: option.splits elim: as_str.elims)

lemma read_line_done: "rp_futures p i = Done r \<Longrightarrow> rp_futures (read_line L line p) i = Done r"
proof (cases rule: read_line_cases [of L line p])
  case (2 m)
  assume "rp_futures p i = Done r"
  then show ?thesis unfolding 2(2) by (cases rule: read_message_cases [of m p]) auto
qed simp

lemma read_line_answers:
  assumes "rp_futures p i = Waiting" "rp_futures (read_line L line p) i \<noteq> Waiting"
  shows "\<exists>m r. json_loads L line = Inr m \<and> item m ''id'' = Inr (VStr i) \<and> answer m = Inr r \<and>
    rp_futures (read_line L line p) i = Done r"
proof (cases rule: read_line_cases [of L line p])
  case (2 m)
  from assms 2 show ?thesis
    by (cases rule: read_message_cases [of m p]) (auto dest: frame_head_id split: if_splits)
qed (use assms in simp)

lemma done_step:
  assumes "rpc_ok p" "rp_futures p i = Done r" "rpc_step L p q"
  shows "rp_futures q i = Done r"
  using assms(3)
proof cases
  case (opens j)
  from assms(1,2) have "i \<noteq> request_id (Suc (rp_next p))" unfolding rpc_ok_def by (metis future.distinct(3) lessI)
  with opens assms(2) show ?thesis by (auto simp: open_request_def Let_def split: if_splits)
next
  case (reads line)
  with assms(2) show ?thesis by (simp add: read_line_done)
qed (use assms(2) in \<open>auto simp: send_def close_begin_def close_next_def finish_request_def Let_def
      split: sum.splits if_splits list.splits\<close>)


lemma failing_closed: "reachable rpc_init (rpc_step L) p \<Longrightarrow> rp_failing p \<noteq> [] \<Longrightarrow> rp_closed p"
proof (induction rule: reachable.induct)
  case (move p q)
  from move.hyps(2) move.IH move.prems show ?case
  proof cases
    case (reads line)
    with move.IH move.prems show ?thesis by (cases rule: read_line_cases [of L line p]) simp_all
  qed (auto simp: open_request_def send_def close_begin_def close_next_def finish_request_def Let_def
      split: if_splits sum.splits list.splits)
qed (simp add: rpc_init_def new_rpc_peer_def)

lemma read_line_others:
  assumes "rp_futures p i = Waiting" "rp_futures (read_line L line p) i \<noteq> Waiting" "j \<noteq> i"
  shows "rp_futures (read_line L line p) j = rp_futures p j"
proof (cases rule: read_line_cases [of L line p])
  case (2 m)
  from assms 2 show ?thesis by (cases rule: read_message_cases [of m p]) (auto split: if_splits)
qed (use assms in simp)

text \<open>C28: Whatever step resolves a waiting request, its future gets the answer of a frame just read that
  carries its identifier, or RPC_CLOSED after the peer was closed; the step changes no other
  future, and the result then never changes.\<close>
theorem response_reaches_its_request:
  assumes "reachable rpc_init (rpc_step L) p" "rp_futures p i = Waiting"
    and "rpc_step L p q" "rp_futures q i \<noteq> Waiting" "(rpc_step L)\<^sup>*\<^sup>* q t"
  shows "\<exists>r. rp_futures t i = Done r \<and> (\<forall>j. j \<noteq> i \<longrightarrow> rp_futures q j = rp_futures p j) \<and>
    ((\<exists>line m. rp_reading p \<and> q = read_line L line p \<and> json_loads L line = Inr m \<and> item m ''id'' = Inr (VStr i) \<and> answer m = Inr r) \<or>
     (rp_closed p \<and> r = Inl (RpcError ''RPC_CLOSED'')))"
proof -
  have ok: "rpc_ok p" using rpc_run.reachable_inv [OF assms(1)] .
  then have "rpc_ok q" using assms(3) by (rule rpc_run.inv_step)
  then have stays: "rp_futures t i = Done r" if "rp_futures q i = Done r" for r
    by (intro rpc_run.run_stable [OF assms(5), where P = "\<lambda>s. rp_futures s i = Done r"]) (auto intro: done_step that)
  from assms(3) show ?thesis
  proof cases
    case (opens j)
    with assms(2,4) show ?thesis by (auto simp: open_request_def Let_def split: if_splits)
  next
    case (reads line)
    with assms(2,4) read_line_answers [of p i L line] read_line_others [of p i L line] stays show ?thesis by blast
  next
    case fails
    with assms(2,4) have "rp_failing p \<noteq> []" "rp_futures q = (rp_futures p)(i := Done (Inl (RpcError ''RPC_CLOSED'')))"
      by (auto simp: close_next_def split: list.splits if_splits)
    with failing_closed [OF assms(1)] stays show ?thesis by simp
  qed (use assms(2,4) in \<open>auto simp: send_def close_begin_def finish_request_def Let_def split: sum.splits if_splits\<close>)
qed

section \<open>One frame is one line\<close>

lemma esc_char_line: "CHR 0x0A \<notin> set (esc_char c)"
proof -
  have "hex_digit n \<noteq> CHR 0x0A" if "n < 16" for n
  proof -
    from that have "code (hex_digit n) \<noteq> 10" by (auto simp: hex_digit_def)
    then show ?thesis by auto
  qed
  then have "hex_digit (code c mod 16) \<noteq> CHR 0x0A" "code c < 32 \<Longrightarrow> hex_digit (code c div 16) \<noteq> CHR 0x0A"
    by (simp_all add: less_mult_imp_div_less)
  then show ?thesis by (auto simp: esc_char_def)
qed

lemma json_string_line: "CHR 0x0A \<notin> set (json_string s)"
  by (auto simp: json_string_def esc_char_line)

lemma number_line: "CHR 0x0A \<notin> number_chars"
  by (simp add: number_chars_def is_digit_def)

lemma join_line: "c \<in> set (join sep ts) \<Longrightarrow> c \<in> set sep \<or> (\<exists>t \<in> set ts. c \<in> set t)"
  by (induction sep ts rule: join.induct) auto

lemma show_int_line: "CHR 0x0A \<notin> set (show_int i)"
  using show_int_chars [of i] by (auto simp: is_digit_def)

lemma rmap_Inr_set: "rmap f xs = Inr ys \<Longrightarrow> \<forall>y \<in> set ys. \<exists>x \<in> set xs. f x = Inr y"
  by (auto simp: rmap_Inr_iff list_all2_conv_all_nth in_set_conv_nth) force

lemma dumps_line:
  assumes "float_repr_ok L" "CHR 0x0A \<notin> set (item_sep opts)" "CHR 0x0A \<notin> set (key_sep opts)"
  shows "dumps L opts v = Inr t \<Longrightarrow> CHR 0x0A \<notin> set t"
  using assms
proof (induction L opts v arbitrary: t rule: dumps.induct [case_names none bool int float str list tuple dict other])
  case (float L opts x)
  then show ?case using number_line by (cases x) (auto simp: float_repr_ok_def split: if_splits)
next
  case (list L opts xs)
  then obtain ts where "rmap (dumps L opts) xs = Inr ts" "t = ''['' @ join (item_sep opts) ts @ '']''"
    by (auto simp: rbind_Inr_iff)
  moreover from rmap_Inr_set [OF this(1)] list have "\<forall>u \<in> set ts. CHR 0x0A \<notin> set u" by metis
  ultimately show ?case using list.prems(3) join_line by fastforce
next
  case (tuple L opts xs)
  then obtain ts where "rmap (dumps L opts) xs = Inr ts" "t = ''['' @ join (item_sep opts) ts @ '']''"
    by (auto simp: rbind_Inr_iff)
  moreover from rmap_Inr_set [OF this(1)] tuple have "\<forall>u \<in> set ts. CHR 0x0A \<notin> set u" by metis
  ultimately show ?case using tuple.prems(3) join_line by fastforce
next
  case (dict L opts d)
  let ?f = "\<lambda>p. rbind (dumps L opts (snd p)) (\<lambda>t. Inr (json_string (fst p) @ key_sep opts @ t))"
  from dict obtain ts where t: "rmap ?f (dict_items opts d) = Inr ts" "t = ''{'' @ join (item_sep opts) ts @ ''}''"
    by (auto simp: rbind_Inr_iff)
  have "CHR 0x0A \<notin> set u" if u: "u \<in> set ts" for u
  proof -
    from rmap_Inr_set [OF t(1)] u obtain p x where "p \<in> set d" "dumps L opts (snd p) = Inr x"
      "u = json_string (fst p) @ key_sep opts @ x" by (fastforce simp: rbind_Inr_iff)
    moreover from dict.IH [of p x] this(1,2) dict.prems have "CHR 0x0A \<notin> set x" by simp
    ultimately show ?thesis using dict.prems(4) json_string_line by simp
  qed
  with t(2) dict.prems(3) join_line show ?case by fastforce
qed (simp_all add: json_string_line show_int_line)

lemma utf8_line: "CHR 0x0A \<notin> set s \<Longrightarrow> 10 \<notin> set (utf8 s)"
proof -
  have "code c \<noteq> 10" if "c \<noteq> CHR 0x0A" for c
  proof
    assume "code c = 10"
    then have "code c = code (CHR 0x0A)" by simp
    with that show False by (simp only: code_inject)
  qed
  then have u: "10 \<notin> set (utf8_char c)" if "c \<noteq> CHR 0x0A" for c using that by (simp add: utf8_char_def)
  assume "CHR 0x0A \<notin> set s"
  then have "c \<noteq> CHR 0x0A" if "c \<in> set s" for c using that by metis
  from u [OF this] show ?thesis unfolding utf8_def by simp
qed

definition line_frame :: "nat list \<Rightarrow> bool" where
  "line_frame frame \<longleftrightarrow> length frame \<le> max_frame_bytes \<and> (\<exists>body. frame = body @ [10] \<and> 10 \<notin> set body)"

lemma send_frame:
  assumes "float_repr_ok L" "send L broken m p = (p', r)"
  shows "rp_frames p' = rp_frames p \<or> (\<exists>frame. rp_frames p' = rp_frames p @ [frame] \<and> line_frame frame)"
proof (cases "dumps L strict_opts m")
  case (Inr t)
  then have "10 \<notin> set (utf8 t)" using dumps_line [OF assms(1), of strict_opts m t] utf8_line by (simp add: strict_opts_def)
  moreover have "utf8 [CHR 0x0A] = [10]" by (simp add: utf8_def utf8_char_def)
  ultimately show ?thesis using assms(2) Inr by (auto simp: send_def line_frame_def Let_def split: if_splits)
qed (use assms(2) in \<open>simp add: send_def\<close>)

lemma step_frames:
  assumes "float_repr_ok L" "rpc_step L p q" "\<forall>frame \<in> set (rp_frames p). line_frame frame"
  shows "\<forall>frame \<in> set (rp_frames q). line_frame frame"
  using assms(2)
proof cases
  case (sends broken m r)
  from send_frame [OF assms(1) this] assms(3) show ?thesis by auto
next
  case (reads line)
  with assms(3) show ?thesis by (cases rule: read_line_cases [of L line p]) simp_all
qed (use assms(3) in \<open>auto simp: open_request_def close_begin_def close_next_def finish_request_def Let_def
       split: if_splits list.splits\<close>)

text \<open>C29: Every frame a peer writes is at most the frame limit long, ends in its only newline and so is
  taken by the reader of the other side as exactly one message.\<close>
theorem every_frame_is_one_line:
  assumes "float_repr_ok L" "reachable rpc_init (rpc_step L) p" "frame \<in> set (rp_frames p)"
  shows "length frame \<le> max_frame_bytes \<and> (\<exists>body. frame = body @ [10] \<and> 10 \<notin> set body) \<and>
    read_line L frame q = (case json_loads L frame of Inl e \<Rightarrow> stop_reading q | Inr m \<Rightarrow> read_message m q)"
proof -
  from assms(2) have "\<forall>frame \<in> set (rp_frames p). line_frame frame"
    by (induction rule: reachable.induct) (auto simp: rpc_init_def new_rpc_peer_def dest: step_frames [OF assms(1)])
  with assms(3) show ?thesis by (auto simp: line_frame_def read_line_def)
qed

text \<open>A handler whose result cannot be written as JSON leaves its caller without a reply.\<close>
theorem unserialisable_result_gets_no_reply:
  "\<exists>e. dispatch L (\<lambda>k. Some (\<lambda>v w. (w, Inr (VFloat NaN)))) broken (request_message i mthd params) p w = (p, w, Inl e)"
  by (simp add: dispatch_def handler_result_def request_message_def response_def send_def ditem_def get_or_def strict_opts_def
      dict_items_def)

section \<open>A session of one request\<close>

definition echo_lib :: lib where
  \<comment> \<open>a library whose parser takes every frame for the response to the first request\<close>
  "echo_lib = rational_lib\<lparr>json_loads := (\<lambda>b. Inr (VDict [(''jsonrpc'', VStr ''2.0''), (''id'', VStr (request_id 1)), (''result'', VNone)]))\<rparr>"

definition asked :: rpc_peer where
  "asked = new_rpc_peer\<lparr>rp_next := 1, rp_pending := [request_id 1], rp_futures := (\<lambda>_. Unused)(request_id 1 := Waiting)\<rparr>"

lemma first_step: "rpc_step L new_rpc_peer p \<Longrightarrow> reachable rpc_init (rpc_step L) p"
  using reachable.start [of rpc_init new_rpc_peer "rpc_step L"] by (auto simp: rpc_init_def intro: reachable.move)

lemma asked_reachable: "reachable rpc_init (rpc_step L) asked"
proof -
  have "open_request new_rpc_peer = (asked, Inr (request_id 1))"
    by (simp add: open_request_def new_rpc_peer_def asked_def Let_def)
  then have "rpc_step L new_rpc_peer asked" by (rule opens)
  then show ?thesis by (rule first_step)
qed

theorem closing_releases_every_waiter_witness:
  "\<exists>r. rp_futures (close_next (close_begin (stop_reading asked))) (request_id 1) = Done r"
proof -
  let ?p = "close_begin (stop_reading asked)"
  have "read_line rational_lib [] asked = stop_reading asked" by (simp add: read_line_def)
  then have "rpc_step rational_lib asked (stop_reading asked)" using reads [of asked rational_lib "[]"]
    by (simp add: asked_def new_rpc_peer_def)
  from reachable.move [OF asked_reachable this]
  have r: "reachable rpc_init (rpc_step rational_lib) ?p"
    by (rule reachable.move) (rule closes, simp_all add: stop_reading_def asked_def new_rpc_peer_def)
  from closing_releases_every_waiter [OF r, of "request_id 1"] show ?thesis
    by (simp add: close_begin_def stop_reading_def asked_def)
qed

theorem response_reaches_its_request_witness:
  "rp_futures (read_line echo_lib [123, 125, 10] asked) (request_id 1) = Done (Inr VNone)"
proof -
  let ?q = "read_line echo_lib [123, 125, 10] asked"
  have "rp_futures ?q (request_id 1) \<noteq> Waiting"
    by (simp add: read_line_def max_frame_bytes_def echo_lib_def read_message_def frame_head_def answer_def asked_def
        has_key_def get_or_def ditem_def)
  moreover have "rp_reading asked" by (simp add: asked_def new_rpc_peer_def)
  then have "rpc_step echo_lib asked ?q" by (rule reads)
  ultimately show ?thesis using response_reaches_its_request [OF asked_reachable _ _ _ rtranclp.rtrancl_refl]
    by (force simp: asked_def new_rpc_peer_def echo_lib_def answer_def has_key_def ditem_def)
qed

theorem every_frame_is_one_line_witness:
  "\<exists>p. reachable rpc_init (rpc_step rational_lib) p \<and> rp_frames p = [[110, 117, 108, 108, 10]] \<and>
     read_line rational_lib [110, 117, 108, 108, 10] p = stop_reading p"
proof -
  let ?p = "new_rpc_peer\<lparr>rp_frames := [[110, 117, 108, 108, 10]]\<rparr>"
  have "send rational_lib False VNone new_rpc_peer = (?p, Inr ())"
    by (simp add: send_def new_rpc_peer_def max_frame_bytes_def utf8_def utf8_char_def)
  then have "rpc_step rational_lib new_rpc_peer ?p" by (rule sends)
  then have r: "reachable rpc_init (rpc_step rational_lib) ?p" by (rule first_step)
  from every_frame_is_one_line [OF rational_lib_ok r, of "[110, 117, 108, 108, 10]" ?p]
  have "read_line rational_lib [110, 117, 108, 108, 10] ?p = stop_reading ?p" by (simp add: rational_lib_def)
  with r show ?thesis by (intro exI [of _ ?p]) simp
qed

end
