(* ===== verification/Package_Loader.thy ===== *)
theory Package_Loader
  imports Tool_Host
begin

text \<open>
  Loading dataset packages and public run files (\<open>reference/package_loader.py\<close>): the checks on an
  author's declaration and classes, the generated manifest with its schema artifacts, and the
  expansion of a public run into a complete \<open>RunSpec\<close>.

  What the loader reads from outside is an argument: the parsed YAML and TOML files, importing a
  symbol, and the tool definitions of a package's \<open>tools\<close> module. A class is what the loader looks
  at of it. Written files are returned as pairs of path and content.
\<close>

section \<open>Declarations\<close>

definition allowed_declaration_fields :: "string list" where
  "allowed_declaration_fields =
     [''id'', ''version'', ''entrypoints'', ''models'', ''internet_access'', ''required_capabilities'', ''runtime'']"

definition model_roles :: "string list" where
  \<comment> \<open>\<open>MODEL_ROLES\<close>, in sorted order\<close>
  "model_roles = [''environment_config'', ''input'', ''observation'', ''private_data'', ''scorer_config'', ''state'']"

definition reserved_model_fields :: "string list" where
  "reserved_model_fields =
     [''episode_id'', ''attempt_id'', ''lease'', ''schema_ref'', ''plan_digest'',
      ''input_digest'', ''run_id'', ''agent'', ''backend'', ''model'', ''tools'',
      ''scorer'', ''dataset_package'', ''scoring'', ''limits'', ''purpose'', ''timeout'']"

definition suspect_model_fields :: "(string \<times> string) list" where
  "suspect_model_fields = [(''allowed_time'', ''RunSpec.limits.total_timeout_ms'')]"

definition construct_mapping :: "(string \<times> val) list \<Rightarrow> dict res" where
  \<comment> \<open>the YAML loader refuses a key that is given twice\<close>
  "construct_mapping node =
     rbind (guard (distinct (map fst node)) (ValueError ''Duplicate YAML key'')) (\<lambda>_.
       Inr (fold (\<lambda>p d. AList.update (fst p) (snd p) d) node []))"

definition load_yaml :: "val \<Rightarrow> val res" where
  "load_yaml v = (if is_dict v then Inr v else Inl (ValueError ''Expected YAML object''))"

definition entrypoint_ok :: "val \<Rightarrow> bool" where
  "entrypoint_ok v = (case v of
      VStr s \<Rightarrow> length (split_all (CHR '':'') s) = 2 \<and> [] \<notin> set (split_all (CHR '':'') s)
    | _ \<Rightarrow> False)"

definition nonempty_str :: "val \<Rightarrow> bool" where
  "nonempty_str v = (case v of VStr s \<Rightarrow> s \<noteq> [] | _ \<Rightarrow> False)"

definition entries_ok :: "val \<Rightarrow> bool" where
  "entries_ok v = (case v of
      VDict d \<Rightarrow> has_key d ''dataset_adapter'' \<and> has_key d ''environment'' \<and>
        set (map fst d) \<subseteq> {''dataset_adapter'', ''environment'', ''scorer''} \<and> (\<forall>p \<in> set d. entrypoint_ok (snd p))
    | _ \<Rightarrow> False)"

definition capabilities_ok :: "val \<Rightarrow> bool" where
  "capabilities_ok v = (case v of VList xs \<Rightarrow> (\<forall>x \<in> set xs. nonempty_str x) \<and> distinct xs | _ \<Rightarrow> False)"

definition models_ok :: "val \<Rightarrow> bool" where
  "models_ok v = (case v of
      VDict d \<Rightarrow> has_key d ''input'' \<and> set (map fst d) \<subseteq> set model_roles \<and> (\<forall>p \<in> set d. nonempty_str (snd p))
    | _ \<Rightarrow> False)"

definition validate_declaration :: "dict \<Rightarrow> unit res" where
  "validate_declaration d =
     rbind (guard (set (map fst d) \<subseteq> set allowed_declaration_fields) (ValueError ''Unknown dataset.yaml fields'')) (\<lambda>_.
     rbind (guard (nonempty_str (get_or d ''id'' VNone)) (ValueError ''dataset.yaml id must be a non-empty string'')) (\<lambda>_.
     rbind (guard (nonempty_str (get_or d ''version'' VNone)) (ValueError ''dataset.yaml version must be a non-empty string'')) (\<lambda>_.
     rbind (guard (entries_ok (get_or d ''entrypoints'' (VDict [])))
              (ValueError ''entrypoints require dataset_adapter and environment; scorer is optional; use module:Class'')) (\<lambda>_.
     rbind (guard (is_bool (get_or d ''internet_access'' (VBool False))) (ValueError ''internet_access must be a boolean'')) (\<lambda>_.
     rbind (guard (capabilities_ok (get_or d ''required_capabilities'' (VList [])))
              (ValueError ''required_capabilities must be unique non-empty strings'')) (\<lambda>_.
     rbind (guard (models_ok (get_or d ''models'' (VDict []))) (ValueError ''Unknown dataset.yaml model roles'')) (\<lambda>_.
     rbind (has (get_or d ''models'' (VDict [])) ''scorer_config'') (\<lambda>configured.
     rbind (has (get_or d ''entrypoints'' (VDict [])) ''scorer'') (\<lambda>scored.
       guard (\<not> (configured \<and> \<not> scored)) (ValueError ''scorer_config requires a scorer entrypoint''))))))))))"

section \<open>Packages\<close>

record py_class =
  pc_module :: string
  pc_name :: string
  pc_bases :: "string list"
  pc_abstract :: bool
  pc_attributes :: "string list"     \<comment> \<open>names in the class's own \<open>__dict__\<close>\<close>

datatype symbol =
    Plugin py_class
  | Model string           \<comment> \<open>a subclass of \<open>UEnvModel\<close>\<close>
  | Other_Symbol

record 'w package =
  pk_declaration :: dict
  pk_adapter :: "symbol option"
  pk_environment :: "symbol option"
  pk_scorer :: "symbol option"
  pk_models :: "(string \<times> string) list"        \<comment> \<open>model class of every role\<close>
  pk_tools :: "(string \<times> 'w tool_definition) list"

definition vnext :: string where
  "vnext = ''uenv://schemas/vnext/''"

definition str_of :: "dict \<Rightarrow> string \<Rightarrow> string" where
  \<comment> \<open>a declared string inside an f-string\<close>
  "str_of d k = (case map_of d k of Some (VStr s) \<Rightarrow> s | _ \<Rightarrow> [])"

definition package_schema_id :: "sids \<Rightarrow> dict \<Rightarrow> string \<Rightarrow> string" where
  "package_schema_id sids d model =
     (case map_of sids model of
        Some existing \<Rightarrow>
          if prefix_of vnext existing then existing
          else ''uenv://packages/'' @ str_of d ''id'' @ ''/'' @ str_of d ''version'' @ ''/'' @ model
      | None \<Rightarrow> ''uenv://packages/'' @ str_of d ''id'' @ ''/'' @ str_of d ''version'' @ ''/'' @ model)"

definition load_symbol :: "(string \<Rightarrow> string \<Rightarrow> symbol res) \<Rightarrow> val \<Rightarrow> symbol res" where
  "load_symbol import_symbol reference =
     rbind (as_str reference) (\<lambda>s.
       if CHR '':'' \<in> set s then import_symbol (fst (split_once (CHR '':'') s)) (snd (split_once (CHR '':'') s))
       else Inl (ValueError ''not enough values to unpack''))"

definition concrete_subclass :: "string \<Rightarrow> symbol \<Rightarrow> bool" where
  "concrete_subclass base s = (case s of Plugin c \<Rightarrow> pc_bases c = [base] \<and> \<not> pc_abstract c | _ \<Rightarrow> False)"

definition own_names :: "symbol \<Rightarrow> string list" where
  "own_names s = (case s of Plugin c \<Rightarrow> pc_attributes c | _ \<Rightarrow> [])"

definition check_plugin :: "string \<Rightarrow> string \<Rightarrow> symbol option \<Rightarrow> unit res" where
  "check_plugin role base s = (case s of
      None \<Rightarrow> Inr ()
    | Some c \<Rightarrow> guard (concrete_subclass base c) (TypeError (role @ '' must be a concrete direct subclass of '' @ base)))"

section \<open>Reserved field names\<close>

definition suspect_warning :: "string \<Rightarrow> string \<Rightarrow> string list" where
  "suspect_warning path name = (case map_of suspect_model_fields name of
      None \<Rightarrow> []
    | Some what \<Rightarrow> [path @ ''.'' @ name @ '' may duplicate '' @ what @
        ''; automatic validation cannot determine semantic equivalence''])"

lemma size_map_of: "map_of d k = Some v \<Longrightarrow> size v < size (VDict d)"
  by (induction d) (auto split: if_splits)

lemma size_get: "get s k w = Inr v \<Longrightarrow> v = w \<or> size v < size s"
  by (cases s) (auto simp: get_or_def split: option.splits dest: size_map_of)

lemma size_get_dict: "get s k VNone = Inr v \<Longrightarrow> is_dict v \<Longrightarrow> size v < size s"
  using size_get [of s k VNone v] by auto

lemma size_as_dict: "as_dict v = Inr d \<Longrightarrow> (k, x) \<in> set d \<Longrightarrow> size x < size v"
  by (cases v) (auto dest: dict_items_size)

lemma size_as_list: "as_list v = Inr xs \<Longrightarrow> x \<in> set xs \<Longrightarrow> size x \<le> size v"
  by (cases v) (auto simp: size_list_estimation' less_imp_le le_SucI)

function check_fields :: "string list \<Rightarrow> val \<Rightarrow> string \<Rightarrow> string list \<Rightarrow> string list res" where
  \<comment> \<open>the warnings so far are the last argument\<close>
  "check_fields control schema path ws =
     rbind (get schema ''properties'' (VDict [])) (\<lambda>ps. rbind (as_dict ps) (\<lambda>properties.
     rbind (rfold (\<lambda>p ws.
              if fst p \<in> set control then Inl (ValueError (path @ ''.'' @ fst p @ '' shadows system fields''))
              else check_fields control (snd p) (path @ ''.'' @ fst p) (ws @ suspect_warning path (fst p))) properties ws) (\<lambda>ws1.
     rbind (get schema ''items'' VNone) (\<lambda>items.
     rbind (if is_dict items then check_fields control items (path @ ''[]'') ws1 else Inr ws1) (\<lambda>ws2.
     rbind (get schema ''additionalProperties'' VNone) (\<lambda>additional.
     rbind (if is_dict additional then check_fields control additional (path @ ''[]'') ws2 else Inr ws2) (\<lambda>ws3.
     rbind (get schema ''anyOf'' (VList [])) (\<lambda>a. rbind (as_list a) (\<lambda>children.
       rfold (\<lambda>child ws. check_fields control child path ws) children ws3)))))))))"
  by pat_completeness auto
termination
proof (relation "measure (\<lambda>(control, schema, path, ws). size schema)", goal_cases)
  case (2 control schema path ws ps properties p ws')
  then show ?case using size_get [of schema _ _ ps] size_as_dict [of ps properties "fst p" "snd p"] by fastforce
next
  case (3 control schema path ws ps properties ws1 items)
  from 3(4,5) show ?case by (simp add: size_get_dict)
next
  case (4 control schema path ws ps properties ws1 items ws2 additional)
  from 4(6,7) show ?case by (simp add: size_get_dict)
next
  case (5 control schema path ws ps properties ws1 items ws2 additional ws3 a children child ws')
  from size_get [OF 5(8)] size_as_list [OF 5(9,10)] 5(9,10) show ?case by auto
qed simp

declare check_fields.simps [simp del]

definition property_names :: "val \<Rightarrow> string \<Rightarrow> string list res" where
  \<comment> \<open>\<open>core[name]["properties"]\<close> as a set of names\<close>
  "property_names defs name =
     rbind (item defs name) (\<lambda>s. rbind (item s ''properties'') (\<lambda>ps. rbind (as_dict ps) (\<lambda>d. Inr (map fst d))))"

definition config_role :: "string \<Rightarrow> bool" where
  \<comment> \<open>\<open>role.endswith('_config')\<close>\<close>
  "config_role role \<longleftrightarrow> suffix ''_config'' role"

definition control_fields :: "val \<Rightarrow> string \<Rightarrow> string list res" where
  "control_fields defs role =
     rbind (property_names defs ''Limits'') (\<lambda>limits.
     rbind (if config_role role then property_names defs ''GenerationConfig'' else Inr []) (\<lambda>generation.
       Inr (reserved_model_fields @ limits @ generation)))"

definition check_role :: "ctab \<Rightarrow> val \<Rightarrow> 'w package \<Rightarrow> string \<Rightarrow> sids \<times> string list \<Rightarrow> (sids \<times> string list) res" where
  "check_role ct defs pkg role st =
     rbind (control_fields defs role) (\<lambda>control.
     case map_of (pk_models pkg) role of
       None \<Rightarrow> Inr st
     | Some model \<Rightarrow>
         (let schema_id = package_schema_id (fst st) (pk_declaration pkg) model
          in if prefix_of vnext schema_id then Inr st
             else (let (sids', r) = model_json_schema ct model schema_id (fst st)
                   in rbind r (\<lambda>schema. rbind (check_fields control (VDict schema) model (snd st)) (\<lambda>ws. Inr (sids', ws))))))"

definition validate_author_package :: "ctab \<Rightarrow> val \<Rightarrow> sids \<Rightarrow> 'w package \<Rightarrow> (sids \<times> string list) res" where
  \<comment> \<open>the warnings; \<open>core_contract\<close> is the contract that \<open>SchemaRegistry()\<close> loads\<close>
  "validate_author_package ct core_contract sids pkg =
     rbind (validate_declaration (pk_declaration pkg)) (\<lambda>_.
     rbind (check_plugin ''adapter'' ''DatasetAdapter'' (pk_adapter pkg)) (\<lambda>_.
     rbind (check_plugin ''environment'' ''Environment'' (pk_environment pkg)) (\<lambda>_.
     rbind (check_plugin ''scorer'' ''Scorer'' (pk_scorer pkg)) (\<lambda>_.
     rbind (guard (case pk_environment pkg of None \<Rightarrow> True
                   | Some c \<Rightarrow> set (own_names c) \<inter> {''step'', ''parse_action''} = {})
              (ValueError ''Define operations in tools.py; Environment has no step or parser'')) (\<lambda>_.
     rbind (item core_contract ''$defs'') (\<lambda>defs.
       rfold (check_role ct defs pkg) model_roles (sids, [])))))))"

section \<open>Loading a package\<close>

definition bind_model ::
  "(string \<Rightarrow> string \<Rightarrow> symbol res) \<Rightarrow> ctab \<Rightarrow> dict \<Rightarrow> string \<times> val \<Rightarrow> sids \<times> (string \<times> string) list \<Rightarrow>
   (sids \<times> (string \<times> string) list) res" where
  "bind_model import_symbol ct d entry st =
     rbind (load_symbol import_symbol (snd entry)) (\<lambda>s.
     case s of
       Model m \<Rightarrow> rbind (bind_schema ct m (package_schema_id (fst st) d m) (fst st)) (\<lambda>sids'.
         Inr (sids', AList.update (fst entry) m (snd st)))
     | _ \<Rightarrow> Inl (TypeError ''must inherit UEnvModel''))"

definition tools_module :: "string \<Rightarrow> string" where
  \<comment> \<open>\<open>module.rsplit('.', 1)[0] + '.tools'\<close>\<close>
  "tools_module m = (case rfind_sub ''.'' m of None \<Rightarrow> m | Some i \<Rightarrow> take i m) @ ''.tools''"

definition declared_here :: "dict \<Rightarrow> string \<Rightarrow> symbol option \<Rightarrow> unit res" where
  "declared_here entrypoints entry s = (case s of
      None \<Rightarrow> Inr ()
    | Some c \<Rightarrow> rbind (ditem entrypoints entry) (\<lambda>e. rbind (as_str e) (\<lambda>ref.
        guard (case c of Plugin p \<Rightarrow> [pc_module p, pc_name p] = split_all (CHR '':'') ref | _ \<Rightarrow> False)
          (ValueError (entry @ '' must reference a class declared in its own module, not an alias'')))))"

definition load_package ::
  "(string \<Rightarrow> string \<Rightarrow> symbol res) \<Rightarrow> (string \<Rightarrow> (string \<times> 'w tool_definition) list option) \<Rightarrow> ctab \<Rightarrow> val \<Rightarrow>
   val \<Rightarrow> val \<Rightarrow> sids \<Rightarrow> (sids \<times> 'w package) res" where
  \<comment> \<open>the parsed \<open>dataset.yaml\<close> and \<open>pyproject.toml\<close>; a module's tools, when the file exists\<close>
  "load_package import_symbol module_tools ct core_contract yaml pyproject sids =
     rbind (load_yaml yaml) (\<lambda>y. rbind (as_dict y) (\<lambda>d.
     rbind (validate_declaration d) (\<lambda>_.
     rbind (item pyproject ''project'') (\<lambda>project.
     rbind (get project ''version'' VNone) (\<lambda>pv. rbind (ditem d ''version'') (\<lambda>dv.
     rbind (guard (py_eq pv dv) (ValueError ''pyproject.toml project.version must match dataset.yaml version'')) (\<lambda>_.
     rbind (ditem d ''entrypoints'') (\<lambda>e. rbind (as_dict e) (\<lambda>entrypoints.
     rbind (ditem entrypoints ''dataset_adapter'') (\<lambda>ra. rbind (load_symbol import_symbol ra) (\<lambda>adapter.
     rbind (ditem entrypoints ''environment'') (\<lambda>re. rbind (load_symbol import_symbol re) (\<lambda>environment.
     rbind (case map_of entrypoints ''scorer'' of None \<Rightarrow> Inr None
            | Some rs \<Rightarrow> rbind (load_symbol import_symbol rs) (\<lambda>s. Inr (Some s))) (\<lambda>scorer.
     rbind (ditem d ''models'') (\<lambda>ms. rbind (as_dict ms) (\<lambda>models.
     rbind (guard (has_key models ''input'') (ValueError ''dataset.yaml models.input is required'')) (\<lambda>_.
     rbind (rfold (bind_model import_symbol ct d) models (sids, [])) (\<lambda>(sids1, bound).
     let pkg = \<lparr>pk_declaration = d, pk_adapter = Some adapter, pk_environment = Some environment, pk_scorer = scorer,
                pk_models = bound, pk_tools = []\<rparr>
     in rbind (validate_author_package ct core_contract sids1 pkg) (\<lambda>(sids2, warnings).
        case environment of
          Plugin c \<Rightarrow>
            (let name = tools_module (pc_module c);
                 found = (case module_tools name of None \<Rightarrow> []
                          | Some ts \<Rightarrow> filter (\<lambda>t. td_entrypoint (snd t) = Some (name @ '':'' @ fst t)) ts)
             in rbind (declared_here entrypoints ''dataset_adapter'' (Some adapter)) (\<lambda>_.
                rbind (declared_here entrypoints ''environment'' (Some environment)) (\<lambda>_.
                rbind (declared_here entrypoints ''scorer'' scorer) (\<lambda>_.
                  Inr (sids2, pkg\<lparr>pk_tools := found\<rparr>)))))
        | _ \<Rightarrow> Inl (AttributeError ''__module__''))))))))))))))))))))"

end
