(* ===== verification/Run_Files.thy ===== *)
theory Run_Files
  imports Package_Loader
begin

text \<open>
  The second half of \<open>reference/package_loader.py\<close>: the manifest generated from a package, the
  choice of a manifest, the lookup of a tool and the expansion of a public run.
\<close>

section \<open>Manifests\<close>

fun pretty :: "lib \<Rightarrow> nat \<Rightarrow> val \<Rightarrow> string res" where
  \<comment> \<open>\<open>json.dumps(v, ensure_ascii=False, indent=2)\<close> at a nesting depth\<close>
  "pretty L n (VList xs) =
     (if xs = [] then Inr ''[]''
      else rbind (rmap (pretty L (Suc n)) xs) (\<lambda>ts.
        Inr (''['' @ [CHR 0x0A] @ replicate (2 * Suc n) (CHR '' '') @
             join ('','' @ [CHR 0x0A] @ replicate (2 * Suc n) (CHR '' '')) ts @
             [CHR 0x0A] @ replicate (2 * n) (CHR '' '') @ '']'')))"
| "pretty L n (VTuple xs) =
     (if xs = [] then Inr ''[]''
      else rbind (rmap (pretty L (Suc n)) xs) (\<lambda>ts.
        Inr (''['' @ [CHR 0x0A] @ replicate (2 * Suc n) (CHR '' '') @
             join ('','' @ [CHR 0x0A] @ replicate (2 * Suc n) (CHR '' '')) ts @
             [CHR 0x0A] @ replicate (2 * n) (CHR '' '') @ '']'')))"
| "pretty L n (VDict d) =
     (if d = [] then Inr ''{}''
      else rbind (rmap (\<lambda>p. rbind (pretty L (Suc n) (snd p)) (\<lambda>t. Inr (json_string (fst p) @ '': '' @ t))) d) (\<lambda>ts.
        Inr (''{'' @ [CHR 0x0A] @ replicate (2 * Suc n) (CHR '' '') @
             join ('','' @ [CHR 0x0A] @ replicate (2 * Suc n) (CHR '' '')) ts @
             [CHR 0x0A] @ replicate (2 * n) (CHR '' '') @ ''}'')))"
| "pretty L n v = dumps L plain_opts v"

definition file_content :: "lib \<Rightarrow> val \<Rightarrow> nat list res" where
  "file_content L v = rbind (pretty L 0 v) (\<lambda>t. Inr (utf8 (t @ [CHR 0x0A])))"

definition artifact :: "lib \<Rightarrow> string \<Rightarrow> nat list \<Rightarrow> val" where
  "artifact L uri content = VDict [(''uri'', VStr uri), (''digest'', VStr (sha256_ref L content)),
     (''size_bytes'', VInt (int (length content))), (''media_type'', VStr ''application/schema+json'')]"

record manifest_build =
  mb_sids :: sids
  mb_ids :: "(string \<times> string) list"        \<comment> \<open>schema identifier of every role\<close>
  mb_files :: "(string \<times> nat list) list"    \<comment> \<open>files written, in order\<close>
  mb_artifacts :: "val list"
  mb_tools :: "val list"

definition add_model_schema ::
  "lib \<Rightarrow> ctab \<Rightarrow> string \<Rightarrow> 'w package \<Rightarrow> string \<Rightarrow> manifest_build \<Rightarrow> manifest_build res" where
  \<comment> \<open>\<open>base_uri\<close> is the output directory as it appears in the URIs\<close>
  "add_model_schema L ct base_uri pkg role b =
     (case map_of (pk_models pkg) role of
        None \<Rightarrow> Inr b
      | Some model \<Rightarrow>
          (let schema_id = package_schema_id (mb_sids b) (pk_declaration pkg) model
           in if prefix_of vnext schema_id \<or> schema_id \<in> snd ` set (mb_ids b)
              then Inr (b\<lparr>mb_ids := AList.update role schema_id (mb_ids b)\<rparr>)
              else (let (sids', r) = model_json_schema ct model schema_id (mb_sids b)
                    in rbind r (\<lambda>schema. rbind (file_content L (VDict schema)) (\<lambda>content.
                       let uri = base_uri @ ''/schemas/'' @ model @ ''.schema.json''
                       in Inr (b\<lparr>mb_sids := sids', mb_ids := AList.update role schema_id (mb_ids b),
                                 mb_files := mb_files b @ [(uri, content)],
                                 mb_artifacts := mb_artifacts b @ [artifact L uri content]\<rparr>))))))"

definition add_tool_schema ::
  "lib \<Rightarrow> string \<Rightarrow> 'w package \<Rightarrow> string \<times> 'w tool_definition \<Rightarrow> manifest_build \<Rightarrow> manifest_build res" where
  "add_tool_schema L base_uri pkg t b =
     (let name = fst t; dfn = snd t; d = pk_declaration pkg
      in rbind (set_item (td_input_schema dfn) ''$id''
                  (VStr (''uenv://packages/'' @ str_of d ''id'' @ ''/'' @ str_of d ''version'' @ ''/tools/'' @ name @ ''/input''))) (\<lambda>schema.
         rbind (file_content L schema) (\<lambda>content.
         let uri = base_uri @ ''/schemas/'' @ name @ ''.input.schema.json''; reference = artifact L uri content
         in Inr (b\<lparr>mb_files := mb_files b @ [(uri, content)], mb_artifacts := mb_artifacts b @ [reference],
                   mb_tools := mb_tools b @
                     [VDict [(''implementation'', VDict [(''id'', VStr (str_of d ''id'' @ ''/tools/'' @ name)),
                                                        (''version'', get_or d ''version'' VNone)]),
                             (''entrypoint'', case td_entrypoint dfn of None \<Rightarrow> VNone | Some e \<Rightarrow> VStr e),
                             (''config_schema'', VStr (vnext @ ''EmptyConfig'')),
                             (''description'', VStr (td_description dfn)), (''input_schema'', reference),
                             (''execution_scope'', VStr (td_execution_scope dfn)),
                             (''required_capabilities'', VList (map VStr (td_required_capabilities dfn))),
                             (''side_effect'', VStr (td_side_effect dfn))]]\<rparr>))))"

definition config_schemas :: "dict \<Rightarrow> (string \<times> string) list \<Rightarrow> dict" where
  "config_schemas entrypoints ids =
     map (\<lambda>role. (role, VStr (case map_of ids (role @ ''_config'') of None \<Rightarrow> vnext @ ''EmptyConfig'' | Some s \<Rightarrow> s)))
       (filter (has_key entrypoints) [''environment'', ''scorer''])"

definition build_manifest ::
  "lib \<Rightarrow> ctab \<Rightarrow> val \<Rightarrow> string \<Rightarrow> 'w package \<Rightarrow> sids \<Rightarrow> (val \<times> (string \<times> nat list) list) res" where
  \<comment> \<open>the manifest and the files written; the list under \<open>schemas\<close> is shared, so it has the tools' schemas too\<close>
  "build_manifest L ct core_contract base_uri pkg sids =
     (let d = pk_declaration pkg
      in rbind (validate_author_package ct core_contract sids pkg) (\<lambda>(sids1, warnings).
         rbind (ditem d ''models'') (\<lambda>ms. rbind (as_dict ms) (\<lambda>models.
         rbind (rfold (add_model_schema L ct base_uri pkg) (map fst models)
                  \<lparr>mb_sids = sids1, mb_ids = [], mb_files = [], mb_artifacts = [], mb_tools = []\<rparr>) (\<lambda>b.
         rbind (ditem d ''entrypoints'') (\<lambda>e. rbind (as_dict e) (\<lambda>entrypoints.
         rbind (lookup (mb_ids b) ''input'' (KeyError ''input'')) (\<lambda>task_schema.
         rbind (rfold (add_tool_schema L base_uri pkg) (pk_tools pkg) b) (\<lambda>b'.
         let manifest = VDict (
               [(''id'', get_or d ''id'' VNone), (''version'', get_or d ''version'' VNone), (''entrypoints'', e),
                (''task_schema'', VStr task_schema), (''config_schemas'', VDict (config_schemas entrypoints (mb_ids b))),
                (''internet_access'', get_or d ''internet_access'' (VBool False)),
                (''required_capabilities'', get_or d ''required_capabilities'' (VList [])),
                (''artifacts'', VList []), (''provided_tools'', VList (mb_tools b')), (''schemas'', VList (mb_artifacts b'))] @
               (case map_of (mb_ids b) ''private_data'' of None \<Rightarrow> [] | Some s \<Rightarrow> [(''private_schema'', VStr s)]) @
               (case map_of d ''runtime'' of None \<Rightarrow> [] | Some r \<Rightarrow> [(''runtime'', r)]))
         in rbind (file_content L manifest) (\<lambda>content.
              Inr (manifest, mb_files b' @ [(base_uri @ ''/manifest.json'', content)])))))))))))"

section \<open>Selection\<close>

definition manifest_matches :: "val \<Rightarrow> string \<Rightarrow> val \<Rightarrow> bool res" where
  "manifest_matches selected role m =
     rbind (get selected ''id'' VNone) (\<lambda>a. rbind (item m ''id'') (\<lambda>b.
       if \<not> py_eq a b then Inr False
       else rbind (get selected ''version'' VNone) (\<lambda>v. rbind (item m ''version'') (\<lambda>w.
         if \<not> py_eq v w then Inr False
         else rbind (item m ''entrypoints'') (\<lambda>e. has e role)))))"

definition select_manifest :: "val list \<Rightarrow> val \<Rightarrow> string \<Rightarrow> val res" where
  "select_manifest manifests selected role =
     rbind (rfilter (manifest_matches selected role) manifests) (\<lambda>matches.
       case matches of [m] \<Rightarrow> Inr m | _ \<Rightarrow> Inl (ValueError ''Expected one registered manifest''))"

definition same_reference :: "val \<Rightarrow> val \<Rightarrow> bool res" where
  "same_reference reference t =
     rbind (item t ''implementation'') (\<lambda>i.
     rbind (item i ''id'') (\<lambda>a. rbind (item reference ''id'') (\<lambda>b.
       if \<not> py_eq a b then Inr False
       else rbind (item i ''version'') (\<lambda>v. rbind (item reference ''version'') (\<lambda>w. Inr (py_eq v w))))))"

definition manifest_tools :: "val list \<Rightarrow> val list res" where
  "manifest_tools manifests =
     rbind (rmap (\<lambda>m. rbind (get m ''provided_tools'' (VList [])) as_list) manifests) (\<lambda>tss. Inr (concat tss))"

definition native_export :: "string \<Rightarrow> val \<Rightarrow> val \<Rightarrow> val \<Rightarrow> string \<times> val \<Rightarrow> val option \<Rightarrow> val option res" where
  \<comment> \<open>one export of an agent; an export found before ends the search\<close>
  "native_export owner_id owner reference agent export found = (case found of
      Some x \<Rightarrow> Inr (Some x)
    | None \<Rightarrow>
        rbind (item reference ''id'') (\<lambda>i.
          if \<not> py_eq i (VStr (owner_id @ ''/tools/'' @ fst export)) then Inr None
          else rbind (item owner ''version'') (\<lambda>ov.
            rbind (item agent ''id'') (\<lambda>ai. rbind (item agent ''version'') (\<lambda>av.
            rbind (guard (py_eq (VDict [(''id'', VStr owner_id), (''version'', ov)]) (VDict [(''id'', ai), (''version'', av)]))
                     (ValueError ''NATIVE_TOOL_AGENT_MISMATCH'')) (\<lambda>_.
            rbind (item reference ''version'') (\<lambda>rv.
            rbind (guard (py_eq rv ov) (ValueError ''NATIVE_TOOL_VERSION_MISMATCH'')) (\<lambda>_.
            rbind (as_dict (snd export)) (\<lambda>dfn.
              Inr (Some (VDict (AList.update ''native_agent'' (VDict [(''id'', VStr owner_id), (''version'', ov)]) dfn))))))))))))"

definition agent_exports :: "val \<Rightarrow> val \<Rightarrow> string \<times> val \<Rightarrow> val option \<Rightarrow> val option res" where
  "agent_exports reference agent owner found = (case found of
      Some x \<Rightarrow> Inr (Some x)
    | None \<Rightarrow>
        rbind (get (snd owner) ''role'' VNone) (\<lambda>role.
          if \<not> py_eq role (VStr ''agent'') then Inr None
          else rbind (get (snd owner) ''provided_tools'' (VDict [])) (\<lambda>p. rbind (as_dict p) (\<lambda>exports.
            rfold (native_export (fst owner) (snd owner) reference agent) exports None))))"

definition lookup_tool :: "val \<Rightarrow> val \<Rightarrow> val \<Rightarrow> val list \<Rightarrow> val res" where
  "lookup_tool catalog reference agent manifests =
     rbind (item catalog ''components'') (\<lambda>c. rbind (as_dict c) (\<lambda>entries.
     rbind (item reference ''id'') (\<lambda>rid. rbind (as_str rid) (\<lambda>key.
     let entry = get_or entries key VNone
     in rbind (if \<not> truthy entry then Inr False
               else rbind (item entry ''role'') (\<lambda>role.
                 if \<not> py_eq role (VStr ''tool'') then Inr False
                 else rbind (item entry ''version'') (\<lambda>v. rbind (item reference ''version'') (\<lambda>w. Inr (py_eq v w))))) (\<lambda>standalone.
        if standalone then Inr entry
        else rbind (manifest_tools manifests) (\<lambda>exported.
             rbind (rfilter (same_reference reference) exported) (\<lambda>matches.
             case matches of
               [x] \<Rightarrow> Inr x
             | x # y # zs \<Rightarrow> Inl (ValueError ''CONFLICTING_TOOL_EXPORT'')
             | [] \<Rightarrow>
                 rbind (rfold (agent_exports reference agent) entries None) (\<lambda>native.
                 case native of
                   None \<Rightarrow> Inl (ValueError ''Unknown tool component'')
                 | Some x \<Rightarrow> Inr x))))))))"

section \<open>Run expansion\<close>

record run_env =
  re_lib :: lib
  re_frames :: nat
  re_registry :: registry
  re_manifests :: "val list"
  re_catalog :: val

definition config_envelope :: "run_env \<Rightarrow> val \<Rightarrow> val \<Rightarrow> val res" where
  "config_envelope R schema_ref v =
     rbind (as_str schema_ref) (\<lambda>name.
     rbind (apply_defaults (re_frames R) (re_registry R) name v) (\<lambda>data.
     rbind (validate (re_lib R) (re_registry R) name data) (\<lambda>_.
       Inr (VDict [(''schema_ref'', schema_ref), (''data'', data)]))))"

definition config_of :: "val \<Rightarrow> string \<Rightarrow> val res" where
  "config_of manifest role = rbind (item manifest ''config_schemas'') (\<lambda>c. item c role)"

definition expand_scoring :: "run_env \<Rightarrow> val \<Rightarrow> val \<Rightarrow> val res" where
  \<comment> \<open>the scoring object of the run, with its configuration completed\<close>
  "expand_scoring R manifest run =
     rbind (get run ''scoring'' VNone) (\<lambda>scoring. case scoring of
       VDict s \<Rightarrow>
         rbind (guard (is_bool (get_or s ''enabled'' VNone)) (ValueError ''scoring.enabled must be an explicit boolean'')) (\<lambda>_.
         rbind (guard (set (map fst s) \<subseteq> {''enabled'', ''config''})
                  (ValueError ''scoring only accepts enabled and config; scorer selection is forbidden'')) (\<lambda>_.
         if truthy (get_or s ''enabled'' VNone)
         then rbind (item run ''dataset_package'') (\<lambda>selected.
              rbind (select_manifest (re_manifests R) selected ''scorer'') (\<lambda>_.
              rbind (config_of manifest ''scorer'') (\<lambda>schema_ref.
              rbind (config_envelope R schema_ref (get_or s ''config'' (VDict []))) (\<lambda>config.
                Inr (VDict (AList.update ''config'' config s))))))
         else rbind (guard (\<not> has_key s ''config'') (ValueError ''scoring.config is forbidden when scoring is disabled'')) (\<lambda>_.
                Inr scoring)))
     | _ \<Rightarrow> Inl (ValueError ''scoring.enabled must be an explicit boolean''))"

definition expand_component :: "run_env \<Rightarrow> string \<Rightarrow> val \<Rightarrow> val res" where
  "expand_component R role run =
     rbind (item run role) (\<lambda>component.
     rbind (item component ''implementation'') (\<lambda>implementation.
     rbind (item implementation ''id'') (\<lambda>i. rbind (as_str i) (\<lambda>component_id.
     rbind (item (re_catalog R) ''components'') (\<lambda>components.
     rbind (get components component_id VNone) (\<lambda>entry.
     rbind (if \<not> truthy entry then Inr False
            else rbind (item entry ''role'') (\<lambda>r.
              if \<not> py_eq r (VStr role) then Inr False
              else rbind (item entry ''version'') (\<lambda>v. rbind (item implementation ''version'') (\<lambda>w. Inr (py_eq v w))))) (\<lambda>known.
     rbind (guard known (ValueError (''Unknown '' @ role @ '' component: '' @ component_id))) (\<lambda>_.
     rbind (item entry ''config_schema'') (\<lambda>schema_ref.
     rbind (get component ''config'' (VDict [])) (\<lambda>given.
     rbind (config_envelope R schema_ref given) (\<lambda>config.
     rbind (set_item component ''config'' config) (\<lambda>component'.
       set_item run role component'))))))))))))"

definition expand_tool :: "run_env \<Rightarrow> val \<Rightarrow> val \<Rightarrow> string list \<times> val list \<Rightarrow> (string list \<times> val list) res" where
  "expand_tool R agent t st =
     rbind (item t ''name'') (\<lambda>nm. rbind (as_str nm) (\<lambda>name.
     rbind (guard (name \<notin> set (fst st)) (ValueError ''DUPLICATE_TOOL_NAME'')) (\<lambda>_.
     rbind (item t ''implementation'') (\<lambda>reference.
     rbind (lookup_tool (re_catalog R) reference agent (re_manifests R)) (\<lambda>entry.
     rbind (item entry ''config_schema'') (\<lambda>schema_ref.
     rbind (get t ''config'' (VDict [])) (\<lambda>given.
     rbind (config_envelope R schema_ref given) (\<lambda>config.
     rbind (set_item t ''config'' config) (\<lambda>t'.
       Inr (name # fst st, snd st @ [t']))))))))))"

definition expand_run :: "run_env \<Rightarrow> val \<Rightarrow> val res" where
  "expand_run R public_run =
     rbind (has public_run ''schema_version'') (\<lambda>versioned.
     rbind (guard (\<not> versioned) (ValueError ''schema_version is generated by the submission boundary'')) (\<lambda>_.
     rbind (apply_defaults (re_frames R) (re_registry R) ''RunSpec'' public_run) (\<lambda>run0.
     rbind (set_item run0 ''schema_version'' (VStr ''vnext.3'')) (\<lambda>run1.
     rbind (has run1 ''scorer'') (\<lambda>scorer.
     rbind (guard (\<not> scorer) (ValueError ''Select dataset_package once; scorer selection is forbidden'')) (\<lambda>_.
     rbind (item run1 ''dataset_package'') (\<lambda>selected.
     rbind (select_manifest (re_manifests R) selected ''environment'') (\<lambda>manifest.
     rbind (config_of manifest ''environment'') (\<lambda>schema_ref.
     rbind (get run1 ''environment'' (VDict [])) (\<lambda>given.
     rbind (config_envelope R schema_ref given) (\<lambda>environment.
     rbind (set_item run1 ''environment'' environment) (\<lambda>run2.
     rbind (expand_scoring R manifest run2) (\<lambda>scoring.
     rbind (set_item run2 ''scoring'' scoring) (\<lambda>run3.
     rbind (expand_component R ''agent'' run3) (\<lambda>run4.
     rbind (expand_component R ''backend'' run4) (\<lambda>run5.
     rbind (item run5 ''tools'') (\<lambda>ts. rbind (as_list ts) (\<lambda>tools.
     rbind (if tools = [] then Inr VNone
            else rbind (item run5 ''agent'') (\<lambda>a. item a ''implementation'')) (\<lambda>agent.
     rbind (rfold (expand_tool R agent) tools ([], [])) (\<lambda>(names, tools').
     rbind (set_item run5 ''tools'' (VList tools')) (\<lambda>run6.
     rbind (validate (re_lib R) (re_registry R) ''RunSpec'' run6) (\<lambda>_.
       Inr run6))))))))))))))))))))))"

end
