(* ===== verification/Loader_Correct.thy ===== *)
theory Loader_Correct
  imports Run_Files Sdk_Correct Modeling_Correct
begin

text \<open>
  What the package loader guarantees: an expanded run is complete and validated, and an accepted
  package model shadows no system field at any depth.
\<close>

section \<open>Expanded runs\<close>

lemma set_item_item: "set_item v k x = Inr w \<Longrightarrow> item w k' = (if k' = k then Inr x else item v k')"
  by (cases v) (auto simp: set_item_def ditem_def)

lemma set_item_get: "set_item v k x = Inr w \<Longrightarrow> get w k' d = (if k' = k then Inr x else get v k' d)"
  by (cases v) (auto simp: set_item_def get_or_def)

lemma set_item_has: "set_item v k x = Inr w \<Longrightarrow> has w k' = (if k' = k then Inr True else has v k')"
  by (cases v) (auto simp: set_item_def)


definition completed :: "run_env \<Rightarrow> val \<Rightarrow> val \<Rightarrow> bool" where
  \<comment> \<open>a configuration with its schema: what was given, with every declared default, and it conforms\<close>
  "completed R given v \<longleftrightarrow> (\<exists>name data. v = VDict [(''schema_ref'', VStr name), (''data'', data)] \<and>
     completes (re_registry R) name given data \<and> validate (re_lib R) (re_registry R) name data = Inr ())"

definition completed_part :: "run_env \<Rightarrow> val \<Rightarrow> val \<Rightarrow> bool" where
  \<comment> \<open>an agent, backend or tool whose \<open>config\<close> became such a configuration\<close>
  "completed_part R before after \<longleftrightarrow> (\<exists>given config. get before ''config'' (VDict []) = Inr given \<and>
     item after ''config'' = Inr config \<and> completed R given config)"

definition completed_scoring :: "run_env \<Rightarrow> val \<Rightarrow> val \<Rightarrow> bool" where
  \<comment> \<open>a configuration exactly when the run is scored\<close>
  "completed_scoring R before after \<longleftrightarrow> (\<exists>s s' enabled. before = VDict s \<and> after = VDict s' \<and>
     map_of s' ''enabled'' = Some (VBool enabled) \<and>
     (if enabled then \<exists>config. map_of s' ''config'' = Some config \<and> completed R (get_or s ''config'' (VDict [])) config
      else s' = s \<and> \<not> has_key s ''config''))"

lemma config_envelope_completed: "config_envelope R s v = Inr c \<Longrightarrow> completed R v c"
  by (cases s) (auto simp: config_envelope_def completed_def rbind_Inr_iff dest: apply_defaults_completes)

lemma expand_scoring_completed:
  assumes "expand_scoring R manifest run = Inr scoring"
  shows "\<exists>before. get run ''scoring'' VNone = Inr before \<and> completed_scoring R before scoring"
proof -
  from assms obtain x where x: "get run ''scoring'' VNone = Inr x" by (auto simp: expand_scoring_def rbind_Inr_iff)
  with assms obtain s where "x = VDict s" by (cases x) (auto simp: expand_scoring_def)
  with x assms have s: "get run ''scoring'' VNone = Inr (VDict s)" "is_bool (get_or s ''enabled'' VNone)"
    and r: "(if truthy (get_or s ''enabled'' VNone)
         then rbind (item run ''dataset_package'') (\<lambda>selected.
              rbind (select_manifest (re_manifests R) selected ''scorer'') (\<lambda>_.
              rbind (config_of manifest ''scorer'') (\<lambda>schema_ref.
              rbind (config_envelope R schema_ref (get_or s ''config'' (VDict []))) (\<lambda>config.
                Inr (VDict (AList.update ''config'' config s))))))
         else rbind (guard (\<not> has_key s ''config'') (ValueError ''scoring.config is forbidden when scoring is disabled'')) (\<lambda>_.
                Inr (VDict s))) = Inr scoring"
    by (simp_all add: expand_scoring_def rbind_Inr_iff guard_Inr_iff)
  from s(2) obtain b where b: "map_of s ''enabled'' = Some (VBool b)"
    by (cases "get_or s ''enabled'' VNone") (auto simp: get_or_def split: option.splits)
  then have t: "truthy (get_or s ''enabled'' VNone) = b" by (simp add: get_or_def)
  have "completed_scoring R (VDict s) scoring"
  proof (cases b)
    case True
    with r t obtain config where c: "completed R (get_or s ''config'' (VDict [])) config"
      and "scoring = VDict (AList.update ''config'' config s)"
      by (auto simp: rbind_Inr_iff dest: config_envelope_completed)
    with b True show ?thesis by (auto simp: completed_scoring_def update_conv')
  next
    case False
    with r t b show ?thesis by (auto simp: completed_scoring_def rbind_Inr_iff guard_Inr_iff)
  qed
  with s(1) show ?thesis by blast
qed

lemma expand_component_sets:
  assumes "expand_component R role run = Inr run'"
  obtains c given config c' where "item run role = Inr c" "get c ''config'' (VDict []) = Inr given" "completed R given config"
    "set_item c ''config'' config = Inr c'" "set_item run role c' = Inr run'"
proof -
  from assms obtain c given config c' s where "item run role = Inr c" "get c ''config'' (VDict []) = Inr given"
    "config_envelope R s given = Inr config" "set_item c ''config'' config = Inr c'"
    "set_item run role c' = Inr run'" unfolding expand_component_def rbind_Inr_iff by blast
  with config_envelope_completed that show thesis by blast
qed

lemma expand_component_item:
  assumes "expand_component R role run = Inr run'" "k \<noteq> role"
  shows "item run' k = item run k" "has run' k = has run k"
proof -
  from expand_component_sets [OF assms(1)] obtain c' where "set_item run role c' = Inr run'" by blast
  from set_item_item [OF this] set_item_has [OF this] assms(2)
  show "item run' k = item run k" "has run' k = has run k" by simp_all
qed

lemma expand_component_config:
  assumes "expand_component R role run = Inr run'"
  shows "\<exists>before after. item run role = Inr before \<and> item run' role = Inr after \<and> completed_part R before after"
proof -
  from expand_component_sets [OF assms] obtain c given config c' where c: "item run role = Inr c"
    "get c ''config'' (VDict []) = Inr given" "completed R given config"
    "set_item c ''config'' config = Inr c'" "set_item run role c' = Inr run'" .
  from set_item_item [OF c(4)] set_item_item [OF c(5)] c(1-3) show ?thesis by (auto simp: completed_part_def)
qed

definition named :: "string \<Rightarrow> val \<Rightarrow> bool" where
  "named name t \<longleftrightarrow> item t ''name'' = Inr (VStr name)"

lemma expand_tool_completed:
  assumes "expand_tool R agent t st = Inr st'"
  shows "\<exists>name t'. name \<notin> set (fst st) \<and> st' = (name # fst st, snd st @ [t']) \<and> named name t' \<and> completed_part R t t'"
proof -
  from assms obtain name nm t' given c where *: "item t ''name'' = Inr nm" "as_str nm = Inr name" "name \<notin> set (fst st)"
    "get t ''config'' (VDict []) = Inr given" "completed R given c" "set_item t ''config'' c = Inr t'"
    "st' = (name # fst st, snd st @ [t'])"
    by (auto simp: expand_tool_def rbind_Inr_iff guard_Inr_iff dest!: config_envelope_completed)
  from *(2) have "nm = VStr name" by (cases nm) auto
  with * show ?thesis by (auto simp: named_def completed_part_def set_item_item)
qed

lemma expand_tools_completed:
  "rfold (expand_tool R agent) ts st = Inr st' \<Longrightarrow> distinct (fst st) \<Longrightarrow> list_all2 named (rev (fst st)) (snd st) \<Longrightarrow>
   distinct (fst st') \<and> list_all2 named (rev (fst st')) (snd st') \<and> (\<exists>us. snd st' = snd st @ us \<and> list_all2 (completed_part R) ts us)"
proof (induction ts arbitrary: st)
  case (Cons t ts)
  then obtain st1 where s: "expand_tool R agent t st = Inr st1" "rfold (expand_tool R agent) ts st1 = Inr st'"
    by (auto simp: rbind_Inr_iff)
  from expand_tool_completed [OF s(1)] obtain name u where u: "name \<notin> set (fst st)" "st1 = (name # fst st, snd st @ [u])"
    "named name u" "completed_part R t u" by blast
  from Cons.IH [OF s(2)] Cons.prems(2,3) u show ?case by (auto simp: list_all2_appendI)
qed simp


section \<open>Reserved fields\<close>

text \<open>The property names that occur in a schema at any depth.\<close>

inductive field_of :: "val \<Rightarrow> string \<Rightarrow> bool" where
  here: "get s ''properties'' (VDict []) = Inr (VDict ps) \<Longrightarrow> (n, c) \<in> set ps \<Longrightarrow> field_of s n"
| inside: "get s ''properties'' (VDict []) = Inr (VDict ps) \<Longrightarrow> (k, c) \<in> set ps \<Longrightarrow> field_of c n \<Longrightarrow> field_of s n"
| element: "get s ''items'' VNone = Inr c \<Longrightarrow> is_dict c \<Longrightarrow> field_of c n \<Longrightarrow> field_of s n"
| additional: "get s ''additionalProperties'' VNone = Inr c \<Longrightarrow> is_dict c \<Longrightarrow> field_of c n \<Longrightarrow> field_of s n"
| choice: "get s ''anyOf'' (VList []) = Inr a \<Longrightarrow> as_list a = Inr cs \<Longrightarrow> c \<in> set cs \<Longrightarrow> field_of c n \<Longrightarrow> field_of s n"

lemma rfold_all: "rfold f xs b = Inr c \<Longrightarrow> x \<in> set xs \<Longrightarrow> \<exists>b' c'. f x b' = Inr c'"
  by (induction xs arbitrary: b) (auto simp: rbind_Inr_iff)

lemma check_fields_parts:
  assumes "check_fields control schema path ws = Inr ws'"
  shows "get schema ''properties'' (VDict []) = Inr (VDict ps) \<Longrightarrow> (n, c) \<in> set ps \<Longrightarrow>
      n \<notin> set control \<and> (\<exists>p u v. check_fields control c p u = Inr v)"
    and "get schema ''items'' VNone = Inr c \<Longrightarrow> is_dict c \<Longrightarrow> \<exists>p u v. check_fields control c p u = Inr v"
    and "get schema ''additionalProperties'' VNone = Inr c \<Longrightarrow> is_dict c \<Longrightarrow> \<exists>p u v. check_fields control c p u = Inr v"
    and "get schema ''anyOf'' (VList []) = Inr a \<Longrightarrow> as_list a = Inr cs \<Longrightarrow> c \<in> set cs \<Longrightarrow>
      \<exists>p u v. check_fields control c p u = Inr v"
proof -
  from assms obtain ps' pd ws1 items ws2 extra ws3 a' cs' where
    c: "get schema ''properties'' (VDict []) = Inr ps'" "as_dict ps' = Inr pd"
      "rfold (\<lambda>p ws. if fst p \<in> set control then Inl (ValueError (path @ ''.'' @ fst p @ '' shadows system fields''))
          else check_fields control (snd p) (path @ ''.'' @ fst p) (ws @ suspect_warning path (fst p))) pd ws = Inr ws1"
      "get schema ''items'' VNone = Inr items"
      "(if is_dict items then check_fields control items (path @ ''[]'') ws1 else Inr ws1) = Inr ws2"
      "get schema ''additionalProperties'' VNone = Inr extra"
      "(if is_dict extra then check_fields control extra (path @ ''[]'') ws2 else Inr ws2) = Inr ws3"
      "get schema ''anyOf'' (VList []) = Inr a'" "as_list a' = Inr cs'"
      "rfold (\<lambda>child ws. check_fields control child path ws) cs' ws3 = Inr ws'"
    by (subst (asm) check_fields.simps) (auto simp only: rbind_Inr_iff)
  show "get schema ''properties'' (VDict []) = Inr (VDict ps) \<Longrightarrow> (n, c) \<in> set ps \<Longrightarrow>
      n \<notin> set control \<and> (\<exists>p u v. check_fields control c p u = Inr v)"
    using c(1,2) rfold_all [OF c(3), of "(n, c)"] by (auto split: if_splits)
  show "get schema ''items'' VNone = Inr c \<Longrightarrow> is_dict c \<Longrightarrow> \<exists>p u v. check_fields control c p u = Inr v"
    using c(4,5) by auto
  show "get schema ''additionalProperties'' VNone = Inr c \<Longrightarrow> is_dict c \<Longrightarrow> \<exists>p u v. check_fields control c p u = Inr v"
    using c(6,7) by auto
  show "get schema ''anyOf'' (VList []) = Inr a \<Longrightarrow> as_list a = Inr cs \<Longrightarrow> c \<in> set cs \<Longrightarrow>
      \<exists>p u v. check_fields control c p u = Inr v"
    using c(8,9) rfold_all [OF c(10), of c] by auto
qed

lemma check_fields_sound: "field_of s n \<Longrightarrow> check_fields control s path ws = Inr ws' \<Longrightarrow> n \<notin> set control"
  by (induction arbitrary: path ws ws' rule: field_of.induct) (blast dest: check_fields_parts)+

lemma field_of_identified:
  assumes "field_of (VDict body) n"
  shows "field_of (VDict ([(''$schema'', s), (''$id'', i)] @ body)) n"
  using assms
proof cases
  case (here ps c)
  show ?thesis by (rule field_of.here [of _ ps n c]) (use here in \<open>simp_all add: get_or_def\<close>)
next
  case (inside ps k c)
  show ?thesis by (rule field_of.inside [of _ ps k c]) (use inside in \<open>simp_all add: get_or_def\<close>)
next
  case (element c)
  show ?thesis by (rule field_of.element [of _ c]) (use element in \<open>simp_all add: get_or_def\<close>)
next
  case (additional c)
  show ?thesis by (rule field_of.additional [of _ c]) (use additional in \<open>simp_all add: get_or_def\<close>)
next
  case (choice a cs c)
  show ?thesis by (rule field_of.choice [of _ a cs c]) (use choice in \<open>simp_all add: get_or_def\<close>)
qed

section \<open>Accepted packages\<close>

lemma package_schema_id_update:
  assumes "\<not> prefix_of vnext (package_schema_id sids d m)"
  shows "package_schema_id (AList.update m (package_schema_id sids d m) sids) d m' = package_schema_id sids d m'"
  using assms by (auto simp: package_schema_id_def split: option.splits if_splits)

lemma model_json_schema_sids:
  "model_json_schema ct m i sids = (sids', Inr schema) \<Longrightarrow> sids' = AList.update m i sids \<and>
   (\<exists>body. model_schema ct m [] = Inr body \<and> schema = [(''$schema'', VStr ''https://json-schema.org/draft/2020-12/schema''),
                   (''$id'', VStr i)] @ body)"
  by (auto simp: model_json_schema_def bind_schema_def rbind_Inr_iff rbind_Inl_iff split: sum.splits option.splits if_splits)

lemma check_role_cases:
  assumes "check_role ct defs pkg role st = Inr st'"
  obtains "st' = st" "\<forall>model. map_of (pk_models pkg) role = Some model \<longrightarrow>
      prefix_of vnext (package_schema_id (fst st) (pk_declaration pkg) model)"
  | model body control ws where "map_of (pk_models pkg) role = Some model"
    "\<not> prefix_of vnext (package_schema_id (fst st) (pk_declaration pkg) model)"
    "model_schema ct model [] = Inr body" "set reserved_model_fields \<subseteq> set control"
    "check_fields control (VDict ([(''$schema'', VStr ''https://json-schema.org/draft/2020-12/schema''),
       (''$id'', VStr (package_schema_id (fst st) (pk_declaration pkg) model))] @ body)) model (snd st) = Inr ws"
    "st' = (AList.update model (package_schema_id (fst st) (pk_declaration pkg) model) (fst st), ws)"
proof -
  from assms obtain control where c: "control_fields defs role = Inr control" by (auto simp: check_role_def rbind_Inr_iff)
  then have r: "set reserved_model_fields \<subseteq> set control" by (auto simp: control_fields_def rbind_Inr_iff)
  show thesis
  proof (cases "map_of (pk_models pkg) role")
    case None
    with assms c that(1) show thesis by (simp add: check_role_def)
  next
    case (Some model)
    let ?i = "package_schema_id (fst st) (pk_declaration pkg) model"
    show thesis
    proof (cases "prefix_of vnext ?i")
      case True
      with assms c Some that(1) show thesis by (simp add: check_role_def Let_def)
    next
      case False
      obtain sids' x where m: "model_json_schema ct model ?i (fst st) = (sids', x)" by (cases "model_json_schema ct model ?i (fst st)")
      with assms c Some False obtain schema ws where x: "x = Inr schema"
        "check_fields control (VDict schema) model (snd st) = Inr ws" "st' = (sids', ws)"
        by (auto simp: check_role_def Let_def rbind_Inr_iff)
      from model_json_schema_sids [OF m [unfolded x(1)]] x(2,3) that(2) [OF Some False _ r] show thesis by auto
    qed
  qed
qed

lemma check_role_keeps:
  assumes "check_role ct defs pkg role st = Inr st'"
  shows "package_schema_id (fst st') (pk_declaration pkg) m = package_schema_id (fst st) (pk_declaration pkg) m"
  using assms by (cases rule: check_role_cases) (simp_all add: package_schema_id_update)

lemma check_roles_keep:
  "rfold (check_role ct defs pkg) roles st = Inr st' \<Longrightarrow>
   package_schema_id (fst st') (pk_declaration pkg) m = package_schema_id (fst st) (pk_declaration pkg) m"
proof (induction roles arbitrary: st)
  case (Cons role roles)
  then obtain st1 where s: "check_role ct defs pkg role st = Inr st1" "rfold (check_role ct defs pkg) roles st1 = Inr st'"
    by (auto simp: rbind_Inr_iff)
  from Cons.IH [OF s(2)] check_role_keeps [OF s(1)] show ?case by simp
qed simp

lemma check_roles_schema:
  assumes "rfold (check_role ct defs pkg) roles st = Inr st'" "role \<in> set roles" "map_of (pk_models pkg) role = Some model"
    and "\<not> prefix_of vnext (package_schema_id (fst st) (pk_declaration pkg) model)"
  shows "\<exists>body. model_schema ct model [] = Inr body \<and> {n. field_of (VDict body) n} \<inter> set reserved_model_fields = {}"
  using assms
proof (induction roles arbitrary: st)
  case (Cons r roles)
  then obtain st1 where s: "check_role ct defs pkg r st = Inr st1" "rfold (check_role ct defs pkg) roles st1 = Inr st'"
    by (auto simp: rbind_Inr_iff)
  show ?case
  proof (cases "r = role")
    case True
    from s(1) show ?thesis
    proof (cases rule: check_role_cases)
      case (2 model' body control ws)
      from 2(5) have "n \<notin> set control" if "field_of (VDict body) n" for n
        by (rule check_fields_sound [OF field_of_identified [OF that]])
      with 2 True Cons.prems(3) show ?thesis by auto
    qed (use True Cons.prems(3,4) in blast)
  next
    case False
    with Cons.prems check_role_keeps [OF s(1)] show ?thesis by (intro Cons.IH [OF s(2)]) auto
  qed
qed simp

text \<open>No field of an accepted author model, at any depth of its schema, has the name of a reserved
  system field.\<close>
theorem accepted_models_shadow_no_system_field:
  assumes "validate_author_package ct contract sids pkg = Inr result"
    and "map_of (pk_models pkg) role = Some model" "role \<in> set model_roles"
    and "\<not> prefix_of vnext (package_schema_id sids (pk_declaration pkg) model)"
  shows "\<exists>body. model_schema ct model [] = Inr body \<and> {n. field_of (VDict body) n} \<inter> set reserved_model_fields = {}"
proof -
  from assms(1) obtain defs where "rfold (check_role ct defs pkg) model_roles (sids, []) = Inr result"
    by (auto simp: validate_author_package_def rbind_Inr_iff)
  from check_roles_schema [OF this assms(3,2)] assms(4) show ?thesis by simp
qed

section \<open>A small package and run\<close>

definition gsm8k_package :: "nat package" where
  "gsm8k_package = \<lparr>pk_declaration = [(''id'', VStr ''gsm8k''), (''version'', VStr ''1''),
       (''entrypoints'', VDict [(''dataset_adapter'', VStr ''gsm8k.dataset_adapter:A''), (''environment'', VStr ''gsm8k.environment:E'')]),
       (''models'', VDict [(''input'', VStr ''gsm8k.models:Gsm8kInput'')])],
     pk_adapter = None, pk_environment = None, pk_scorer = None, pk_models = [(''input'', ''Gsm8kInput'')], pk_tools = []\<rparr>"

definition small_contract :: val where
  "small_contract = VDict [(''$id'', VStr ''urn:core''), (''$defs'', VDict [
     (''Limits'', VDict [(''properties'', VDict [(''max_generations'', VDict [])])]),
     (''GenerationConfig'', VDict [(''properties'', VDict [])]),
     (''RunSpec'', VDict [(''properties'', VDict [(''tools'', VDict [(''default'', VList [])])])])])]"

theorem accepted_models_shadow_no_system_field_witness:
  "\<exists>body. model_schema package_models ''Gsm8kInput'' [] = Inr body \<and>
     {n. field_of (VDict body) n} \<inter> set reserved_model_fields = {}"
proof -
  have "ok (validate_author_package package_models small_contract [] gsm8k_package)" by code_simp
  then obtain result where r: "validate_author_package package_models small_contract [] gsm8k_package = Inr result"
    by (auto simp: ok_iff)
  have m: "map_of (pk_models gsm8k_package) ''input'' = Some ''Gsm8kInput''" "''input'' \<in> set model_roles"
    "\<not> prefix_of vnext (package_schema_id [] (pk_declaration gsm8k_package) ''Gsm8kInput'')" by code_simp+
  from accepted_models_shadow_no_system_field [OF r m] show ?thesis .
qed

definition small_reference :: "string \<Rightarrow> val" where
  "small_reference i = VDict [(''id'', VStr i), (''version'', VStr ''1'')]"

definition small_run_env :: run_env where
  "small_run_env = \<lparr>re_lib = rational_lib, re_frames = 9,
     re_registry = \<lparr>core = small_contract, extensions = [(''urn:empty'', VDict []), (''urn:digits'', VDict [(''properties'', VDict [(''digits'', VDict [(''default'', VInt 3)])])])]\<rparr>,
     re_manifests = [VDict [(''id'', VStr ''gsm8k''), (''version'', VStr ''1''), (''entrypoints'', VDict [(''environment'', VNone), (''scorer'', VNone)]),
       (''config_schemas'', VDict [(''environment'', VStr ''urn:empty''), (''scorer'', VStr ''urn:digits'')])]],
     re_catalog = VDict [(''components'', VDict (map (\<lambda>(i, role). (i, VDict [(''role'', VStr role), (''version'', VStr ''1''),
       (''config_schema'', VStr ''urn:empty'')])) [(''plain'', ''agent''), (''process'', ''backend'')]))]\<rparr>"

definition small_run :: val where
  "small_run = VDict [(''dataset_package'', small_reference ''gsm8k''), (''scoring'', VDict [(''enabled'', VBool True)]),
     (''agent'', VDict [(''implementation'', small_reference ''plain'')]),
     (''backend'', VDict [(''implementation'', small_reference ''process'')])]"


end
