(* ===== verification/Fixture_Plan.thy ===== *)
theory Fixture_Plan
  imports Run_Files Canonical_Json
begin

text \<open>
  The resolver of execution plans used for fixtures (\<open>reference/fixture_plan.py\<close>): checks of the
  selected components, resolution of every reference to a digest, capabilities, image choice, and
  the seal over the canonical bytes of the plan.
\<close>

definition digest :: "lib \<Rightarrow> val \<Rightarrow> string res" where
  "digest L v = rbind (canonical_bytes L v) (\<lambda>b. Inr (sha256_ref L b))"

definition resolved :: "lib \<Rightarrow> val \<Rightarrow> val res" where
  \<comment> \<open>\<open>setdefault\<close> evaluates the digest in any case\<close>
  "resolved L reference =
     rbind (digest L (VDict [(''fixture_component'', reference)])) (\<lambda>s.
     rbind (as_dict reference) (\<lambda>d.
       Inr (VDict (if has_key d ''digest'' then d else AList.update ''digest'' (VStr s) d))))"

definition seal_fixture_plan :: "lib \<Rightarrow> val \<Rightarrow> val res" where
  "seal_fixture_plan L plan =
     rbind (as_dict plan) (\<lambda>d.
     let result = AList.delete ''plan_digest'' d
     in rbind (digest L (VDict result)) (\<lambda>s.
          Inr (VDict (AList.update ''plan_digest'' (VStr s) result))))"

definition check_plan_schemas :: "val list \<Rightarrow> val \<Rightarrow> val \<Rightarrow> val \<Rightarrow> unit res" where
  "check_plan_schemas manifests episode run manifest =
     rbind (item run ''environment'') (\<lambda>environment. rbind (item environment ''schema_ref'') (\<lambda>a.
     rbind (config_of manifest ''environment'') (\<lambda>b.
     rbind (guard (py_eq a b) (ValueError ''COMPONENT_CONFIG_SCHEMA_MISMATCH'')) (\<lambda>_.
     rbind (item episode ''task'') (\<lambda>task. rbind (item task ''input'') (\<lambda>i. rbind (item i ''schema_ref'') (\<lambda>c.
     rbind (item manifest ''task_schema'') (\<lambda>d.
     rbind (guard (py_eq c d) (ValueError ''COMPONENT_TASK_SCHEMA_MISMATCH'')) (\<lambda>_.
     rbind (item run ''scoring'') (\<lambda>scoring. rbind (item scoring ''enabled'') (\<lambda>enabled.
       if \<not> truthy enabled then Inr ()
       else rbind (item run ''dataset_package'') (\<lambda>selected.
            rbind (select_manifest manifests selected ''scorer'') (\<lambda>_.
            rbind (item scoring ''config'') (\<lambda>config. rbind (item config ''schema_ref'') (\<lambda>e.
            rbind (config_of manifest ''scorer'') (\<lambda>f.
            rbind (guard (py_eq e f) (ValueError ''COMPONENT_CONFIG_SCHEMA_MISMATCH'')) (\<lambda>_.
            rbind (has episode ''private_data'') (\<lambda>private.
              if \<not> private then Inr ()
              else rbind (item episode ''private_data'') (\<lambda>p. rbind (item p ''schema_ref'') (\<lambda>g.
                   rbind (get manifest ''private_schema'' VNone) (\<lambda>h.
                     guard (py_eq g h) (ValueError ''SCORER_PRIVATE_SCHEMA_MISMATCH''))))))))))))))))))))))"

definition keep_items :: "val \<Rightarrow> string list \<Rightarrow> dict res" where
  \<comment> \<open>the named items that are there\<close>
  "keep_items v ks =
     rbind (rfilter (has v) ks) (\<lambda>present. rmap (\<lambda>k. rbind (item v k) (\<lambda>x. Inr (k, x))) present)"

definition plan_component :: "lib \<Rightarrow> val \<Rightarrow> string \<Rightarrow> (string \<times> val) res" where
  "plan_component L run role =
     rbind (item run role) (\<lambda>c. rbind (item c ''implementation'') (\<lambda>i.
     rbind (resolved L i) (\<lambda>r. rbind (set_item c ''implementation'' r) (\<lambda>c'. Inr (role, c')))))"

definition plan_head :: "lib \<Rightarrow> val \<Rightarrow> val \<Rightarrow> dict res" where
  \<comment> \<open>everything up to the resolved agent and backend\<close>
  "plan_head L episode run =
     rbind (item run ''run_id'') (\<lambda>run_id.
     rbind (rmap (\<lambda>k. rbind (item episode k) (\<lambda>x. Inr (k, x))) [''episode_id'', ''task'', ''seed'']) (\<lambda>ids.
     rbind (item run ''scoring'') (\<lambda>scoring. rbind (item scoring ''enabled'') (\<lambda>enabled.
     rbind (if truthy enabled then keep_items episode [''private_data''] else Inr []) (\<lambda>private.
     rbind (keep_items run [''purpose'', ''model'', ''limits'', ''training'', ''environment'', ''scoring'']) (\<lambda>kept.
     rbind (item run ''dataset_package'') (\<lambda>p. rbind (resolved L p) (\<lambda>package.
     rbind (rmap (plan_component L run) [''agent'', ''backend'']) (\<lambda>components.
       Inr ([(''run_id'', run_id)] @ ids @ private @ kept @ [(''dataset_package'', package)] @ components))))))))))"

definition add_caps :: "val \<Rightarrow> string list \<Rightarrow> string list res" where
  \<comment> \<open>\<open>required.update(capabilities)\<close>\<close>
  "add_caps v required = rbind (as_list v) (\<lambda>xs. rbind (rmap as_str xs) (\<lambda>names. Inr (List.union names required)))"

definition plan_tool ::
  "lib \<Rightarrow> val \<Rightarrow> val list \<Rightarrow> val \<Rightarrow> val \<Rightarrow> val \<Rightarrow> string list \<times> val list \<Rightarrow> (string list \<times> val list) res" where
  "plan_tool L catalog manifests run owner binding st =
     rbind (item binding ''implementation'') (\<lambda>reference.
     rbind (item run ''agent'') (\<lambda>agent. rbind (item agent ''implementation'') (\<lambda>agent_ref.
     rbind (lookup_tool catalog reference agent_ref manifests) (\<lambda>component.
     rbind (item component ''execution_scope'') (\<lambda>scope.
     rbind (item component ''required_capabilities'') (\<lambda>capabilities.
     rbind (add_caps capabilities (fst st)) (\<lambda>required.
     rbind (item binding ''name'') (\<lambda>name. rbind (resolved L reference) (\<lambda>implementation.
     rbind (item binding ''config'') (\<lambda>config.
     rbind (has component ''native_agent'') (\<lambda>native.
     rbind (if \<not> native then Inr (implementation, [])
            else rbind (item owner ''digest'') (\<lambda>s. rbind (set_item implementation ''digest'' s) (\<lambda>i.
                   Inr (i, [(''native_agent'', owner)])))) (\<lambda>(implementation', tail).
       Inr (required, snd st @ [VDict ([(''name'', name), (''implementation'', implementation'), (''config'', config),
              (''execution_scope'', scope), (''required_capabilities'', capabilities)] @ tail)])))))))))))))"

definition image_choice :: "(string \<times> val) list \<Rightarrow> (string \<times> val) res" where
  \<comment> \<open>the first candidate that names a runtime\<close>
  "image_choice candidates =
     rbind (rfilter (\<lambda>c. has (snd c) ''runtime'') candidates) (\<lambda>cs. case cs of
       [] \<Rightarrow> Inl (ValueError ''MISSING_IMAGE'')
     | c # rest \<Rightarrow> rbind (item (snd c) ''runtime'') (\<lambda>r. rbind (item r ''image'') (\<lambda>image. Inr (fst c, image))))"

definition plan_runtime :: "val \<Rightarrow> val \<Rightarrow> val \<Rightarrow> val \<Rightarrow> dict res" where
  "plan_runtime catalog run episode manifest =
     rbind (item catalog ''components'') (\<lambda>components.
     rbind (item run ''backend'') (\<lambda>b. rbind (item b ''implementation'') (\<lambda>i. rbind (item i ''id'') (\<lambda>k. rbind (as_str k) (\<lambda>key.
     rbind (item components key) (\<lambda>backend.
     rbind (item backend ''role'') (\<lambda>role.
     rbind (guard (py_eq role (VStr ''backend'')) (ValueError ''BACKEND_ROLE_MISMATCH'')) (\<lambda>_.
     rbind (item backend ''consumes_image'') (\<lambda>is_container.
       if truthy is_container
       then rbind (item episode ''task'') (\<lambda>task.
            rbind (image_choice [(''run'', run), (''task'', task), (''package'', manifest)]) (\<lambda>(source, image).
              Inr [(''runtime'', VDict [(''image'', image), (''image_source'', VStr source)])]))
       else rbind (has run ''runtime'') (\<lambda>given.
            rbind (guard (\<not> given) (ValueError ''PROCESS_IMAGE_CONFLICT'')) (\<lambda>_. Inr [])))))))))))"

definition fixture_plan :: "lib \<Rightarrow> registry \<Rightarrow> val \<Rightarrow> val \<Rightarrow> val list \<Rightarrow> val \<Rightarrow> val res" where
  "fixture_plan L reg episode run manifests catalog =
     rbind (validate L reg ''EpisodeRequest'' episode) (\<lambda>_.
     rbind (validate L reg ''RunSpec'' run) (\<lambda>_.
     rbind (item run ''dataset_package'') (\<lambda>selected.
     rbind (select_manifest manifests selected ''environment'') (\<lambda>manifest.
     rbind (validate L reg ''PackageManifest'' manifest) (\<lambda>_.
     rbind (check_plan_schemas manifests episode run manifest) (\<lambda>_.
     rbind (plan_head L episode run) (\<lambda>head.
     rbind (item manifest ''required_capabilities'') (\<lambda>caps.
     rbind (add_caps caps []) (\<lambda>required0.
     rbind (item manifest ''internet_access'') (\<lambda>internet_access.
     rbind (item run ''tools'') (\<lambda>ts. rbind (as_list ts) (\<lambda>bindings.
     rbind (ditem head ''agent'') (\<lambda>agent. rbind (item agent ''implementation'') (\<lambda>owner.
     rbind (rfold (plan_tool L catalog manifests run owner) bindings
              (if truthy internet_access then List.insert ''internet_access.v1'' required0 else required0, [])) (\<lambda>(required, tools).
     rbind (plan_runtime catalog run episode manifest) (\<lambda>runtime.
     rbind (item run ''limits'') (\<lambda>limits. rbind (item limits ''total_timeout_ms'') (\<lambda>t. rbind (as_int t) (\<lambda>total.
     rbind (seal_fixture_plan L (VDict (head @ [(''tools'', VList tools)] @ runtime @
              [(''attempt_id'', VInt 1), (''required_capabilities'', VList (map VStr (sort required))),
               (''internet_access'', internet_access), (''deadline_at_ms'', VInt (1800000000000 + total))]))) (\<lambda>plan.
     rbind (validate L reg ''ExecutionPlan'' plan) (\<lambda>_. Inr plan)))))))))))))))))))))"

section \<open>The seal\<close>

definition unsealed :: "val \<Rightarrow> val" where
  "unsealed v = (case v of VDict d \<Rightarrow> VDict (AList.delete ''plan_digest'' d) | _ \<Rightarrow> v)"

lemma update_delete: "AList.delete k (AList.update k v (AList.delete k d)) = AList.delete k d"
  by (induction d) auto

lemma seal_parts:
  assumes "seal_fixture_plan L p = Inr q"
  shows "\<exists>s. digest L (unsealed p) = Inr s \<and> item q ''plan_digest'' = Inr (VStr s) \<and> unsealed q = unsealed p"
  using assms by (cases p) (auto simp: seal_fixture_plan_def unsealed_def Let_def rbind_Inr_iff update_delete)

lemma seal_seal: "seal_fixture_plan L p = Inr q \<Longrightarrow> seal_fixture_plan L q = Inr q"
  by (cases p) (auto simp: seal_fixture_plan_def Let_def rbind_Inr_iff update_delete)

lemma delete_json: "json_val v \<Longrightarrow> json_val (unsealed v)"
  by (cases v) (auto simp: unsealed_def AList.delete_eq)

text \<open>C32: Sealing a sealed plan again changes nothing, and two sealed plans with one digest hold the same
  content up to key order unless their canonical bytes are a collision of the hash.\<close>
theorem plan_seal_identifies:
  assumes "float_repr_ok L" "json_val p" "json_val p'"
    and "seal_fixture_plan L p = Inr q" "seal_fixture_plan L p' = Inr q'" "item q ''plan_digest'' = item q' ''plan_digest''"
  shows "seal_fixture_plan L q = Inr q \<and>
    (sorted_val (unsealed q) = sorted_val (unsealed q') \<or>
     (\<exists>a b. canonical_bytes L (unsealed q) = Inr a \<and> canonical_bytes L (unsealed q') = Inr b \<and>
        a \<noteq> b \<and> sha256_ref L a = sha256_ref L b))"
proof -
  from seal_parts [OF assms(4)] obtain s where s: "digest L (unsealed p) = Inr s" "item q ''plan_digest'' = Inr (VStr s)"
    "unsealed q = unsealed p" by blast
  from seal_parts [OF assms(5)] obtain s' where s': "digest L (unsealed p') = Inr s'" "item q' ''plan_digest'' = Inr (VStr s')"
    "unsealed q' = unsealed p'" by blast
  from s(1) s'(1) obtain t t' where t: "cdumps L (unsealed p) = Inr t" "s = sha256_ref L (utf8 t)"
      "cdumps L (unsealed p') = Inr t'" "s' = sha256_ref L (utf8 t')"
    by (auto simp: digest_def canonical_bytes_def rbind_Inr_iff)
  from s(2) s'(2) assms(6) have "s = s'" by simp
  show ?thesis
  proof (cases "t = t'")
    case True
    with cdumps_inject [OF assms(1) delete_json [OF assms(2)] delete_json [OF assms(3)] t(1)] t(3) s(3) s'(3)
      seal_seal [OF assms(4)] show ?thesis by simp
  next
    case False
    then have "utf8 t \<noteq> utf8 t'" by simp
    moreover from t(1,3) s(3) s'(3) have "canonical_bytes L (unsealed q) = Inr (utf8 t)"
      "canonical_bytes L (unsealed q') = Inr (utf8 t')" by (simp_all add: canonical_bytes_def)
    ultimately show ?thesis using t(2,4) \<open>s = s'\<close> seal_seal [OF assms(4)] by blast
  qed
qed

theorem plan_seal_identifies_witness:
  "\<exists>q. seal_fixture_plan rational_lib (VDict [(''attempt_id'', VInt 1)]) = Inr q \<and> seal_fixture_plan rational_lib q = Inr q"
proof -
  have "ok (seal_fixture_plan rational_lib (VDict [(''attempt_id'', VInt 1)]))" by code_simp
  then obtain q where q: "seal_fixture_plan rational_lib (VDict [(''attempt_id'', VInt 1)]) = Inr q" by (auto simp: ok_iff)
  from plan_seal_identifies [OF rational_lib_ok _ _ q q] q show ?thesis by auto
qed

end
