(* ===== verification/Datasets.thy ===== *)
theory Datasets
  imports Sdk_Core Dataset_Models Scoring_Rules Py_Json
begin

text \<open>
  The nine dataset packages (\<open>reference/datasets/*/src/*\<close>): the adapter that turns a source row into
  a prepared sample, the first observation of the environment, and the scorer.

  \<open>str(x)\<close> of a value that is neither text, integer, boolean nor \<open>None\<close> is the argument \<open>text_of\<close>.
  An environment's context is its deadline with the reading \<open>check\<close> takes of the clock and of the
  cancellation flag.
\<close>

section \<open>Shared steps\<close>

definition py_str :: "(val \<Rightarrow> string) \<Rightarrow> val \<Rightarrow> string" where
  "py_str text_of v = (case v of
      VStr s \<Rightarrow> s | VInt i \<Rightarrow> show_int i | VBool b \<Rightarrow> (if b then ''True'' else ''False'')
    | VNone \<Rightarrow> ''None'' | _ \<Rightarrow> text_of v)"

definition frames :: nat where
  \<comment> \<open>Python frames left for the constructors, whose classes nest at most one list\<close>
  "frames = 9"

definition new_model :: "string \<Rightarrow> (string \<times> val res) list \<Rightarrow> val res" where
  \<comment> \<open>\<open>Model(field=expression, ...)\<close>\<close>
  "new_model model kwargs =
     rbind (rmap (\<lambda>p. rbind (snd p) (\<lambda>v. Inr (fst p, v))) kwargs) (init_model frames package_models model)"

definition sample :: "(val \<Rightarrow> string) \<Rightarrow> val res \<Rightarrow> val res \<Rightarrow> val res \<Rightarrow> val res" where
  "sample text_of identifier inp private_data =
     rbind identifier (\<lambda>i. rbind inp (\<lambda>m. rbind private_data (\<lambda>p.
       Inr (prepared_sample (VStr (py_str text_of i)) m p VNone))))"

definition env_check :: "dbl \<Rightarrow> bool \<times> dbl \<Rightarrow> unit res" where
  "env_check deadline reading = context_check ''EPISODE_TIMEOUT'' deadline reading"

definition reference_score :: "(string \<Rightarrow> val \<Rightarrow> score_result res) \<Rightarrow> score_input \<Rightarrow> score_result res" where
  \<comment> \<open>the \<open>score\<close> method of the four rule scorers\<close>
  "reference_score rule request = rbind (read_reference_text request) (\<lambda>(answer, private_data). rule answer private_data)"

section \<open>GSM8K\<close>

definition gsm8k_sample :: "(val \<Rightarrow> string) \<Rightarrow> val \<Rightarrow> val res" where
  "gsm8k_sample text_of row =
     sample text_of (item row ''id'')
       (new_model ''Gsm8kInput'' [(''instruction'', item row ''question'')])
       (new_model ''Gsm8kPrivateData'' [(''answer'',
          rbind (item row ''answer'') (\<lambda>a. case a of
            VStr s \<Rightarrow> Inr (VStr (strip (rsplit_last ''####'' s))) | _ \<Rightarrow> Inl (AttributeError ''rsplit'')))])"

definition gsm8k_reset :: "task_spec \<Rightarrow> dbl \<Rightarrow> bool \<times> dbl \<Rightarrow> val res" where
  "gsm8k_reset task deadline reading =
     rbind (env_check deadline reading) (\<lambda>_.
     rbind (item (task_input task) ''instruction'') (\<lambda>t. Inr (observation [text_part t] False False)))"

definition gsm8k_score :: "score_input \<Rightarrow> score_result res" where
  "gsm8k_score request = reference_score score_gsm8k request"

section \<open>OlymMATH\<close>

definition olymmath_sample :: "(val \<Rightarrow> string) \<Rightarrow> val \<Rightarrow> val res" where
  "olymmath_sample text_of row =
     sample text_of (item row ''unique_id'')
       (new_model ''OlymmathInput'' [(''instruction'', item row ''problem''), (''language'', item row ''language''),
          (''difficulty'', item row ''difficulty''), (''subject'', get row ''subject'' (VStr []))])
       (new_model ''OlymmathPrivateData'' [(''answer'', item row ''answer'')])"

definition olymmath_reset :: "task_spec \<Rightarrow> dbl \<Rightarrow> bool \<times> dbl \<Rightarrow> val res" where
  "olymmath_reset task deadline reading =
     rbind (env_check deadline reading) (\<lambda>_.
     rbind (item (task_input task) ''instruction'') (\<lambda>t. rbind (as_str t) (\<lambda>s.
       Inr (observation [text_part (VStr (''Put the final answer in '' @ [CHR 0x5C] @ ''boxed{}.'' @ [CHR 0x0A] @ s))] False False))))"

definition olymmath_score :: "score_input \<Rightarrow> score_result res" where
  "olymmath_score request = reference_score score_olymmath request"

section \<open>PubMedQA\<close>

definition pubmedqa_sample :: "(val \<Rightarrow> string) \<Rightarrow> val \<Rightarrow> val res" where
  "pubmedqa_sample text_of row =
     sample text_of (item row ''id'')
       (new_model ''PubmedqaInput'' [(''instruction'', item row ''QUESTION''), (''contexts'', item row ''CONTEXTS'')])
       (new_model ''PubmedqaPrivateData'' [(''answer'', item row ''final_decision'')])"

definition pubmedqa_reset :: "task_spec \<Rightarrow> dbl \<Rightarrow> bool \<times> dbl \<Rightarrow> val res" where
  "pubmedqa_reset task deadline reading =
     rbind (env_check deadline reading) (\<lambda>_.
     rbind (item (task_input task) ''contexts'') (\<lambda>c. rbind (as_list c) (\<lambda>xs. rbind (rmap as_str xs) (\<lambda>contexts.
     rbind (item (task_input task) ''instruction'') (\<lambda>t. rbind (as_str t) (\<lambda>s.
       Inr (observation [text_part (VStr (''Read the abstract and answer yes, no, or maybe.'' @ [CHR 0x0A] @
              join [CHR 0x0A] contexts @ [CHR 0x0A] @ s))] False False)))))))"

definition pubmedqa_score :: "score_input \<Rightarrow> score_result res" where
  "pubmedqa_score request = reference_score score_pubmedqa request"

section \<open>SciTab\<close>

definition scitab_sample :: "(val \<Rightarrow> string) \<Rightarrow> val \<Rightarrow> val res" where
  "scitab_sample text_of row =
     sample text_of (item row ''id'')
       (new_model ''ScitabInput'' [(''claim'', item row ''claim''), (''paper'', get row ''paper'' (VStr [])),
          (''paper_id'', get row ''paper_id'' (VStr [])), (''table_id'', get row ''table_id'' (VStr [])),
          (''caption'', get row ''table_caption'' (VStr [])), (''columns'', item row ''table_column_names''),
          (''rows'', item row ''table_content_values'')])
       (new_model ''ScitabPrivateData'' [(''answer'', item row ''label'')])"

definition scitab_reset :: "lib \<Rightarrow> task_spec \<Rightarrow> dbl \<Rightarrow> bool \<times> dbl \<Rightarrow> val res" where
  "scitab_reset L task deadline reading =
     rbind (env_check deadline reading) (\<lambda>_.
     rbind (model_dump (task_input task)) (\<lambda>d. rbind (dumps L plain_opts d) (\<lambda>t.
       Inr (observation [text_part (VStr (''Classify as supports, refutes, or not enough info.'' @ [CHR 0x0A] @ t))] False False))))"

definition scitab_score :: "score_input \<Rightarrow> score_result res" where
  "scitab_score request = reference_score score_scitab request"

section \<open>DSCodeBench\<close>

definition dscodebench_sample :: "(val \<Rightarrow> string) \<Rightarrow> val \<Rightarrow> val res" where
  "dscodebench_sample text_of row =
     sample text_of (item row ''problem_id'')
       (new_model ''DscodebenchInput'' [(''instruction'', item row ''code_problem''), (''library'', item row ''library''),
          (''entry_point'', item row ''entry_point'')])
       (new_model ''DscodebenchPrivateData'' [(''tests'', item row ''tests''), (''num_tests'', item row ''num_tests''),
          (''test_seed'', item row ''test_seed''), (''evaluation_plan'', item row ''evaluation_plan'')])"

definition dscodebench_reset :: "sids \<Rightarrow> task_spec \<Rightarrow> dbl \<Rightarrow> bool \<times> dbl \<Rightarrow> val res" where
  "dscodebench_reset sids task deadline reading =
     rbind (env_check deadline reading) (\<lambda>_.
     rbind (structured_part sids (task_input task)) (\<lambda>p.
       Inr (observation [text_part (VStr ''Generate a Python solution.''), p] False False)))"

definition dscodebench_score :: "lib \<Rightarrow> sids \<Rightarrow> score_input \<Rightarrow> scoring_context \<Rightarrow> score_result res" where
  "dscodebench_score L sids request ctx = evaluate_harness L sids request ctx"

section \<open>The four SWE packages\<close>

definition swe_sample :: "string \<Rightarrow> string \<Rightarrow> string \<Rightarrow> (val \<Rightarrow> string) \<Rightarrow> val \<Rightarrow> val res" where
  \<comment> \<open>the adapters differ in the variant they accept and in their model classes\<close>
  "swe_sample variant input_model private_model text_of row =
     rbind (get row ''benchmark_variant'' VNone) (\<lambda>v.
     rbind (guard (py_eq v (VStr variant)) (ValueError ''SWE package received another benchmark variant'')) (\<lambda>_.
       sample text_of (item row ''instance_id'')
         (new_model input_model [(''instruction'', item row ''problem_statement''), (''repo'', item row ''repo''),
            (''base_commit'', item row ''base_commit''), (''workspace_path'', item row ''workspace_path''),
            (''runtime_assets'', item row ''runtime_assets'')])
         (new_model private_model [(''test_patch'', item row ''test_patch''), (''fail_to_pass'', item row ''FAIL_TO_PASS''),
            (''pass_to_pass'', item row ''PASS_TO_PASS''), (''evaluation_plan'', item row ''evaluation_plan'')])))"

definition swe_reset :: "sids \<Rightarrow> task_spec \<Rightarrow> dbl \<Rightarrow> bool \<times> dbl \<Rightarrow> val res" where
  "swe_reset sids task deadline reading =
     rbind (env_check deadline reading) (\<lambda>_.
     rbind (structured_part sids (task_input task)) (\<lambda>p. Inr (observation [p] False False)))"

definition swe_lite_sample :: "(val \<Rightarrow> string) \<Rightarrow> val \<Rightarrow> val res" where
  "swe_lite_sample text_of row = swe_sample ''lite'' ''SweLiteInput'' ''SweLitePrivateData'' text_of row"

definition swe_lite_reset :: "sids \<Rightarrow> task_spec \<Rightarrow> dbl \<Rightarrow> bool \<times> dbl \<Rightarrow> val res" where
  "swe_lite_reset sids task deadline reading = swe_reset sids task deadline reading"

definition swe_lite_score :: "lib \<Rightarrow> sids \<Rightarrow> score_input \<Rightarrow> scoring_context \<Rightarrow> score_result res" where
  "swe_lite_score L sids request ctx = evaluate_harness L sids request ctx"

definition swe_pro_sample :: "(val \<Rightarrow> string) \<Rightarrow> val \<Rightarrow> val res" where
  "swe_pro_sample text_of row = swe_sample ''pro'' ''SweProInput'' ''SweProPrivateData'' text_of row"

definition swe_pro_reset :: "sids \<Rightarrow> task_spec \<Rightarrow> dbl \<Rightarrow> bool \<times> dbl \<Rightarrow> val res" where
  "swe_pro_reset sids task deadline reading = swe_reset sids task deadline reading"

definition swe_pro_score :: "lib \<Rightarrow> sids \<Rightarrow> score_input \<Rightarrow> scoring_context \<Rightarrow> score_result res" where
  "swe_pro_score L sids request ctx = evaluate_harness L sids request ctx"

definition swe_smith_sample :: "(val \<Rightarrow> string) \<Rightarrow> val \<Rightarrow> val res" where
  "swe_smith_sample text_of row = swe_sample ''smith'' ''SweSmithInput'' ''SweSmithPrivateData'' text_of row"

definition swe_smith_reset :: "sids \<Rightarrow> task_spec \<Rightarrow> dbl \<Rightarrow> bool \<times> dbl \<Rightarrow> val res" where
  "swe_smith_reset sids task deadline reading = swe_reset sids task deadline reading"

definition swe_smith_score :: "lib \<Rightarrow> sids \<Rightarrow> score_input \<Rightarrow> scoring_context \<Rightarrow> score_result res" where
  "swe_smith_score L sids request ctx = evaluate_harness L sids request ctx"

definition swe_verified_sample :: "(val \<Rightarrow> string) \<Rightarrow> val \<Rightarrow> val res" where
  "swe_verified_sample text_of row = swe_sample ''verified'' ''SweVerifiedInput'' ''SweVerifiedPrivateData'' text_of row"

definition swe_verified_reset :: "sids \<Rightarrow> task_spec \<Rightarrow> dbl \<Rightarrow> bool \<times> dbl \<Rightarrow> val res" where
  "swe_verified_reset sids task deadline reading = swe_reset sids task deadline reading"

definition swe_verified_score :: "lib \<Rightarrow> sids \<Rightarrow> score_input \<Rightarrow> scoring_context \<Rightarrow> score_result res" where
  "swe_verified_score L sids request ctx = evaluate_harness L sids request ctx"

end
