(* ===== verification/Datasets_Correct.thy ===== *)
theory Datasets_Correct
  imports Datasets Scoring_Correct
begin

text \<open>
  Datasets from source row to score: the GSM8K package from its row to the verdict on an answer, and
  the four SWE packages against rows of each other.
\<close>

section \<open>GSM8K from row to score\<close>

definition blank_request :: score_input where
  "blank_request = \<lparr>si_task = \<lparr>task_id = VNone, dataset = VNone, sample_id = VNone, task_input = VNone, runtime = VNone\<rparr>,
     si_final_answer = VNone, si_trajectory_ref = VNone, si_state = VNone, si_private_data = VNone\<rparr>"

definition gsm8k_row :: "val \<Rightarrow> val \<Rightarrow> string \<Rightarrow> val" where
  "gsm8k_row i question solution = VDict [(''id'', i), (''question'', question), (''answer'', VStr solution)]"

definition gsm8k_private :: "nat \<Rightarrow> val" where
  "gsm8k_private n = VModel ''Gsm8kPrivateData'' [(''answer'', VStr (show_nat n))]"

lemma gsm8k_sample_row:
  "gsm8k_sample text_of (gsm8k_row i question (work @ ''#### '' @ show_nat n)) =
   Inr (prepared_sample (VStr (py_str text_of i)) (VModel ''Gsm8kInput'' [(''instruction'', question)]) (gsm8k_private n) VNone)"
proof -
  have g: "map_of package_models ''Gsm8kInput'' = Some Gsm8kInput" "map_of package_models ''Gsm8kPrivateData'' = Some Gsm8kPrivateData"
    by (simp_all add: package_models_def)
  show ?thesis
    using hash_answer [of work n] g
    by (simp add: gsm8k_sample_def sample_def new_model_def gsm8k_row_def ditem_def frames_def eval_nat_numeral
        Gsm8kInput_def Gsm8kPrivateData_def model_hints_def prefix_of_def field_source_def gsm8k_private_def)
qed

lemma rany_map: "rany f (map g xs) = rany (\<lambda>x. f (g x)) xs"
  by (induction xs) (simp_all cong: if_cong)

lemma read_reference_pieces:
  "read_reference_text (request\<lparr>si_final_answer := VList (map (\<lambda>s. text_part (VStr s)) pieces), si_private_data := gsm8k_private n\<rparr>) =
   Inr (concat pieces, VDict [(''answer'', VStr (show_nat n))])"
  by (simp add: read_reference_text_def text_part_def rmap_map rany_map ditem_def gsm8k_private_def comp_def)

text \<open>C33: A row that the GSM8K adapter prepares, whose answer is a canonical natural number below 10^9, is
  scored a success exactly when the text after the last four hashes of the answer is that number,
  for answers that end in a canonical natural number below 10^9 after the hashes, in whatever text
  parts the answer comes.\<close>
theorem gsm8k_row_to_score:
  assumes "m < 10 ^ 9" "n < 10 ^ 9" "concat pieces = work' @ ''#### '' @ show_nat m"
  shows "\<exists>s p. gsm8k_sample text_of (gsm8k_row i question (work @ ''#### '' @ show_nat n)) = Inr (VObj ''PreparedSample'' s) \<and>
    map_of s ''private_data'' = Some p \<and>
    map_sum id sr_success (gsm8k_score (request\<lparr>si_final_answer := VList (map (\<lambda>s. text_part (VStr s)) pieces),
      si_private_data := p\<rparr>)) = Inr (Some (m = n))"
  unfolding gsm8k_sample_row prepared_sample_def gsm8k_score_def reference_score_def
  using gsm8k_rule_integers [OF assms(1,2), of work']
  by (auto simp: read_reference_pieces assms(3))

theorem gsm8k_row_to_score_witness:
  "\<exists>s p. gsm8k_sample (\<lambda>_. []) (gsm8k_row (VInt 7) (VStr ''6 * 12?'') (''so '' @ ''#### '' @ show_nat 72)) = Inr (VObj ''PreparedSample'' s) \<and>
    map_of s ''private_data'' = Some p \<and>
    map_sum id sr_success (gsm8k_score (blank_request\<lparr>si_final_answer := VList (map (\<lambda>s. text_part (VStr s)) [''It is '', ''#### '' @ show_nat 72]),
      si_private_data := p\<rparr>)) = Inr (Some True)"
  using gsm8k_row_to_score [of 72 72 "[''It is '', ''#### '' @ show_nat 72]" "''It is ''" "\<lambda>_. []" "VInt 7"
      "VStr ''6 * 12?''" "''so ''" blank_request] by simp

section \<open>Typed samples\<close>

definition package_adapters :: "(((val \<Rightarrow> string) \<Rightarrow> val \<Rightarrow> val res) \<times> string \<times> string) list" where
  \<comment> \<open>the adapters with the input and private classes of their packages\<close>
  "package_adapters =
     [(gsm8k_sample, ''Gsm8kInput'', ''Gsm8kPrivateData''), (olymmath_sample, ''OlymmathInput'', ''OlymmathPrivateData''),
      (pubmedqa_sample, ''PubmedqaInput'', ''PubmedqaPrivateData''), (scitab_sample, ''ScitabInput'', ''ScitabPrivateData''),
      (dscodebench_sample, ''DscodebenchInput'', ''DscodebenchPrivateData''),
      (swe_lite_sample, ''SweLiteInput'', ''SweLitePrivateData''), (swe_pro_sample, ''SweProInput'', ''SweProPrivateData''),
      (swe_smith_sample, ''SweSmithInput'', ''SweSmithPrivateData''),
      (swe_verified_sample, ''SweVerifiedInput'', ''SweVerifiedPrivateData'')]"


lemma new_model_instance: "new_model c kwargs = Inr m \<Longrightarrow> \<exists>d. m = VModel c d"
proof -
  assume "new_model c kwargs = Inr m"
  then obtain kw where "init_model frames package_models c kw = Inr m" by (auto simp: new_model_def rbind_Inr_iff)
  then show ?thesis by (auto simp: frames_def eval_nat_numeral rbind_Inr_iff Let_def split: option.splits if_splits)
qed

definition typed_sample :: "string \<Rightarrow> string \<Rightarrow> val \<Rightarrow> bool" where
  "typed_sample c c' s \<longleftrightarrow> (\<exists>k d d'. s = prepared_sample (VStr k) (VModel c d) (VModel c' d') VNone)"

lemma sample_instance:
  "sample text_of i (new_model c kw) (new_model c' kw') = Inr s \<Longrightarrow>
   typed_sample c c' s"
  by (auto simp: typed_sample_def sample_def rbind_Inr_iff dest!: new_model_instance)

lemma swe_instance:
  "swe_sample v c c' text_of row = Inr s \<Longrightarrow> typed_sample c c' s"
  unfolding swe_sample_def rbind_Inr_iff by (blast dest: sample_instance)

lemma package_instances:
  "gsm8k_sample text_of row = Inr s \<Longrightarrow> typed_sample ''Gsm8kInput'' ''Gsm8kPrivateData'' s"
  "olymmath_sample text_of row = Inr s \<Longrightarrow> typed_sample ''OlymmathInput'' ''OlymmathPrivateData'' s"
  "pubmedqa_sample text_of row = Inr s \<Longrightarrow> typed_sample ''PubmedqaInput'' ''PubmedqaPrivateData'' s"
  "scitab_sample text_of row = Inr s \<Longrightarrow> typed_sample ''ScitabInput'' ''ScitabPrivateData'' s"
  "dscodebench_sample text_of row = Inr s \<Longrightarrow> typed_sample ''DscodebenchInput'' ''DscodebenchPrivateData'' s"
  "swe_lite_sample text_of row = Inr s \<Longrightarrow> typed_sample ''SweLiteInput'' ''SweLitePrivateData'' s"
  "swe_pro_sample text_of row = Inr s \<Longrightarrow> typed_sample ''SweProInput'' ''SweProPrivateData'' s"
  "swe_smith_sample text_of row = Inr s \<Longrightarrow> typed_sample ''SweSmithInput'' ''SweSmithPrivateData'' s"
  "swe_verified_sample text_of row = Inr s \<Longrightarrow> typed_sample ''SweVerifiedInput'' ''SweVerifiedPrivateData'' s"
  unfolding gsm8k_sample_def olymmath_sample_def pubmedqa_sample_def scitab_sample_def dscodebench_sample_def
    swe_lite_sample_def swe_pro_sample_def swe_smith_sample_def swe_verified_sample_def
  by (erule sample_instance swe_instance)+

lemma adapters_typed:
  "list_all (\<lambda>(adapter, c, c'). \<forall>text_of row s. adapter text_of row = Inr s \<longrightarrow> typed_sample c c' s) package_adapters"
  by (simp only: package_adapters_def list.pred_inject prod.case) (intro conjI allI impI TrueI package_instances; assumption)

lemma adapter_instance: "(adapter, c, c') \<in> set package_adapters \<Longrightarrow> adapter text_of row = Inr s \<Longrightarrow> typed_sample c c' s"
  using adapters_typed unfolding list_all_iff by blast

text \<open>C34: Every sample an adapter of the nine packages returns has a text identifier and typed input and
  private data of the package's own classes, and has a wire form under their schemas.\<close>
theorem samples_are_typed:
  assumes "(adapter, c, c') \<in> set package_adapters" "adapter text_of row = Inr s"
    and "map_of sids c = Some i" "map_of sids c' = Some i'" "i \<noteq> []" "i' \<noteq> []"
  shows "\<exists>k d d'. s = prepared_sample (VStr k) (VModel c d) (VModel c' d') VNone \<and>
    to_wire sids s = Inr (VDict [(''sample_id'', VStr k),
      (''input'', VDict [(''schema_ref'', VStr i), (''data'', dump (VModel c d))]),
      (''private_data'', VDict [(''schema_ref'', VStr i'), (''data'', dump (VModel c' d'))])])"
  using adapter_instance [OF assms(1,2)] assms(3-6) by (auto simp: typed_sample_def prepared_sample_def kept_none_def)

theorem samples_are_typed_witness:
  "\<exists>s k d d'. gsm8k_sample (\<lambda>_. []) (gsm8k_row (VInt 7) (VStr ''6 * 12?'') (''so '' @ ''#### '' @ show_nat 72)) = Inr s \<and>
     s = prepared_sample (VStr k) (VModel ''Gsm8kInput'' d) (VModel ''Gsm8kPrivateData'' d') VNone"
proof -
  let ?sids = "[(''Gsm8kInput'', ''urn:i''), (''Gsm8kPrivateData'', ''urn:p'')]"
  have m: "(gsm8k_sample, ''Gsm8kInput'', ''Gsm8kPrivateData'') \<in> set package_adapters" by (simp add: package_adapters_def)
  note r = gsm8k_sample_row [of "\<lambda>_. []" "VInt 7" "VStr ''6 * 12?''" "''so ''" 72]
  from samples_are_typed [OF m r, of ?sids "''urn:i''" "''urn:p''"] show ?thesis using r by auto
qed

end
