(* ===== verification/Model_Provider.thy ===== *)
theory Model_Provider
  imports Tool_Host Canonical_Json
begin

text \<open>
  The model transport (\<open>reference/sdk/src/uenv/sdk/model_provider.py\<close>) and its host process
  (\<open>model_host.py\<close>): a generation command of the Worker becomes one HTTP request, and the response
  becomes a generation event. The endpoint is a function \<open>urlopen\<close> of the URL, the headers, the body
  and the timeout on a world \<open>'w\<close>, which gives the bytes read.
\<close>

section \<open>Text\<close>

definition ascii_escape :: "string \<Rightarrow> string" where
  \<comment> \<open>what \<open>ensure_ascii\<close> makes of a JSON text: characters outside ASCII stand in strings only\<close>
  "ascii_escape s = concat (map (\<lambda>c. if code c < 127 then [c]
     else [CHR 0x5C, CHR ''u'', CHR ''0'', CHR ''0'', hex_digit (code c div 16), hex_digit (code c mod 16)]) s)"

definition ascii_dumps :: "lib \<Rightarrow> json_opts \<Rightarrow> val \<Rightarrow> string res" where
  "ascii_dumps L opts v = rbind (dumps L opts v) (\<lambda>t. Inr (ascii_escape t))"

definition text_content :: "val \<Rightarrow> string res" where
  "text_content v =
     rbind (as_list v) (\<lambda>parts.
     rbind (rany (\<lambda>part. rbind (item part ''kind'') (\<lambda>k. Inr (\<not> py_eq k (VStr ''text'')))) parts) (\<lambda>other.
     rbind (guard (\<not> other) (RpcError ''MODEL_CONTENT_KIND_NOT_SUPPORTED'')) (\<lambda>_.
     rbind (rmap (\<lambda>part. rbind (item part ''text'') as_str) parts) (\<lambda>texts. Inr (concat texts)))))"

section \<open>The request\<close>

record 'w model_provider =
  mp_lib :: lib
  mp_definitions :: "(string \<times> 'w tool_definition) list"
  mp_resolve_credential :: "val \<Rightarrow> string"
  mp_urlopen :: "string \<Rightarrow> (string \<times> string) list \<Rightarrow> nat list \<Rightarrow> dbl \<Rightarrow> 'w \<Rightarrow> 'w \<times> nat list res"

definition wire_call :: "lib \<Rightarrow> val \<Rightarrow> val res" where
  "wire_call L call =
     rbind (item call ''tool_call_id'') (\<lambda>i. rbind (item call ''name'') (\<lambda>n. rbind (item call ''arguments'') (\<lambda>a.
     rbind (ascii_dumps L plain_opts a) (\<lambda>t.
       Inr (VDict [(''id'', i), (''type'', VStr ''function''),
                   (''function'', VDict [(''name'', n), (''arguments'', VStr t)])])))))"

definition wire_message :: "lib \<Rightarrow> val \<Rightarrow> val res" where
  "wire_message L m =
     rbind (item m ''role'') (\<lambda>role. rbind (item m ''content'') (\<lambda>content. rbind (text_content content) (\<lambda>t.
     rbind (has m ''tool_call_id'') (\<lambda>b.
     rbind (if b then rbind (item m ''tool_call_id'') (\<lambda>i. Inr [(''tool_call_id'', i)]) else Inr []) (\<lambda>answered.
     rbind (get m ''tool_calls'' VNone) (\<lambda>calls.
     rbind (if truthy calls
            then rbind (as_list calls) (\<lambda>cs. rbind (rmap (wire_call L) cs) (\<lambda>ws. Inr [(''tool_calls'', VList ws)]))
            else Inr []) (\<lambda>called.
       Inr (VDict ([(''role'', role), (''content'', VStr t)] @ answered @ called)))))))))"

definition function_tool :: "'w model_provider \<Rightarrow> string \<Rightarrow> val res" where
  "function_tool P name =
     rbind (lookup (mp_definitions P) name (KeyError name)) (\<lambda>dfn.
       Inr (VDict [(''type'', VStr ''function''), (''function'', VDict [(''name'', VStr name),
              (''description'', VStr (td_description dfn)), (''parameters'', td_input_schema dfn)])]))"

definition request_body :: "'w model_provider \<Rightarrow> val \<Rightarrow> val \<Rightarrow> dict \<Rightarrow> val res" where
  "request_body P command model bindings =
     rbind (item command ''messages'') (\<lambda>ms. rbind (as_list ms) (\<lambda>messages.
     rbind (rmap (wire_message (mp_lib P)) messages) (\<lambda>wire.
     rbind (item model ''generation'') (\<lambda>g. rbind (item model ''model_id'') (\<lambda>model_id.
     rbind (item g ''temperature'') (\<lambda>temperature. rbind (item g ''top_p'') (\<lambda>top_p.
     rbind (item g ''max_output_tokens'') (\<lambda>max_tokens. rbind (item command ''seed'') (\<lambda>seed.
     rbind (item g ''stop'') (\<lambda>stop_at.
     rbind (has command ''training'') (\<lambda>trained.
     rbind (if trained then rbind (item command ''training'') (\<lambda>t. Inr [(''training'', t)]) else Inr []) (\<lambda>training.
     rbind (rmap (function_tool P) (map fst bindings)) (\<lambda>ts.
       Inr (VDict ([(''model'', model_id), (''messages'', VList wire), (''temperature'', temperature), (''top_p'', top_p),
                    (''max_tokens'', max_tokens), (''seed'', seed)] @
                   (if truthy stop_at then [(''stop'', stop_at)] else []) @ training @
                   (if bindings \<noteq> [] then [(''tools'', VList ts)] else []))))))))))))))))"

definition request_headers :: "'w model_provider \<Rightarrow> val \<Rightarrow> (string \<times> string) list res" where
  "request_headers P model =
     rbind (item model ''credential_ref'') (\<lambda>ref.
     let credential = mp_resolve_credential P ref
     in rbind (guard (\<not> (truthy ref \<and> credential = [])) (RpcError ''MODEL_CREDENTIAL_NOT_FOUND'')) (\<lambda>_.
          Inr ([(''Content-Type'', ''application/json'')] @
               (if credential \<noteq> [] then [(''Authorization'', ''Bearer '' @ credential)] else []))))"

definition rstrip_slash :: "string \<Rightarrow> string" where
  "rstrip_slash s = rev (dropWhile (\<lambda>c. c = CHR ''/'') (rev s))"

definition prepare_request ::
  "'w model_provider \<Rightarrow> val \<Rightarrow> dict \<Rightarrow> (string \<times> (string \<times> string) list \<times> nat list \<times> dbl) res" where
  \<comment> \<open>everything before the POST, which is sent once or not at all\<close>
  "prepare_request P command bindings =
     rbind (item command ''model'') (\<lambda>model.
     rbind (request_body P command model bindings) (\<lambda>body.
     rbind (request_headers P model) (\<lambda>headers.
     rbind (item model ''endpoint'') (\<lambda>e. rbind (as_str e) (\<lambda>endpoint.
     rbind (ascii_dumps (mp_lib P) strict_opts body) (\<lambda>t.
     rbind (item model ''max_transport_retries'') (\<lambda>retries.
     rbind (guard (py_eq retries (VInt 0)) (RpcError ''MODEL_RETRIES_NOT_SUPPORTED'')) (\<lambda>_.
     rbind (item command ''remaining_timeout_ms'') (\<lambda>ms. rbind (as_num ms) (\<lambda>x.
       Inr (rstrip_slash endpoint @ ''/chat/completions'', headers, utf8 t,
            (case x of Fin y \<Rightarrow> rnd (y / 1000) | _ \<Rightarrow> x))))))))))))"

section \<open>The response\<close>

definition response_limit :: int where
  "response_limit = 8 * 1024 * 1024"

definition bound_call :: "lib \<Rightarrow> val \<Rightarrow> dict \<Rightarrow> val \<Rightarrow> val res" where
  \<comment> \<open>one proposed call, on the binding it names\<close>
  "bound_call L command bindings t =
     rbind (item t ''function'') (\<lambda>f. rbind (item f ''name'') (\<lambda>n. rbind (as_str n) (\<lambda>name.
     rbind (lookup bindings name (RpcError ''TOOL_NOT_SELECTED'')) (\<lambda>binding.
     rbind (item t ''id'') (\<lambda>i. rbind (item command ''generation_id'') (\<lambda>g.
     rbind (item binding ''name'') (\<lambda>bn. rbind (item binding ''implementation'') (\<lambda>bi.
     rbind (item f ''arguments'') (\<lambda>a. rbind (as_str a) (\<lambda>encoded. rbind (json_loads L (utf8 encoded)) (\<lambda>arguments.
     rbind (item command ''remaining_timeout_ms'') (\<lambda>ms.
       Inr (VDict [(''tool_call_id'', i), (''generation_id'', g), (''name'', bn), (''implementation'', bi),
                   (''arguments'', arguments), (''timeout_ms'', ms)])))))))))))))"

definition trainer_fields :: "string list" where
  "trainer_fields = [''policy_version'', ''parameter_version'', ''tokenizer'', ''input_token_ids'',
     ''output_token_ids'', ''output_logprobs'', ''loss_mask'']"

definition first_item :: "val \<Rightarrow> val res" where
  \<comment> \<open>\<open>v[0]\<close>\<close>
  "first_item v = (case v of VList (x # xs) \<Rightarrow> Inr x | VList [] \<Rightarrow> Inl IndexError | _ \<Rightarrow> Inl (TypeError ''subscript''))"

definition response_text :: "val \<Rightarrow> string res" where
  "response_text m =
     rbind (get m ''reasoning_content'' VNone) (\<lambda>a. rbind (if truthy a then Inr a else get m ''refusal'' VNone) (\<lambda>b.
     rbind (guard (\<not> truthy b) (RpcError ''MODEL_RESPONSE_KIND_NOT_SUPPORTED'')) (\<lambda>_.
     rbind (get m ''content'' VNone) (\<lambda>c.
       if \<not> truthy c then Inr []
       else case c of VStr s \<Rightarrow> Inr s | _ \<Rightarrow> Inl (RpcError ''MODEL_CONTENT_KIND_NOT_SUPPORTED'')))))"

definition event_dict :: "val \<Rightarrow> val \<Rightarrow> val \<Rightarrow> val \<Rightarrow> string \<Rightarrow> val \<Rightarrow> val \<Rightarrow> int \<Rightarrow> dict \<Rightarrow> dict \<Rightarrow> dict" where
  \<comment> \<open>the event, with the trainer's own fields of the response copied\<close>
  "event_dict generation_id model_id source messages content tokens reason duration called d =
     [(''generation_id'', generation_id), (''model_id'', model_id), (''source'', source), (''messages'', messages),
      (''response'', VList (if content \<noteq> [] then [text_part (VStr content)] else [])),
      (''output_token_count'', tokens), (''finish_reason'', reason), (''duration_ms'', VInt duration)] @ called @
     concat (map (\<lambda>k. case map_of d k of None \<Rightarrow> [] | Some v \<Rightarrow> [(k, v)]) trainer_fields)"

definition generation_event :: "lib \<Rightarrow> dbl \<Rightarrow> val \<Rightarrow> dict \<Rightarrow> nat list \<Rightarrow> val res" where
  \<comment> \<open>the event made of the raw response; the time the request took comes as an argument\<close>
  "generation_event L elapsed command bindings raw =
     rbind (guard (int (length raw) \<le> response_limit) (RpcError ''MODEL_RESPONSE_LIMIT'')) (\<lambda>_.
     rbind (json_loads L raw) (\<lambda>data.
     rbind (item data ''choices'') (\<lambda>cs. rbind (first_item cs) (\<lambda>choice. rbind (item choice ''message'') (\<lambda>m.
     rbind (response_text m) (\<lambda>content.
     rbind (item command ''generation_id'') (\<lambda>generation_id. rbind (item command ''model'') (\<lambda>model.
     rbind (item model ''model_id'') (\<lambda>model_id. rbind (item model ''source'') (\<lambda>source.
     rbind (item command ''messages'') (\<lambda>messages.
     rbind (item data ''usage'') (\<lambda>usage. rbind (item usage ''completion_tokens'') (\<lambda>tokens.
     rbind (item choice ''finish_reason'') (\<lambda>reason.
     rbind (int_of_dbl (dbl_mul_pos 1000 elapsed)) (\<lambda>duration.
     rbind (get m ''tool_calls'' VNone) (\<lambda>tcs.
     rbind (if truthy tcs
            then rbind (as_list tcs) (\<lambda>ts. rbind (rmap (bound_call L command bindings) ts) (\<lambda>calls.
                   Inr [(''tool_calls'', VList calls)]))
            else Inr []) (\<lambda>called.
     rbind (as_dict data) (\<lambda>d.
       Inr (VDict (event_dict generation_id model_id source messages content tokens reason duration called d))))))))))))))))))))"

definition provider_generate :: "'w model_provider \<Rightarrow> dbl \<Rightarrow> val \<Rightarrow> 'w \<Rightarrow> 'w \<times> val res" where
  "provider_generate P elapsed command w =
     (case rbind (rbind (item command ''tools'') as_list) by_name of
        Inl e \<Rightarrow> (w, Inl e)
      | Inr bindings \<Rightarrow>
          (case prepare_request P command bindings of
             Inl e \<Rightarrow> (w, Inl e)
           | Inr (url, headers, body, timeout) \<Rightarrow>
               (let (w', r) = mp_urlopen P url headers body timeout w
                in (w', rbind r (generation_event (mp_lib P) elapsed command bindings)))))"

section \<open>The host\<close>

definition model_host_generate :: "registry \<Rightarrow> 'w model_provider \<Rightarrow> dbl \<Rightarrow> val \<Rightarrow> 'w \<Rightarrow> 'w \<times> val res" where
  "model_host_generate reg P elapsed command w =
     (case rbind (item command ''model'') (\<lambda>m. rbind (validate (mp_lib P) reg ''ModelSpec'' m) (\<lambda>_.
           rbind (rbind (item command ''messages'') as_list) (\<lambda>ms.
           rbind (rmap (validate (mp_lib P) reg ''Message'') ms) (\<lambda>_.
           rbind (rbind (item command ''tools'') as_list) (\<lambda>bs.
             rmap (validate (mp_lib P) reg ''ResolvedToolBinding'') bs))))) of
        Inl e \<Rightarrow> (w, Inl e)
      | Inr _ \<Rightarrow> provider_generate P elapsed command w)"

section \<open>The event belongs to its command\<close>

lemma set_fold_update: "set (fold (\<lambda>p d. AList.update (fst p) (snd p) d) ps d) \<subseteq> set ps \<union> set d"
proof (induction ps arbitrary: d)
  case (Cons p ps)
  have "set (AList.update (fst p) (snd p) d) \<subseteq> insert p (set d)" using set_update_subset [of "fst p" "snd p" d] by simp
  with Cons.IH [of "AList.update (fst p) (snd p) d"] show ?case by auto
qed simp

lemma by_name_element: "by_name xs = Inr d \<Longrightarrow> map_of d k = Some x \<Longrightarrow> x \<in> set xs"
proof -
  assume a: "by_name xs = Inr d" "map_of d k = Some x"
  from a(1) obtain ps where p: "rmap (\<lambda>x. rbind (item x ''name'') (\<lambda>n. rbind (as_str n) (\<lambda>name. Inr (name, x)))) xs = Inr ps"
    "d = fold (\<lambda>p d. AList.update (fst p) (snd p) d) ps []" by (auto simp: by_name_def rbind_Inr_iff)
  from a(2) p(2) set_fold_update [of ps "[]"] have "(k, x) \<in> set ps" by (auto dest: map_of_SomeD)
  with p(1) show ?thesis
    by (auto simp: rmap_Inr_iff list_all2_conv_all_nth in_set_conv_nth rbind_Inr_iff) (metis prod.inject)
qed

definition on_binding :: "val list \<Rightarrow> val \<Rightarrow> bool" where
  "on_binding bindings call \<longleftrightarrow> (\<exists>b \<in> set bindings. item call ''name'' = item b ''name'' \<and>
     item call ''implementation'' = item b ''implementation'')"

lemma bound_call_binding:
  assumes "bound_call L command d t = Inr c" "by_name bs = Inr d"
  shows "on_binding bs c \<and> item c ''generation_id'' = item command ''generation_id''"
proof -
  from assms(1) obtain name binding bn bi g rest where b: "map_of d name = Some binding" "item binding ''name'' = Inr bn"
    "item binding ''implementation'' = Inr bi" "item command ''generation_id'' = Inr g"
    "item c ''name'' = Inr bn" "item c ''implementation'' = Inr bi" "item c ''generation_id'' = Inr g"
    by (auto simp: bound_call_def rbind_Inr_iff lookup_def ditem_def split: option.splits)
  from by_name_element [OF assms(2) b(1)] b show ?thesis unfolding on_binding_def by metis
qed

lemma event_dict_items:
  "item (VDict (event_dict g m s ms c tok r dur called d)) ''generation_id'' = Inr g"
  "item (VDict (event_dict g m s ms c tok r dur called d)) ''messages'' = Inr ms"
  "item (VDict (event_dict g m s ms c tok r dur called d)) ''tool_calls'' = ditem called ''tool_calls''"
proof -
  have "''tool_calls'' \<notin> fst ` set (concat (map (\<lambda>k. case map_of d k of None \<Rightarrow> [] | Some v \<Rightarrow> [(k, v)]) trainer_fields))"
    by (auto simp: trainer_fields_def split: option.splits)
  then have "map_of (concat (map (\<lambda>k. case map_of d k of None \<Rightarrow> [] | Some v \<Rightarrow> [(k, v)]) trainer_fields)) ''tool_calls'' = None"
    unfolding map_of_eq_None_iff .
  then show "item (VDict (event_dict g m s ms c tok r dur called d)) ''tool_calls'' = ditem called ''tool_calls''"
    by (auto simp: event_dict_def ditem_def map_add_def split: option.split)
qed (simp_all add: event_dict_def ditem_def)

lemma generation_event_parts:
  assumes "generation_event L elapsed command d raw = Inr event"
  obtains g ms called m s c tok r dur e where "event = VDict (event_dict g m s ms c tok r dur called e)"
    "item command ''generation_id'' = Inr g" "item command ''messages'' = Inr ms" "int (length raw) \<le> response_limit"
    "called = [] \<or> (\<exists>ts calls. called = [(''tool_calls'', VList calls)] \<and> rmap (bound_call L command d) ts = Inr calls)"
proof -
  from assms obtain g ms called m s c tok r dur e tcs where *: "event = VDict (event_dict g m s ms c tok r dur called e)"
    "item command ''generation_id'' = Inr g" "item command ''messages'' = Inr ms" "int (length raw) \<le> response_limit"
    "(if truthy tcs then rbind (as_list tcs) (\<lambda>ts. rbind (rmap (bound_call L command d) ts) (\<lambda>calls.
       Inr [(''tool_calls'', VList calls)])) else Inr []) = Inr called"
    unfolding generation_event_def rbind_Inr_iff [of _ _ event] guard_Inr_iff sum.inject by blast
  from *(5) have "called = [] \<or>
      (\<exists>ts calls. called = [(''tool_calls'', VList calls)] \<and> rmap (bound_call L command d) ts = Inr calls)"
    by (auto simp: rbind_Inr_iff split: if_splits)
  with * that show thesis by blast
qed

text \<open>C35: A generation event answers one request, in a reply within the limit, carries the command's
  identity and messages, and calls only tools of the command under their bound implementation.\<close>
theorem provider_event_is_bound:
  assumes "provider_generate P elapsed command w = (w', Inr event)"
  shows "item event ''generation_id'' = item command ''generation_id'' \<and> item event ''messages'' = item command ''messages'' \<and>
    (\<exists>url headers body timeout raw. mp_urlopen P url headers body timeout w = (w', Inr raw) \<and> int (length raw) \<le> response_limit) \<and>
    (\<exists>bindings calls. rbind (item command ''tools'') as_list = Inr bindings \<and>
      (item event ''tool_calls'' = Inr (VList calls) \<or> item event ''tool_calls'' = Inl (KeyError ''tool_calls'') \<and> calls = []) \<and>
      list_all (on_binding bindings) calls)"
proof -
  from assms obtain bs d where d: "rbind (item command ''tools'') as_list = Inr bs" "by_name bs = Inr d"
    by (auto simp: provider_generate_def rbind_Inr_iff split: sum.splits)
  with assms obtain url headers body timeout raw where r: "mp_urlopen P url headers body timeout w = (w', Inr raw)"
    "generation_event (mp_lib P) elapsed command d raw = Inr event"
    by (auto simp: provider_generate_def rbind_Inr_iff Let_def split: sum.splits prod.splits)
  from generation_event_parts [OF r(2)] obtain g ms called m s c tok rs dur e where
    e: "event = VDict (event_dict g m s ms c tok rs dur called e)" "item command ''generation_id'' = Inr g"
      "item command ''messages'' = Inr ms" "int (length raw) \<le> response_limit"
      "called = [] \<or> (\<exists>ts calls. called = [(''tool_calls'', VList calls)] \<and> rmap (bound_call (mp_lib P) command d) ts = Inr calls)"
    by metis
  have "\<exists>calls. (ditem called ''tool_calls'' = Inr (VList calls) \<or> ditem called ''tool_calls'' = Inl (KeyError ''tool_calls'') \<and> calls = [])
      \<and> list_all (on_binding bs) calls"
    using e(5)
  proof
    assume "\<exists>ts calls. called = [(''tool_calls'', VList calls)] \<and> rmap (bound_call (mp_lib P) command d) ts = Inr calls"
    then obtain ts calls where c: "called = [(''tool_calls'', VList calls)]" "rmap (bound_call (mp_lib P) command d) ts = Inr calls" by blast
    have "on_binding bs x" if "x \<in> set calls" for x
      using c(2) that bound_call_binding [OF _ d(2)] unfolding rmap_Inr_iff list_all2_conv_all_nth in_set_conv_nth by metis
    then show ?thesis using c(1) by (auto simp: list_all_iff ditem_def)
  qed (simp add: ditem_def)
  moreover have "\<exists>url headers body timeout raw. mp_urlopen P url headers body timeout w = (w', Inr raw) \<and> int (length raw) \<le> response_limit"
    using r(1) e(4) by blast
  ultimately show ?thesis using d(1) e(2,3) unfolding e(1) event_dict_items by simp
qed

section \<open>One generation\<close>

definition reply_lib :: lib where
  \<comment> \<open>a library whose parser reads one fixed response\<close>
  "reply_lib = rational_lib\<lparr>json_loads := (\<lambda>b. Inr (VDict [
     (''choices'', VList [VDict [(''message'', VDict [(''content'', VStr ''4'')]), (''finish_reason'', VStr ''stop'')]]),
     (''usage'', VDict [(''completion_tokens'', VInt 1)])]))\<rparr>"

definition small_provider :: "nat model_provider" where
  "small_provider = \<lparr>mp_lib = reply_lib, mp_definitions = [], mp_resolve_credential = (\<lambda>_. []),
     mp_urlopen = (\<lambda>url h b t w. (Suc w, Inr [123, 125]))\<rparr>"

definition small_command :: val where
  "small_command = VDict [(''generation_id'', VStr ''g''), (''tools'', VList []), (''seed'', VInt 1),
     (''remaining_timeout_ms'', VInt 0),
     (''messages'', VList [VDict [(''role'', VStr ''user''), (''content'', VList [text_part (VStr ''2+2?'')])]]),
     (''model'', VDict [(''model_id'', VStr ''m''), (''source'', VStr ''s''), (''endpoint'', VStr ''http://h/''),
        (''credential_ref'', VNone), (''max_transport_retries'', VInt 0),
        (''generation'', VDict [(''temperature'', VInt 1), (''top_p'', VInt 1), (''max_output_tokens'', VInt 3), (''stop'', VList [])])])]"

theorem provider_event_is_bound_witness:
  "\<exists>w event. provider_generate small_provider (Fin 0) small_command 0 = (w, Inr event) \<and>
     item event ''generation_id'' = Inr (VStr ''g'')"
proof -
  have o: "ok (snd (provider_generate small_provider (Fin 0) small_command 0))"
    by code_simp
  then obtain w event where r: "provider_generate small_provider (Fin 0) small_command 0 = (w, Inr event)"
    by (cases "provider_generate small_provider (Fin 0) small_command 0") (auto simp: ok_iff)
  from provider_event_is_bound [OF r] r show ?thesis by (auto simp: small_command_def ditem_def)
qed

end
