(* ===== verification/Component_Host.thy ===== *)
theory Component_Host
  imports Agents Tool_Correct
begin

text \<open>
  The agent process (\<open>reference/sdk/src/uenv/sdk/component_host.py\<close>): it owns the agent, the tools
  that live in the agent's state and, for an integration with a framework of its own, the MCP server
  that offers the selected Python tools to it.

  An agent class is its constructor; an agent is its \<open>run\<close> and, when it has one, its \<open>prepare\<close> hook,
  which acts on the world and returns the definitions of its native tools. A handler keeps what it
  assigned before it raised.
\<close>

record 'w agent =
  ag_run :: "worker_context \<Rightarrow> 'w \<Rightarrow> worker_context \<times> 'w \<times> val res"
  ag_prepare :: "(worker_context \<Rightarrow> val list \<Rightarrow> bool \<Rightarrow> val \<Rightarrow> 'w \<Rightarrow> 'w \<times> (string \<times> 'w tool_definition) list res) option"
    \<comment> \<open>the flag tells whether an MCP server runs; the value is the model identifier\<close>

record 'w component_setup =
  cs_lib :: lib
  cs_frames :: nat
  cs_ctab :: ctab
  cs_sids :: sids
  cs_registry :: registry
  cs_python :: "(string \<times> 'w tool_definition) list"
  cs_agent_types :: "(string \<times> (val \<Rightarrow> 'w agent res)) list"
  cs_input_models :: "(string \<times> string) list"        \<comment> \<open>class of a schema identifier\<close>
  cs_contexts :: "(string \<times> tool_context) list"      \<comment> \<open>empty when the host makes them\<close>
  cs_start_mcp :: "'w \<Rightarrow> 'w \<times> unit res"
  cs_close_integration :: "'w \<Rightarrow> 'w \<times> unit res"
  cs_close_mcp :: "'w \<Rightarrow> 'w \<times> unit res"
  cs_shutdown :: "string \<Rightarrow> 'w \<Rightarrow> 'w \<times> unit res"

record 'w component_host =
  ch_bindings :: "val list option"
  ch_local :: "val list option"
  ch_agent_spec :: "val option"
  ch_agent :: "'w agent option"
  ch_context :: "worker_context option"
  ch_tools :: "'w tool_host"
  ch_definitions :: "(string \<times> 'w tool_definition) list"
  ch_integration :: bool
  ch_mcp :: bool
  ch_host_closed :: bool

type_synonym 'w component_reply = "'w component_host \<times> 'w \<times> val res"

definition new_component_host :: "'w component_host" where
  "new_component_host = \<lparr>ch_bindings = None, ch_local = None, ch_agent_spec = None, ch_agent = None, ch_context = None,
     ch_tools = new_tool_host, ch_definitions = [], ch_integration = False, ch_mcp = False, ch_host_closed = False\<rparr>"

definition scope_is :: "string \<Rightarrow> val \<Rightarrow> bool res" where
  "scope_is scope b = rbind (item b ''execution_scope'') (\<lambda>s. Inr (py_eq s (VStr scope)))"

definition prepare_local_tools :: "val \<Rightarrow> 'w component_host \<Rightarrow> 'w component_host \<times> val res" where
  "prepare_local_tools params h =
     (if ch_local h \<noteq> None then (h, Inl (RpcError ''TOOL_HOST_ALREADY_PREPARED''))
      else (case rbind (item params ''tools'') (\<lambda>t. rbind (as_list t) (\<lambda>bs.
                 rbind (rany (\<lambda>b. rbind (scope_is ''agent_state'' b) (\<lambda>x. Inr (\<not> x))) bs) (\<lambda>foreign.
                 rbind (guard (\<not> foreign) (RpcError ''TOOL_EXECUTION_SCOPE_MISMATCH'')) (\<lambda>_. Inr bs)))) of
              Inl e \<Rightarrow> (h, Inl e)
            | Inr bs \<Rightarrow> (h\<lparr>ch_local := Some bs\<rparr>, Inr (VList bs))))"

section \<open>Preparing the agent\<close>

definition is_native :: "val \<Rightarrow> bool res" where
  "is_native b = has b ''native_agent''"

definition check_agent_tools :: "val \<Rightarrow> 'w component_host \<Rightarrow> val list res" where
  \<comment> \<open>all bindings of a preparation whose local tools are the prepared ones\<close>
  "check_agent_tools params h =
     rbind (item params ''tools'') (\<lambda>t. rbind (as_list t) (\<lambda>bs.
     rbind (rfilter (scope_is ''agent_state'') bs) (\<lambda>mine.
     rbind (guard (ch_agent_spec h = None \<and>
               (case ch_local h of None \<Rightarrow> False | Some ls \<Rightarrow> py_eq (VList mine) (VList ls)))
              (RpcError ''AGENT_TOOL_TABLE_MISMATCH'')) (\<lambda>_. Inr bs))))"

definition construct_agent :: "'w component_setup \<Rightarrow> val \<Rightarrow> 'w agent res" where
  "construct_agent S spec =
     rbind (item spec ''implementation'') (\<lambda>implementation.
     rbind (item spec ''config'') (\<lambda>config.
     rbind (validate (cs_lib S) (cs_registry S) ''TypedConfig'' config) (\<lambda>_.
     rbind (item implementation ''id'') (\<lambda>i. rbind (as_str i) (\<lambda>key.
     rbind (lookup (cs_agent_types S) key (RpcError ''AGENT_ENTRYPOINT_UNAVAILABLE'')) (\<lambda>agent_type.
     rbind (item config ''data'') agent_type))))))"

definition python_tools :: "'w component_setup \<Rightarrow> val list \<Rightarrow> (string \<times> 'w tool_definition) list res" where
  "python_tools S bs =
     rbind (rfilter (\<lambda>b. rbind (is_native b) (\<lambda>n. Inr (\<not> n))) bs) (\<lambda>plain.
     rbind (rmap (\<lambda>b. rbind (item b ''name'') (\<lambda>n. rbind (as_str n) (\<lambda>name.
              rbind (item b ''implementation'') (\<lambda>i. rbind (item i ''id'') (\<lambda>k. rbind (as_str k) (\<lambda>key.
              rbind (lookup (cs_python S) key (KeyError key)) (\<lambda>dfn. Inr (name, dfn)))))))) plain) (\<lambda>ps.
       Inr (fold (\<lambda>p d. AList.update (fst p) (snd p) d) ps [])))"

definition default_contexts :: "val list \<Rightarrow> (string \<times> tool_context) list res" where
  \<comment> \<open>a tool in the agent's state sees its configuration and no environment\<close>
  "default_contexts bs =
     rbind (rmap (\<lambda>b. rbind (item b ''name'') (\<lambda>n. rbind (as_str n) (\<lambda>name. rbind (item b ''config'') (\<lambda>c. rbind (item c ''data'') (\<lambda>data.
              Inr (name, \<lparr>tc_config = data, tc_environment = VNone, tc_freeze = None\<rparr>)))))) bs) (\<lambda>ps.
       Inr (fold (\<lambda>p d. AList.update (fst p) (snd p) d) ps []))"

definition definitions_by_id :: "(string \<times> 'w tool_definition) list \<Rightarrow> val list \<Rightarrow> (string \<times> 'w tool_definition) list res" where
  "definitions_by_id dfns bs =
     rbind (rmap (\<lambda>b. rbind (item b ''implementation'') (\<lambda>i. rbind (item i ''id'') (\<lambda>k. rbind (as_str k) (\<lambda>key.
              rbind (item b ''name'') (\<lambda>n. rbind (as_str n) (\<lambda>name.
              rbind (lookup dfns name (KeyError name)) (\<lambda>dfn. Inr (key, dfn)))))))) bs) (\<lambda>ps.
       Inr (fold (\<lambda>p d. AList.update (fst p) (snd p) d) ps []))"

definition agent_definitions ::
  "'w component_setup \<Rightarrow> 'w agent \<Rightarrow> worker_context \<Rightarrow> val list \<Rightarrow> val \<Rightarrow> (string \<times> 'w tool_definition) list \<Rightarrow>
   'w component_host \<Rightarrow> 'w \<Rightarrow> 'w component_host \<times> 'w \<times> unit res" where
  \<comment> \<open>the definitions the host will execute: an agent with a hook brings its native ones\<close>
  "agent_definitions S agent ctx bs params selected h w =
     (case ag_prepare agent of
        None \<Rightarrow>
          (case rany is_native bs of
             Inl e \<Rightarrow> (h, w, Inl e)
           | Inr True \<Rightarrow> (h, w, Inl (RpcError ''NATIVE_TOOL_AGENT_MISMATCH''))
           | Inr False \<Rightarrow> (h\<lparr>ch_definitions := selected\<rparr>, w, Inr ()))
      | Some hook \<Rightarrow>
          (case (if selected \<noteq> [] then cs_start_mcp S w else (w, Inr ())) of
             (w1, Inl e) \<Rightarrow> (h, w1, Inl e)
           | (w1, Inr _) \<Rightarrow>
               (let h1 = h\<lparr>ch_mcp := selected \<noteq> []\<rparr>
                in case item params ''model_id'' of
                     Inl e \<Rightarrow> (h1, w1, Inl e)
                   | Inr model_id \<Rightarrow>
                       (case hook ctx bs (selected \<noteq> []) model_id w1 of
                          (w2, Inl e) \<Rightarrow> (h1, w2, Inl e)
                        | (w2, Inr native) \<Rightarrow>
                            (h1\<lparr>ch_integration := True,
                                ch_definitions := fold (\<lambda>p d. AList.update (fst p) (snd p) d) native selected\<rparr>, w2, Inr ())))))"

definition prepare_agent :: "'w component_setup \<Rightarrow> val \<Rightarrow> 'w component_host \<Rightarrow> 'w \<Rightarrow> 'w component_reply" where
  "prepare_agent S params h w =
     (case check_agent_tools params h of
        Inl e \<Rightarrow> (h, w, Inl e)
      | Inr bs \<Rightarrow>
          (let h0 = h\<lparr>ch_bindings := Some bs\<rparr>
           in case item params ''agent'' of
                Inl e \<Rightarrow> (h0, w, Inl e)
              | Inr spec \<Rightarrow>
                  (let h1 = h0\<lparr>ch_agent_spec := Some spec\<rparr>
                   in case construct_agent S spec of
                        Inl e \<Rightarrow> (h1, w, Inl e)
                      | Inr agent \<Rightarrow>
                          (let ctx = new_worker_context (VList bs); h2 = h1\<lparr>ch_agent := Some agent, ch_context := Some ctx\<rparr>
                           in case python_tools S bs of
                                Inl e \<Rightarrow> (h2, w, Inl e)
                              | Inr selected \<Rightarrow>
                                  (case agent_definitions S agent ctx bs params selected h2 w of
                                     (h3, w3, Inl e) \<Rightarrow> (h3, w3, Inl e)
                                   | (h3, w3, Inr _) \<Rightarrow>
                                       (case rbind (if cs_contexts S \<noteq> [] then Inr (cs_contexts S) else default_contexts bs) (\<lambda>contexts.
                                             rbind (definitions_by_id (ch_definitions h3) bs) (\<lambda>dfns.
                                             rbind (item spec ''implementation'') (\<lambda>implementation.
                                               Inr (contexts, dfns, implementation)))) of
                                          Inl e \<Rightarrow> (h3, w3, Inl e)
                                        | Inr (contexts, dfns, implementation) \<Rightarrow>
                                            (let (t, r) = prepare (cs_lib S) (cs_registry S)
                                                            (case ch_local h3 of None \<Rightarrow> [] | Some ls \<Rightarrow> ls) dfns contexts implementation (ch_tools h3)
                                             in (h3\<lparr>ch_tools := t\<rparr>, w3, rbind r (\<lambda>_. Inr (VList bs))))))))))"

section \<open>Calls\<close>

definition check_local_call :: "'w component_setup \<Rightarrow> val \<Rightarrow> 'w component_host \<Rightarrow> val res" where
  \<comment> \<open>\<open>validate_tool\<close>; the admitted call\<close>
  "check_local_call S params h =
     rbind (item params ''call'') (\<lambda>call. rbind (item params ''binding'') (\<lambda>binding.
     rbind (case ch_local h of None \<Rightarrow> Inl (TypeError ''NoneType'') | Some ls \<Rightarrow> Inr (py_in binding ls)) (\<lambda>mine.
     rbind (guard mine (RpcError ''TOOL_EXECUTION_SCOPE_MISMATCH'')) (\<lambda>_.
     rbind (case ch_bindings h of None \<Rightarrow> Inl (TypeError ''NoneType'') | Some bs \<Rightarrow> Inr (py_in binding bs)) (\<lambda>bound.
     rbind (if \<not> bound then Inr False
            else rbind (item call ''implementation'') (\<lambda>a. rbind (item binding ''implementation'') (\<lambda>b.
                 if \<not> py_eq a b then Inr False
                 else rbind (item call ''name'') (\<lambda>n. rbind (item binding ''name'') (\<lambda>m. Inr (py_eq n m)))))) (\<lambda>matches.
     rbind (guard matches (RpcError ''TOOL_CALL_BINDING_MISMATCH'')) (\<lambda>_.
     rbind (item call ''name'') (\<lambda>n. rbind (as_str n) (\<lambda>name.
     rbind (lookup (ch_definitions h) name (KeyError name)) (\<lambda>dfn.
     rbind (item call ''arguments'') (\<lambda>arguments.
     rbind (guard (conforms (cs_lib S) [] (td_input_schema dfn) arguments) (RpcError ''INVALID_TOOL_ARGUMENTS'')) (\<lambda>_.
     rbind (has arguments ''context'') (\<lambda>injected.
     rbind (guard (\<not> injected) (RpcError ''TOOL_CONTEXT_IS_SYSTEM_INJECTED'')) (\<lambda>_. Inr call))))))))))))))"

definition execute_local_tool :: "'w component_setup \<Rightarrow> val \<Rightarrow> 'w component_host \<Rightarrow> 'w \<Rightarrow> 'w component_reply" where
  "execute_local_tool S params h w =
     (case check_local_call S params h of
        Inl e \<Rightarrow> (h, w, Inl e)
      | Inr call \<Rightarrow>
          (let (w', r) = execute_call (cs_lib S) (cs_sids S) (cs_registry S) (ch_tools h) call w in (h, w', r)))"

definition freeze_local_tools :: "'w component_setup \<Rightarrow> bool \<Rightarrow> 'w component_host \<Rightarrow> 'w \<Rightarrow> 'w component_reply" where
  "freeze_local_tools S threads_alive h w =
     (let (t, w', r) = freeze (cs_shutdown S) threads_alive (ch_tools h) w in (h\<lparr>ch_tools := t\<rparr>, w', rbind r (\<lambda>_. Inr VNone)))"

section \<open>Running the agent\<close>

definition public_input :: "val \<Rightarrow> cls res" where
  \<comment> \<open>the class \<open>PublicInput\<close> made of a package schema: any value for every property, \<open>None\<close> for the optional ones\<close>
  "public_input schema =
     rbind (item schema ''properties'') (\<lambda>ps. rbind (as_dict ps) (\<lambda>properties.
     rbind (get schema ''required'' (VList [])) (\<lambda>required.
     rbind (rfilter (\<lambda>name. rbind (has required name) (\<lambda>b. Inr (\<not> b))) (map fst properties)) (\<lambda>optionals.
       Inr \<lparr>cls_doc = [], cls_hints = map (\<lambda>p. (fst p, AOther ''Any'')) properties,
            cls_defaults = map (\<lambda>name. (name, VNone)) optionals\<rparr>))))"

definition agent_input_model :: "'w component_setup \<Rightarrow> string \<Rightarrow> (ctab \<times> sids \<times> string) res" where
  \<comment> \<open>the class of the task's input, in a class table that has it\<close>
  "agent_input_model S schema_id =
     (case map_of (cs_input_models S) schema_id of
        Some model \<Rightarrow> Inr (cs_ctab S, cs_sids S, model)
      | None \<Rightarrow>
          rbind (ditem (extensions (cs_registry S)) schema_id) (\<lambda>schema.
          rbind (public_input schema) (\<lambda>c.
            Inr ((''PublicInput'', c) # cs_ctab S, (''PublicInput'', schema_id) # cs_sids S, ''PublicInput''))))"

definition run_agent ::
  "'w component_setup \<Rightarrow> (string \<Rightarrow> val \<Rightarrow> 'w \<Rightarrow> 'w \<times> val res) \<Rightarrow> val \<Rightarrow> 'w component_host \<Rightarrow> 'w \<Rightarrow> 'w component_reply" where
  "run_agent S request params h w =
     (case rbind (item params ''task'') (\<lambda>task. rbind (item task ''input'') (\<lambda>i. rbind (item i ''schema_ref'') (\<lambda>s. rbind (as_str s) (\<lambda>schema_id.
           rbind (agent_input_model S schema_id) (\<lambda>m.
           rbind (case (ch_context h, ch_agent h) of (Some c, Some a) \<Rightarrow> Inr (c, a) | _ \<Rightarrow> Inl (AttributeError ''context'')) (\<lambda>ca.
           rbind (item params ''observation'') (\<lambda>obs. rbind (item params ''seed'') (\<lambda>seed.
             Inr (task, m, ca, obs, seed))))))))) of
        Inl e \<Rightarrow> (h, w, Inl e)
      | Inr (task, (ct, sids, model), (ctx, agent), obs, seed) \<Rightarrow>
          (case bind_task \<lparr>ae_lib = cs_lib S, ae_registry = cs_registry S, ae_request = request\<rparr> (cs_frames S) ct sids task obs seed model ctx of
             (ctx1, Inl e) \<Rightarrow> (h\<lparr>ch_context := Some ctx1\<rparr>, w, Inl e)
           | (ctx1, Inr _) \<Rightarrow>
               (let (ctx2, w', r) = ag_run agent ctx1 w in (h\<lparr>ch_context := Some ctx2\<rparr>, w', r))))"

definition close_component :: "'w component_setup \<Rightarrow> 'w component_host \<Rightarrow> 'w \<Rightarrow> 'w component_reply" where
  \<comment> \<open>the MCP server is closed even when closing the integration raised; its own exception wins\<close>
  "close_component S h w =
     (if ch_host_closed h then (h, w, Inr VNone)
      else (let h1 = h\<lparr>ch_host_closed := True\<rparr>;
                (w1, r1) = (if ch_integration h then cs_close_integration S w else (w, Inr ()));
                (w2, r2) = (if ch_mcp h then cs_close_mcp S w1 else (w1, Inr ()))
            in (h1, w2, rbind r2 (\<lambda>_. rbind r1 (\<lambda>_. Inr VNone)))))"

end
