(* ===== verification/Component_Correct.thy ===== *)
theory Component_Correct
  imports Component_Host
begin

text \<open>
  What the agent process guarantees: the public view it rebuilds from a package schema shows the
  data of the package's own instance, local tools are executed on their prepared bindings only, and
  an agent runs for one task.
\<close>

section \<open>The public view of a task\<close>

lemma rfilter_Inr [simp]: "rfilter (\<lambda>x. Inr (p x)) xs = Inr (filter p xs)"
  by (induction xs) auto

lemma dump_dump [simp]: "dump (dump v) = dump v"
  by (induction v rule: dump.induct) auto

lemma public_input_of_schema:
  assumes "model_schema ct m [] = Inr s" "map_of ct m = Some c"
  shows "\<exists>defaults. public_input (VDict ([(''$schema'', x), (''$id'', y)] @ s)) =
    Inr \<lparr>cls_doc = [], cls_hints = map (\<lambda>h. (fst h, AOther ''Any'')) (model_hints c), cls_defaults = defaults\<rparr>"
proof -
  from assms obtain props where p: "map fst props = map fst (model_hints c)" "map_of s ''properties'' = Some (VDict props)"
    and r: "\<exists>req. map_of s ''required'' = Some (VList req)"
    by (elim model_schema_Inr) auto
  have "map (\<lambda>q. (fst q, AOther ''Any'')) props = map (\<lambda>k. (k, AOther ''Any'')) (map fst props)" by simp
  also have "\<dots> = map (\<lambda>h. (fst h, AOther ''Any'')) (model_hints c)" unfolding p(1) by simp
  finally show ?thesis using p r by (auto simp: public_input_def ditem_def get_or_def)
qed

lemma keyed_all2:
  assumes "map fst e = map fst hs" "distinct (map fst hs)" "\<And>h v. h \<in> set hs \<Longrightarrow> Q h v v"
  shows "list_all2 (\<lambda>h p. fst p = fst h \<and> (\<exists>v. map_of e (fst h) = Some v \<and> Q h v (snd p))) hs e"
proof (rule list_all2_all_nthI)
  show l: "length hs = length e" using assms(1) by (metis length_map)
  fix i assume i: "i < length hs"
  with l assms(1) have "fst (hs ! i) = fst (e ! i)" by (metis nth_map)
  moreover from this i l assms(1,2) have "map_of e (fst (hs ! i)) = Some (snd (e ! i))"
    by (metis map_of_is_SomeI nth_mem prod.collapse)
  ultimately show "fst (e ! i) = fst (hs ! i) \<and> (\<exists>v. map_of e (fst (hs ! i)) = Some v \<and> Q (hs ! i) v (snd (e ! i)))"
    using assms(3) [of "hs ! i"] i by simp
qed

definition public_class :: "(string \<times> ann) list \<Rightarrow> dict \<Rightarrow> cls" where
  "public_class hs ds = \<lparr>cls_doc = [], cls_hints = map (\<lambda>h. (fst h, AOther ''Any'')) hs, cls_defaults = ds\<rparr>"

lemma public_class_hints: "model_hints (public_class (model_hints c) ds) = map (\<lambda>h. (fst h, AOther ''Any'')) (model_hints c)"
  by (auto simp: public_class_def model_hints_def filter_map filter_id_conv comp_def split_def)

lemma init_public:
  assumes "map fst e = map fst (model_hints c)" "distinct (map fst (model_hints c))"
  shows "init_model (Suc (Suc n)) ((''PublicInput'', public_class (model_hints c) ds) # ct) ''PublicInput'' e =
    Inr (VModel ''PublicInput'' e)"
proof -
  let ?ct = "(''PublicInput'', public_class (model_hints c) ds) # ct"
  have k: "fst ` set e = fst ` set (model_hints c)" using assms(1) by (metis list.set_map)
  have "list_all2 (\<lambda>h p. fst p = fst h \<and> (\<exists>v. field_source (public_class (model_hints c) ds) e (fst h) = Some v \<and>
      restore (Suc n) ?ct (snd h) v = Inr (snd p))) (map (\<lambda>h. (fst h, AOther ''Any'')) (model_hints c)) e"
    by (rule list_all2_mono [OF keyed_all2 [of e _ "\<lambda>h v x. x = v \<and> snd h = AOther ''Any''"]])
       (use assms in \<open>auto simp: comp_def field_source_def\<close>)
  then show ?thesis using k by (subst init_model_Inr_iff) (auto simp: public_class_hints image_image simp del: restore.simps, force)
qed

text \<open>C36: The public input class that the agent process builds from a package's schema accepts the
  envelope of every instance of the package's class and shows the same data.\<close>
theorem public_view_is_faithful:
  assumes "model_schema ct m [] = Inr s" "map_of ct m = Some c" "distinct (map fst (model_hints c))"
    and "map_of (extensions (cs_registry S)) schema_id = Some (VDict ([(''$schema'', x), (''$id'', y)] @ s))"
    and "map_of (cs_input_models S) schema_id = None" "schema_id \<noteq> []"
    and "init_model (Suc n) ct m given = Inr w" "model_to_envelope sids w = Inr env" "map_of sids m = Some schema_id"
  shows "\<exists>ct' sids' v. agent_input_model S schema_id = Inr (ct', sids', ''PublicInput'') \<and>
    model_from_envelope (Suc (Suc k)) ct' sids' ''PublicInput'' env = Inr v \<and> model_dump v = model_dump w"
proof -
  from public_input_of_schema [OF assms(1,2)] obtain ds where p:
    "public_input (VDict ([(''$schema'', x), (''$id'', y)] @ s)) = Inr (public_class (model_hints c) ds)"
    by (auto simp: public_class_def)
  let ?ct = "(''PublicInput'', public_class (model_hints c) ds) # cs_ctab S"
  let ?sids = "(''PublicInput'', schema_id) # cs_sids S"
  from assms(7) obtain e where e: "w = VModel m e" "map fst e = map fst (model_hints c)"
    unfolding init_model_Inr_iff [OF assms(2)] by (auto dest: list_all2_keys)
  let ?d = "map (\<lambda>q. (fst q, dump (snd q))) e"
  from assms(8,9,6) e have env: "env = VDict [(''schema_ref'', VStr schema_id), (''data'', VDict ?d)]" by simp
  have "init_model (Suc (Suc k)) ?ct ''PublicInput'' ?d = Inr (VModel ''PublicInput'' ?d)"
    using e(2) assms(3) by (intro init_public) (simp_all add: comp_def)
  then have "model_from_envelope (Suc (Suc k)) ?ct ?sids ''PublicInput'' env = Inr (VModel ''PublicInput'' ?d)"
    by (simp add: model_from_envelope_def env get_or_def schema_id_val_def ditem_def del: init_model.simps)
  moreover have "model_dump (VModel ''PublicInput'' ?d) = model_dump w" by (simp add: e(1))
  moreover have "agent_input_model S schema_id = Inr (?ct, ?sids, ''PublicInput'')"
    using p by (simp add: agent_input_model_def assms(4,5))
  ultimately show ?thesis by blast
qed

section \<open>Local tools\<close>

lemma check_local_call_parts:
  assumes "check_local_call S params h = Inr call"
  shows "\<exists>ls bs binding name dfn arguments. ch_local h = Some ls \<and> ch_bindings h = Some bs \<and>
    item params ''binding'' = Inr binding \<and> py_in binding ls \<and> py_in binding bs \<and> item params ''call'' = Inr call \<and>
    item call ''name'' = Inr (VStr name) \<and> map_of (ch_definitions h) name = Some dfn \<and>
    item call ''arguments'' = Inr arguments \<and> conforms (cs_lib S) [] (td_input_schema dfn) arguments \<and>
    has arguments ''context'' = Inr False"
proof -
  from assms obtain ls bs binding nm name dfn arguments where
    "(case ch_local h of None \<Rightarrow> Inl (TypeError ''NoneType'') | Some ls \<Rightarrow> Inr (py_in binding ls)) = Inr True"
    "(case ch_bindings h of None \<Rightarrow> Inl (TypeError ''NoneType'') | Some bs \<Rightarrow> Inr (py_in binding bs)) = Inr True"
    "item params ''binding'' = Inr binding" "item params ''call'' = Inr call" "item call ''name'' = Inr nm" "as_str nm = Inr name"
    "lookup (ch_definitions h) name (KeyError name) = Inr dfn" "item call ''arguments'' = Inr arguments"
    "conforms (cs_lib S) [] (td_input_schema dfn) arguments" "has arguments ''context'' = Inr False"
    unfolding check_local_call_def rbind_Inr_iff guard_Inr_iff by (auto split: if_splits)
  then show ?thesis by (auto simp: lookup_def split: option.splits)
qed

text \<open>A local tool call succeeds or changes the world only on an open host, for a binding that was
  prepared both for the tools and the agent, with arguments that conform to the tool's schema and
  do not inject the context.\<close>
theorem local_tools_run_as_prepared:
  assumes "execute_local_tool S params h w = (h', w', r)" "w' \<noteq> w \<or> (\<exists>v. r = Inr v)"
  shows "h' = h \<and> \<not> frozen (ch_tools h) \<and>
    (\<exists>ls bs binding call name dfn arguments. ch_local h = Some ls \<and> ch_bindings h = Some bs \<and>
      item params ''binding'' = Inr binding \<and> py_in binding ls \<and> py_in binding bs \<and> item params ''call'' = Inr call \<and>
      item call ''name'' = Inr (VStr name) \<and> map_of (ch_definitions h) name = Some dfn \<and>
      item call ''arguments'' = Inr arguments \<and> conforms (cs_lib S) [] (td_input_schema dfn) arguments \<and>
      has arguments ''context'' = Inr False)"
proof (cases "check_local_call S params h")
  case (Inr call)
  with assms have "\<not> frozen (ch_tools h)" "h' = h"
    using frozen_call [of "ch_tools h"] by (auto simp: execute_local_tool_def Let_def split: prod.splits)
  with check_local_call_parts [OF Inr] show ?thesis by blast
qed (use assms in \<open>auto simp: execute_local_tool_def\<close>)

section \<open>A small agent process\<close>

definition gsm8k_schema :: dict where
  "gsm8k_schema = (case model_schema package_models ''Gsm8kInput'' [] of Inr s \<Rightarrow> s | Inl _ \<Rightarrow> [])"

definition small_component :: "int component_setup" where
  "small_component = \<lparr>cs_lib = rational_lib, cs_frames = 9, cs_ctab = [], cs_sids = [],
     cs_registry = \<lparr>core = VDict [], extensions = [(''urn:i'', VDict ([(''$schema'', VNone), (''$id'', VStr ''urn:i'')] @ gsm8k_schema))]\<rparr>,
     cs_python = [], cs_agent_types = [], cs_input_models = [], cs_contexts = [], cs_start_mcp = (\<lambda>w. (w, Inr ())),
     cs_close_integration = (\<lambda>w. (w, Inr ())), cs_close_mcp = (\<lambda>w. (w, Inr ())), cs_shutdown = (\<lambda>s w. (w, Inr ()))\<rparr>"

theorem public_view_is_faithful_witness:
  "\<exists>ct' sids' v. agent_input_model small_component ''urn:i'' = Inr (ct', sids', ''PublicInput'') \<and>
     model_from_envelope (Suc (Suc 3)) ct' sids' ''PublicInput''
       (VDict [(''schema_ref'', VStr ''urn:i''), (''data'', VDict [(''instruction'', VStr ''2+2?'')])]) = Inr v \<and>
     model_dump v = model_dump (VModel ''Gsm8kInput'' [(''instruction'', VStr ''2+2?'')])"
proof (rule public_view_is_faithful [where sids = "[(''Gsm8kInput'', ''urn:i'')]" and n = 3
      and given = "[(''instruction'', VStr ''2+2?'')]" and s = gsm8k_schema and ct = package_models])
  have "ok (model_schema package_models ''Gsm8kInput'' [])" by code_simp
  then show "model_schema package_models ''Gsm8kInput'' [] = Inr gsm8k_schema" by (auto simp: ok_iff gsm8k_schema_def)
  show "map_of package_models ''Gsm8kInput'' = Some Gsm8kInput" by (simp add: package_models_def)
  show "distinct (map fst (model_hints Gsm8kInput))" by (simp add: Gsm8kInput_def model_hints_def prefix_of_def)
  show "map_of (extensions (cs_registry small_component)) ''urn:i'' =
    Some (VDict ([(''$schema'', VNone), (''$id'', VStr ''urn:i'')] @ gsm8k_schema))" by (simp add: small_component_def)
  show "init_model (Suc 3) package_models ''Gsm8kInput'' [(''instruction'', VStr ''2+2?'')] =
    Inr (VModel ''Gsm8kInput'' [(''instruction'', VStr ''2+2?'')])" by code_simp
qed (simp_all add: small_component_def)

definition counting_component :: "int component_host" where
  "counting_component = new_component_host\<lparr>ch_local := Some [counter_binding], ch_bindings := Some [counter_binding],
     ch_tools := counter_host, ch_definitions := map (\<lambda>(n, b, d, c). (n, d)) (tools counter_host)\<rparr>"


definition counting_call :: dict where
  "counting_call = [(''binding'', counter_binding), (''call'', counter_call)]"

theorem local_tools_run_as_prepared_witness:
  "\<not> frozen (ch_tools counting_component) \<and>
    (\<exists>ls bs binding call name dfn arguments. ch_local counting_component = Some ls \<and> ch_bindings counting_component = Some bs \<and>
      item (VDict counting_call) ''binding'' = Inr binding \<and> py_in binding ls \<and> py_in binding bs \<and>
      item (VDict counting_call) ''call'' = Inr call \<and>
      item call ''name'' = Inr (VStr name) \<and> map_of (ch_definitions counting_component) name = Some dfn \<and>
      item call ''arguments'' = Inr arguments \<and> conforms (cs_lib (small_component\<lparr>cs_registry := counter_registry\<rparr>)) [] (td_input_schema dfn) arguments \<and>
      has arguments ''context'' = Inr False)"
proof -
  let ?S = "small_component\<lparr>cs_registry := counter_registry\<rparr>"
  obtain h w r where e: "execute_local_tool ?S (VDict counting_call) counting_component 5 = (h, w, r)" by (metis prod_cases3)
  have "fst (snd (execute_local_tool ?S (VDict counting_call) counting_component 5)) = 6" by code_simp
  then have d: "w \<noteq> 5 \<or> (\<exists>v. r = Inr v)" unfolding e by simp
  show ?thesis by (rule conjunct2 [OF local_tools_run_as_prepared [OF e d]])
qed

end
