(* ===== verification/Env_World.thy ===== *)
theory Env_World
  imports Env_Host
begin

text \<open>
  Properties of a plugin's world that hold through everything an environment host may be asked. A
  package and its tools have to keep the property one call at a time; the locale derives that every
  sequence of served requests keeps it, because the table only ever holds tools of the package.
\<close>

definition own_tools :: "'w env_setup \<Rightarrow> 'w env_host \<Rightarrow> bool" where
  "own_tools S h \<longleftrightarrow> (\<forall>(n, b, d, c) \<in> set (tools (eh_tools h)). d \<in> snd ` set (es_definitions S))"

lemma own_tools_new [simp]: "own_tools S (new_env_host component ident)"
  by (simp add: own_tools_def new_env_host_def new_tool_host_def)

lemma stage_tool_own:
  assumes "stage_tool L reg ds cs agent b staged = Inr staged'" "\<forall>(n, b, d, c) \<in> set staged. d \<in> snd ` set ds"
  shows "\<forall>(n, b, d, c) \<in> set staged'. d \<in> snd ` set ds"
proof -
  from assms(1) obtain name key d c where "staged' = staged @ [(name, b, d, c)]" "map_of ds key = Some d"
    unfolding stage_tool_def rbind_Inr_iff lookup_Inr_iff by auto
  with assms(2) show ?thesis by (auto dest!: map_of_SomeD intro: rev_image_eqI)
qed

lemma prepare_own:
  assumes "prepare L reg bs ds cs agent host = (host', r)" "\<forall>(n, b, d, c) \<in> set (tools host). d \<in> snd ` set ds"
  shows "\<forall>(n, b, d, c) \<in> set (tools host'). d \<in> snd ` set ds"
proof (cases "prepared host \<or> frozen host")
  case False
  show ?thesis
  proof (cases "rfold (stage_tool L reg ds cs agent) bs []")
    case (Inr staged)
    then have "\<forall>(n, b, d, c) \<in> set staged. d \<in> snd ` set ds"
      by (rule rfold_invariant) (simp, rule stage_tool_own)
    with assms(1) False Inr show ?thesis by (auto simp: prepare_def)
  qed (use assms False in \<open>auto simp: prepare_def\<close>)
qed (use assms in \<open>auto simp: prepare_def\<close>)

lemma freeze_tools_same: "freeze run alive t w = (t', w', r) \<Longrightarrow> tools t' = tools t"
  by (auto simp: freeze_def split: if_splits prod.splits sum.splits)

locale env_world =
  fixes S :: "'w env_setup" and P :: "'w \<Rightarrow> bool"
  assumes new_keeps: "ep_new (es_package S) config w = (w', r) \<Longrightarrow> P w \<Longrightarrow> P w'"
    and reset_keeps: "ep_reset (es_package S) task ctx w = (w', obs) \<Longrightarrow> P w \<Longrightarrow> P w'"
    and snapshot_keeps: "ep_snapshot (es_package S) ctx w = (w', obs) \<Longrightarrow> P w \<Longrightarrow> P w'"
    and close_keeps: "ep_close (es_package S) ctx w = (w', r) \<Longrightarrow> P w \<Longrightarrow> P w'"
    and tool_keeps: "d \<in> snd ` set (es_definitions S) \<Longrightarrow> td_execute d arguments tc w = (w', obs) \<Longrightarrow> P w \<Longrightarrow> P w'"
    and shutdown_keeps: "es_shutdown S s w = (w', r) \<Longrightarrow> P w \<Longrightarrow> P w'"
begin

lemma run_shutdowns_keeps: "run_shutdowns (es_shutdown S) ss w = (w', r) \<Longrightarrow> P w \<Longrightarrow> P w'"
  by (induction ss arbitrary: w) (auto split: prod.splits sum.splits intro: shutdown_keeps)

lemma freeze_keeps: "freeze (es_shutdown S) alive t w = (t', w', r) \<Longrightarrow> P w \<Longrightarrow> P w'"
  by (auto simp: freeze_def split: if_splits prod.splits sum.splits intro: run_shutdowns_keeps)

lemma execute_keeps:
  assumes "execute_call L sids reg (eh_tools h) call w = (w', r)" "own_tools S h" "P w"
  shows "P w'"
proof (cases "call_target L (eh_tools h) call")
  case (Inr t)
  obtain d c arguments where t: "t = (d, c, arguments)" by (cases t)
  with Inr have "\<exists>n b. (n, b, d, c) \<in> set (tools (eh_tools h))"
    by (auto elim!: call_target_Inr dest!: map_of_SomeD)
  with assms(2) have "d \<in> snd ` set (es_definitions S)" by (auto simp: own_tools_def)
  with assms(1,3) Inr t tool_keeps show ?thesis by (auto simp: execute_call_def split: prod.splits)
qed (use assms in \<open>auto simp: execute_call_def\<close>)

lemma reset_environment_keeps:
  assumes "reset_environment S now p h w = (h', w', r)" "P w"
  shows "P w' \<and> eh_tools h' = eh_tools h"
  using assms by (auto simp: reset_environment_def Let_def split: sum.splits prod.splits
      dest: reset_keeps dest!: make_context_host)

lemma state_snapshot_keeps:
  assumes "state_snapshot S now p h w = (h', w', r)" "P w"
  shows "P w' \<and> eh_tools h' = eh_tools h"
  using assms by (auto simp: state_snapshot_def split: if_splits sum.splits prod.splits
      dest: snapshot_keeps dest!: make_context_host)

lemma close_environment_keeps:
  assumes "close_environment S alive now h w = (h', w', r)" "P w"
  shows "P w' \<and> tools (eh_tools h') = tools (eh_tools h)"
proof -
  obtain t w1 r1 where f: "freeze (es_shutdown S) alive (eh_tools h) w = (t, w1, r1)" by (metis prod_cases3)
  from freeze_keeps [OF f assms(2)] freeze_tools_same [OF f] f assms show ?thesis
    by (auto simp: close_environment_def Let_def split: if_splits sum.splits prod.splits
        dest: close_keeps dest!: make_context_host)
qed

lemma serve_keeps:
  assumes "serve S now q h w = (h', w', r)" "own_tools S h" "P w"
  shows "own_tools S h' \<and> P w'"
proof -
  have same: "own_tools S h'" if "tools (eh_tools h') = tools (eh_tools h)"
    using assms(2) that by (simp add: own_tools_def)
  show ?thesis
  proof (cases q)
    case (Env_Prepare p)
    with assms same show ?thesis by (auto simp: prepare_environment_def split: sum.splits prod.splits dest: new_keeps)
  next
    case (Env_Reset p)
    with assms same reset_environment_keeps show ?thesis by fastforce
  next
    case (Env_Snapshot p)
    with assms same state_snapshot_keeps show ?thesis by fastforce
  next
    case (Tools_Prepare p)
    with assms show ?thesis
      by (auto simp: prepare_tools_def own_tools_def Let_def split: sum.splits prod.splits dest!: prepare_own)
  next
    case (Tools_Execute p)
    with assms same execute_keeps show ?thesis
      by (auto simp: execute_tool_def Let_def split: sum.splits prod.splits)
  next
    case (Tools_Freeze alive)
    obtain t w1 r1 where f: "freeze (es_shutdown S) alive (eh_tools h) w = (t, w1, r1)" by (metis prod_cases3)
    from freeze_keeps [OF f assms(3)] freeze_tools_same [OF f] f assms Tools_Freeze same show ?thesis
      by (auto simp: freeze_environment_def split: sum.splits prod.splits dest: shutdown_keeps)
  next
    case (Host_Close alive)
    with assms same close_environment_keeps show ?thesis by fastforce
  qed (use assms in auto)
qed

lemma serve_all_keeps:
  assumes "serve_all S qs h w = (h', w')" "own_tools S h" "P w"
  shows "own_tools S h' \<and> P w'"
  using assms
proof (induction qs arbitrary: h w)
  case (Cons q qs)
  obtain now k where q: "q = (now, k)" by (cases q)
  obtain h1 w1 r where s: "serve S now k h w = (h1, w1, r)" by (metis prod_cases3)
  with Cons serve_keeps [OF s] q show ?case by auto
qed simp

end

end
