(* ===== verification/Counter.thy ===== *)
theory Counter
  imports Env_World Scorer_Host Session
begin

text \<open>
  The author examples of the repository: the counter environment with its progress scorer
  (\<open>reference/examples/counter_environment.py\<close>), the tool that moves it (\<open>tools.py\<close>), the scorer of
  single generations (\<open>generation_scoring.py\<close>) and the file tool of \<open>reference/extension_templates.py\<close>.
  They are plugins of the hosts: the environment is a package of the environment host, whose world
  is the environment object with the artifact store \<open>'a\<close> it writes to.
\<close>

section \<open>Models\<close>

definition CounterInput :: cls where
  "CounterInput =
     \<lparr>cls_doc = [],
      cls_hints =
      [(''goal'', AAnnotated AInt [MField ''Target counter value'' (Some (VInt 1)) None]),
       (''note'', AAnnotated (AUnion [AStr, ANoneType]) [MField ''Optional task note'' None None])],
      cls_defaults = [(''note'', VNone)]\<rparr>"

definition CounterState :: cls where
  "CounterState =
     \<lparr>cls_doc = [],
      cls_hints =
      [(''value'', AAnnotated AInt [MField ''Current counter value'' (Some (VInt 0)) None]),
       (''goal'', AAnnotated AInt [MField ''Target counter value'' (Some (VInt 1)) None])],
      cls_defaults = []\<rparr>"

definition counter_models :: ctab where
  "counter_models = [(''CounterInput'', CounterInput), (''CounterState'', CounterState)]"

definition counter_ids :: "(string \<times> string) list" where
  "counter_ids = [(''CounterInput'', ''urn:example:counter:input:v1''), (''CounterState'', ''urn:example:counter:state:v1'')]"

definition register_counter :: "lib \<Rightarrow> registry \<Rightarrow> sids \<Rightarrow> sids \<times> registry res" where
  \<comment> \<open>\<open>register_schemas\<close>: generating a schema also binds the class to its identifier\<close>
  "register_counter L reg sids =
     fold (\<lambda>(model, identifier) (ids, r).
         (case r of
            Inl e \<Rightarrow> (ids, Inl e)
          | Inr reg' \<Rightarrow>
              (case model_json_schema counter_models model identifier ids of
                 (ids', Inl e) \<Rightarrow> (ids', Inl e)
               | (ids', Inr schema) \<Rightarrow> (ids', register L reg' (VDict schema)))))
       counter_ids (sids, Inr reg)"

section \<open>Numbers\<close>

definition num_ge :: "val \<Rightarrow> val \<Rightarrow> bool res" where
  \<comment> \<open>\<open>a >= b\<close> of a number with any value\<close>
  "num_ge a b = rbind (as_num a) (\<lambda>x. rbind (as_num b) (\<lambda>y. Inr (dbl_le y x)))"

fun is_int :: "val \<Rightarrow> bool" where
  "is_int (VInt i) = True"
| "is_int (VBool b) = True"
| "is_int _ = False"

fun to_float :: "dbl \<Rightarrow> dbl res" where
  \<comment> \<open>an integer as the operand of a float operation\<close>
  "to_float (Fin x) = (case rnd x of Fin y \<Rightarrow> Inr (Fin y) | _ \<Rightarrow> Inl (RuntimeError ''OverflowError''))"
| "to_float x = Inr x"

fun dbl_neg :: "dbl \<Rightarrow> dbl" where
  "dbl_neg (Fin x) = Fin (- x)"
| "dbl_neg PInf = NInf"
| "dbl_neg NInf = PInf"
| "dbl_neg NaN = NaN"

definition num_add :: "val \<Rightarrow> val \<Rightarrow> val res" where
  \<comment> \<open>\<open>a + b\<close> of numbers\<close>
  "num_add a b =
     (if is_int a \<and> is_int b then rbind (as_int a) (\<lambda>i. rbind (as_int b) (\<lambda>j. Inr (VInt (i + j))))
      else rbind (as_num a) (\<lambda>x. rbind (as_num b) (\<lambda>y. rbind (to_float x) (\<lambda>x'. rbind (to_float y) (\<lambda>y'.
             Inr (VFloat (dbl_sub x' (dbl_neg y'))))))))"

fun dbl_div :: "dbl \<Rightarrow> dbl \<Rightarrow> dbl" where
  \<comment> \<open>float division by a divisor other than zero\<close>
  "dbl_div (Fin x) (Fin y) = rnd (x / y)"
| "dbl_div NaN _ = NaN"
| "dbl_div _ NaN = NaN"
| "dbl_div (Fin x) _ = Fin 0"
| "dbl_div PInf (Fin y) = (if y < 0 then NInf else PInf)"
| "dbl_div NInf (Fin y) = (if y < 0 then PInf else NInf)"
| "dbl_div _ _ = NaN"

definition num_div :: "val \<Rightarrow> val \<Rightarrow> dbl res" where
  \<comment> \<open>\<open>a / b\<close>; the quotient of two integers is rounded once\<close>
  "num_div a b =
     rbind (as_num a) (\<lambda>x. rbind (as_num b) (\<lambda>y.
     if y = Fin 0 then Inl (RuntimeError ''ZeroDivisionError'')
     else if is_int a \<and> is_int b
     then (case dbl_div x y of Fin q \<Rightarrow> Inr (Fin q) | _ \<Rightarrow> Inl (RuntimeError ''OverflowError''))
     else rbind (to_float x) (\<lambda>x'. rbind (to_float y) (\<lambda>y'. Inr (dbl_div x' y')))))"

section \<open>The environment\<close>

record 'a counter_world =
  cw_closed :: bool
  cw_value :: val
  cw_goal :: "val option"        \<comment> \<open>no attribute before the first reset\<close>
  cw_image :: "val option"
  cw_artifacts :: 'a

definition attribute :: "string \<Rightarrow> val option \<Rightarrow> val res" where
  "attribute name a = (case a of None \<Rightarrow> Inl (AttributeError name) | Some v \<Rightarrow> Inr v)"

definition counter_state :: "nat \<Rightarrow> 'a counter_world \<Rightarrow> val res" where
  "counter_state n w =
     rbind (attribute ''goal'' (cw_goal w)) (\<lambda>goal.
       init_model n counter_models ''CounterState'' [(''value'', cw_value w), (''goal'', goal)])"

definition observe :: "nat \<Rightarrow> sids \<Rightarrow> 'a counter_world \<Rightarrow> val res" where
  "observe n sids w =
     rbind (counter_state n w) (\<lambda>state.
     rbind (attribute ''image'' (cw_image w)) (\<lambda>img.
     rbind (structured_part sids state) (\<lambda>part.
     rbind (attribute ''goal'' (cw_goal w)) (\<lambda>goal.
     rbind (num_ge (cw_value w) goal) (\<lambda>reached.
       Inr (observation [text_part (VStr ''Increase the counter to its goal.''),
              VDict [(''kind'', VStr ''artifact''), (''artifact'', img)], part] reached False))))))"

definition counter_svg :: string where
  "counter_svg = ''<svg xmlns='' @ [CHR 0x22] @ ''http://www.w3.org/2000/svg'' @ [CHR 0x22] @ '' width='' @ [CHR 0x22] @ ''1'' @
     [CHR 0x22] @ '' height='' @ [CHR 0x22] @ ''1'' @ [CHR 0x22] @ ''><rect width='' @ [CHR 0x22] @ ''1'' @ [CHR 0x22] @
     '' height='' @ [CHR 0x22] @ ''1'' @ [CHR 0x22] @ ''/></svg>''"

definition counter_new :: "val \<Rightarrow> 'a counter_world \<Rightarrow> 'a counter_world \<times> unit res" where
  \<comment> \<open>\<open>__init__\<close>; the base class keeps the configuration, which nothing reads\<close>
  "counter_new config w =
     (if is_dict config
      then (w\<lparr>cw_closed := False, cw_value := VInt 0, cw_goal := None, cw_image := None\<rparr>, Inr ())
      else (w, Inl (TypeError ''Environment config must be an object'')))"

definition counter_reset ::
  "nat \<Rightarrow> sids \<Rightarrow> (nat list \<Rightarrow> string \<Rightarrow> 'a \<Rightarrow> 'a \<times> val res) \<Rightarrow> task_spec \<Rightarrow> env_context \<Rightarrow> 'a counter_world \<Rightarrow>
   'a counter_world \<times> val res" where
  "counter_reset n sids put task ctx w =
     (case task_input task of
        VModel c d \<Rightarrow>
          (if c \<noteq> ''CounterInput'' then (w, Inl (TypeError ''CounterEnvironment requires CounterInput''))
           else (case item (task_input task) ''goal'' of
                   Inl e \<Rightarrow> (w, Inl e)
                 | Inr goal \<Rightarrow>
                     (let w1 = w\<lparr>cw_goal := Some goal, cw_value := VInt 0\<rparr>
                      in case put (utf8 counter_svg) ''image/svg+xml'' (cw_artifacts w1) of
                           (a, Inl e) \<Rightarrow> (w1\<lparr>cw_artifacts := a\<rparr>, Inl e)
                         | (a, Inr img) \<Rightarrow>
                             (let w2 = w1\<lparr>cw_artifacts := a, cw_image := Some img\<rparr> in (w2, observe n sids w2)))))
      | _ \<Rightarrow> (w, Inl (TypeError ''CounterEnvironment requires CounterInput'')))"

definition counter_close :: "'a counter_world \<Rightarrow> 'a counter_world" where
  "counter_close w = w\<lparr>cw_closed := True, cw_value := VInt (- 1)\<rparr>"

definition counter_package ::
  "nat \<Rightarrow> sids \<Rightarrow> (nat list \<Rightarrow> string \<Rightarrow> 'a \<Rightarrow> 'a \<times> val res) \<Rightarrow> 'a counter_world env_package" where
  "counter_package n sids put =
     \<lparr>ep_input_model = ''CounterInput'', ep_config_model = None, ep_state_model = Some ''CounterState'',
      ep_new = counter_new, ep_reset = counter_reset n sids put,
      ep_snapshot = (\<lambda>ctx w. (w, counter_state n w)),
      ep_close = (\<lambda>ctx w. (counter_close w, Inr ()))\<rparr>"

section \<open>The tool\<close>

definition increment :: "nat \<Rightarrow> sids \<Rightarrow> 'a counter_world body" where
  "increment n sids kwargs context w =
     (case rbind (ditem kwargs ''amount'') (\<lambda>amount.
           if \<not> py_eq amount (VInt 1) then Inl (ValueError ''INVALID_COUNTER_INCREMENT'')
           else rbind (attribute ''goal'' (cw_goal w)) (\<lambda>goal.
                rbind (num_ge (cw_value w) goal) (\<lambda>reached.
                rbind (guard (\<not> reached) (ValueError ''INVALID_COUNTER_INCREMENT'')) (\<lambda>_.
                  num_add (cw_value w) amount)))) of
        Inl e \<Rightarrow> (w, Inl e)
      | Inr v \<Rightarrow> (let w' = w\<lparr>cw_value := v\<rparr> in (w', observe n sids w')))"

definition increment_function :: "nat \<Rightarrow> sids \<Rightarrow> 'a counter_world py_function" where
  "increment_function n sids = \<lparr>f_name = ''increment'', f_module = ''examples.tools'',
     f_doc = ''Increase the current counter by one.'',
     f_params = [\<lparr>p_name = ''amount'', p_kind = POSITIONAL_OR_KEYWORD, p_hint = Some AInt, p_default = None\<rparr>,
                 \<lparr>p_name = ''context'', p_kind = KEYWORD_ONLY, p_hint = None, p_default = None\<rparr>],
     f_return = Some observation_hint, f_body = increment n sids\<rparr>"

definition increment_tool :: "lib \<Rightarrow> nat \<Rightarrow> sids \<Rightarrow> 'a counter_world tool_definition res" where
  "increment_tool L n sids = tool L n counter_models (increment_function n sids) ''sandbox'' [] ''non_idempotent''"

section \<open>Scorers\<close>

definition progress_score :: "score_input \<Rightarrow> score_result res" where
  "progress_score request =
     (case si_state request of
        VModel c d \<Rightarrow>
          (if c \<noteq> ''CounterState'' then Inl (TypeError ''ProgressScorer requires CounterState'')
           else rbind (item (si_state request) ''value'') (\<lambda>v. rbind (item (si_state request) ''goal'') (\<lambda>goal.
                rbind (num_div v goal) (\<lambda>progress.
                rbind (num_ge v goal) (\<lambda>reached.
                  Inr (empty_score\<lparr>sr_success := Some reached,
                    sr_metrics := [metric ''progress'' (VFloat progress) ''ratio'' ''higher'', metric ''actions'' v ''count'' ''lower''],
                    sr_reward := Some progress\<rparr>))))))
      | _ \<Rightarrow> Inl (TypeError ''ProgressScorer requires CounterState''))"

definition generation_reward :: "string \<Rightarrow> val \<Rightarrow> val list res" where
  \<comment> \<open>nothing for another event and for a generation that the rule cannot evaluate\<close>
  "generation_reward expected event =
     rbind (item event ''kind'') (\<lambda>kind.
     if \<not> py_eq kind (VStr ''generation'') then Inr []
     else rbind (item event ''payload'') (\<lambda>generation.
          rbind (item generation ''response'') (\<lambda>content.
          if \<not> truthy content then Inr []
          else rbind (as_list content) (\<lambda>parts.
               rbind (rany (\<lambda>part. rbind (item part ''kind'') (\<lambda>k. Inr (\<not> py_eq k (VStr ''text'')))) parts) (\<lambda>other.
               if other then Inr []
               else rbind (rmap (\<lambda>part. rbind (item part ''text'') as_str) parts) (\<lambda>texts.
                    rbind (item generation ''generation_id'') (\<lambda>i.
                      Inr [VDict [(''generation_id'', i),
                             (''reward'', VFloat (float_bool (strip (concat texts) = expected)))]])))))))"

definition exact_answer_score :: "lib \<Rightarrow> score_input \<Rightarrow> scoring_context \<Rightarrow> score_result res" where
  "exact_answer_score L request ctx =
     rbind (read_reference_text request) (\<lambda>(final_answer, private_data).
     rbind (item private_data ''answer'') (\<lambda>a. rbind (as_str a) (\<lambda>answer.
     let expected = strip answer
     in rbind (binary_score (VBool (strip final_answer = expected))) (\<lambda>result.
        rbind (read_scoring_trajectory L request ctx) (\<lambda>events.
        rbind (rmap (generation_reward expected) events) (\<lambda>rewards.
          Inr (result\<lparr>sr_generation_rewards := Some (concat rewards)\<rparr>)))))))"

section \<open>The file tool\<close>

definition read_file_tool :: "nat \<Rightarrow> fs \<Rightarrow> session \<Rightarrow> val \<Rightarrow> nat list res" where
  "read_file_tool n f s arguments = rbind (item arguments ''path'') (\<lambda>p. rbind (as_str p) (read_file n f s))"

section \<open>The host with this package\<close>

definition counter_setup ::
  "lib \<Rightarrow> nat \<Rightarrow> sids \<Rightarrow> registry \<Rightarrow> (nat list \<Rightarrow> string \<Rightarrow> 'a \<Rightarrow> 'a \<times> val res) \<Rightarrow> 'a counter_world env_setup" where
  "counter_setup L n sids reg put =
     \<lparr>es_lib = L, es_frames = n, es_ctab = counter_models, es_sids = sids, es_registry = reg,
      es_package = counter_package n sids put,
      es_definitions = (case increment_tool L n sids of Inl _ \<Rightarrow> [] | Inr d \<Rightarrow> [(''examples.tools:increment'', d)]),
      es_shutdown = (\<lambda>s w. (w, Inr ()))\<rparr>"

text \<open>The value stays at or below a goal that is an integer in range, and at or above the mark of a closed counter.\<close>

definition fits :: "'a counter_world \<Rightarrow> bool" where
  "fits w \<longleftrightarrow> (\<forall>g. cw_goal w = Some (VInt g) \<and> 1 \<le> g \<and> g < 2 ^ 52 \<longrightarrow>
     (\<exists>k. num_of (cw_value w) = Some (Fin (of_int k)) \<and> - 1 \<le> k \<and> k \<le> g))"

lemma num_ge_ints: "num_of v = Some (Fin (of_int k)) \<Longrightarrow> num_ge v (VInt g) = Inr (g \<le> k)"
  by (simp add: num_ge_def as_num_def)

lemma num_add_one:
  assumes "num_of v = Some (Fin (of_int k))" "py_eq a (VInt 1)" "num_add v a = Inr v'" "- 1 \<le> k" "k < 2 ^ 52"
  shows "num_of v' = Some (Fin (of_int (k + 1)))"
proof -
  have a: "num_of a = Some (Fin 1)" "is_int a \<longrightarrow> as_int a = Inr 1"
    using assms(2) by (cases a; auto simp: of_bool_def split: if_splits)+
  have v: "is_int v \<longrightarrow> as_int v = Inr k" using assms(1) by (cases v) (auto simp: of_bool_def split: if_splits)
  have r: "rnd (of_int k) = Fin (of_int k)" "rnd (of_int (k + 1)) = Fin (of_int (k + 1))"
    using assms(4,5) by (auto intro!: rnd_of_int simp del: of_int_add)
  have one: "rnd 1 = Fin 1" using rnd_of_int [of 1] by simp
  show ?thesis
  proof (cases "is_int v \<and> is_int a")
    case True
    with a v assms(3) show ?thesis by (auto simp: num_add_def)
  next
    case False
    with assms(1,3) a r(1) one have "v' = VFloat (dbl_sub (Fin (of_int k)) (Fin (- 1)))"
      by (auto simp: num_add_def as_num_def)
    with r(2) show ?thesis by simp
  qed
qed

lemma counter_new_fits: "counter_new config w = (w', r) \<Longrightarrow> fits w \<Longrightarrow> fits w'"
  by (auto simp: counter_new_def fits_def split: if_splits)

lemma counter_reset_fits:
  assumes "counter_reset n sids put task ctx w = (w', r)" "fits w"
  shows "fits w'"
proof (cases "w' = w")
  case False
  with assms(1) have "num_of (cw_value w') = Some (Fin (of_int 0))"
    by (auto simp: counter_reset_def Let_def split: val.splits if_splits sum.splits prod.splits)
  then show ?thesis unfolding fits_def by (intro allI impI exI [of _ 0]) simp
qed (use assms(2) in simp)

lemma counter_close_fits: "fits (counter_close w)"
  unfolding fits_def counter_close_def by (intro allI impI exI [of _ "- 1"]) simp

lemma increment_fits:
  assumes "increment n sids kwargs c w = (w', r)" "fits w"
  shows "fits w'"
proof -
  have "w' = w \<or> (\<exists>amount goal v.
       py_eq amount (VInt 1) \<and> cw_goal w = Some goal \<and> num_ge (cw_value w) goal = Inr False \<and>
       num_add (cw_value w) amount = Inr v \<and> w' = w\<lparr>cw_value := v\<rparr>)"
    using assms(1) by (fastforce simp: increment_def attribute_def rbind_Inr_iff guard_Inr_iff Let_def
        split: sum.splits if_splits option.splits)
  then show ?thesis
  proof
    assume "\<exists>amount goal v. py_eq amount (VInt 1) \<and> cw_goal w = Some goal \<and> num_ge (cw_value w) goal = Inr False \<and>
       num_add (cw_value w) amount = Inr v \<and> w' = w\<lparr>cw_value := v\<rparr>"
    then obtain amount goal v where s: "py_eq amount (VInt 1) \<and> cw_goal w = Some goal \<and> num_ge (cw_value w) goal = Inr False \<and>
       num_add (cw_value w) amount = Inr v \<and> w' = w\<lparr>cw_value := v\<rparr>" by blast
    show ?thesis unfolding fits_def
    proof (intro allI impI)
      fix g assume g: "cw_goal w' = Some (VInt g) \<and> 1 \<le> g \<and> g < 2 ^ 52"
      with s assms(2) obtain k where k: "num_of (cw_value w) = Some (Fin (of_int k))" "- 1 \<le> k" "k \<le> g"
        unfolding fits_def by auto
      from s g num_ge_ints [OF k(1), of g] have less: "k < g" by auto
      with s k g num_add_one [OF k(1), of amount v] have "num_of v = Some (Fin (of_int (k + 1)))" by auto
      with s k(2) less show "\<exists>k. num_of (cw_value w') = Some (Fin (of_int k)) \<and> - 1 \<le> k \<and> k \<le> g"
        by (intro exI [of _ "k + 1"]) simp
    qed
  qed (use assms(2) in simp)
qed

lemma increment_tool_runs:
  assumes "increment_tool L n sids = Inr d" "td_execute d arguments c w = (w', r)"
  shows "w' = w \<or> (\<exists>kwargs cx r'. increment n sids kwargs cx w = (w', r'))"
proof -
  obtain n' ct model names wants validator where
    "td_execute d = tool_execute L n' ct model names wants validator (increment n sids)"
    using assms(1) by (auto simp: increment_tool_def tool_def increment_function_def rbind_Inr_iff Let_def split: option.splits)
  with assms(2) have "tool_execute L n' ct model names wants validator (increment n sids) arguments c w = (w', r)" by simp
  then show ?thesis
    by (auto simp: tool_execute_def Let_def split: sum.splits prod.splits)
qed

interpretation counter_host: env_world "counter_setup L n sids reg put" fits
  for L n sids reg and put :: "nat list \<Rightarrow> string \<Rightarrow> 'a \<Rightarrow> 'a \<times> val res"
proof unfold_locales
  fix d arguments tc and w w' :: "'a counter_world" and obs
  assume "d \<in> snd ` set (es_definitions (counter_setup L n sids reg put))" "td_execute d arguments tc w = (w', obs)" "fits w"
  then show "fits w'"
    by (cases "increment_tool L n sids :: 'a counter_world tool_definition res")
       (auto simp: counter_setup_def dest!: increment_tool_runs dest: increment_fits)
qed (auto simp: counter_setup_def counter_package_def intro: counter_new_fits counter_reset_fits counter_close_fits)

section \<open>Progress\<close>

lemma counter_state_is:
  assumes "counter_state n w = Inr s" "cw_goal w = Some (VInt g)" "num_of (cw_value w) = Some x"
  shows "s = VModel ''CounterState'' [(''value'', cw_value w), (''goal'', VInt g)]"
proof -
  have hints: "model_hints CounterState = cls_hints CounterState" by code_simp
  obtain m where m: "n = Suc m" using assms(1,2) by (cases n) (auto simp: counter_state_def attribute_def)
  have "m \<noteq> 0" using assms(1,2) m hints
    by (cases m) (auto simp: counter_state_def attribute_def counter_models_def CounterState_def CounterInput_def field_source_def)
  then obtain j where "m = Suc j" by (cases m) auto
  with assms m hints show ?thesis
    by (cases "cw_value w")
       (auto simp: counter_state_def attribute_def counter_models_def CounterState_def CounterInput_def field_source_def)
qed

lemma rnd_neg: "rnd a = Fin y \<Longrightarrow> rnd (- a) = Fin (- y)"
  by (auto simp: rnd_def Let_def split: if_splits)

lemma proper_ratio:
  assumes "0 < k" "k < g" "g < 2 ^ 52"
  shows "\<exists>r. rnd (of_int k / of_int g) = Fin r \<and> 0 \<le> r \<and> r < 1"
proof (rule rnd_below_one)
  have g: "(0::rat) < of_int g" using assms by simp
  then show "(0::rat) < of_int k / of_int g" using assms(1) by simp
  have "(of_int g :: rat) < of_int (2 ^ 52)" using assms(3) by (simp only: of_int_less_iff)
  then have "(of_int g :: rat) / 2 ^ 53 \<le> 1" by simp
  moreover have "(of_int k :: rat) + 1 \<le> of_int g" using assms(2) by (metis int_less_real_le of_int_1 of_int_add of_int_le_iff zless_iff_Suc_zadd add1_zle_eq)
  ultimately have "(of_int k :: rat) \<le> of_int g * (1 - 1 / 2 ^ 53)" by (simp add: algebra_simps)
  with g show "(of_int k :: rat) / of_int g \<le> 1 - 1 / 2 ^ 53" by (simp add: pos_divide_le_eq mult.commute)
qed

lemma progress_ratio:
  assumes "- 1 \<le> k" "k \<le> g" "1 \<le> g" "g < 2 ^ 52"
  shows "\<exists>r. rnd (of_int k / of_int g) = Fin r \<and> r \<le> 1 \<and> (r = 1 \<longleftrightarrow> k = g) \<and> (0 \<le> k \<longrightarrow> 0 \<le> r)"
proof -
  have one: "rnd 1 = Fin 1" using rnd_of_int [of 1] by simp
  have whole: "rnd (of_int g / of_int g) = Fin 1" using assms(3) one by simp
  consider "k = g" | "k = 0" "k \<noteq> g" | "0 < k" "k < g" | "k = - 1" using assms by linarith
  then show ?thesis
  proof cases
    case 3
    with proper_ratio [of k g] assms(4) show ?thesis by force
  next
    case 4
    obtain y where "rnd (of_int 1 / of_int g) = Fin y \<and> 0 \<le> y"
      using whole proper_ratio [of 1 g] assms(3,4) by (cases "g = 1") auto
    with rnd_neg [of "1 / of_int g" y] have "rnd (of_int k / of_int g) = Fin (- y)" "0 \<le> y" using 4 by auto
    with 4 assms(3) show ?thesis by auto
  qed (use whole in auto)
qed

lemma progress_of_state:
  assumes "si_state request = VModel ''CounterState'' [(''value'', v), (''goal'', VInt g)]"
    "num_of v = Some (Fin (of_int k))" "- 1 \<le> k" "k \<le> g" "1 \<le> g" "g < 2 ^ 52"
  shows "\<exists>result r. progress_score request = Inr result \<and> sr_success result = Some (k = g) \<and> sr_reward result = Some (Fin r) \<and>
    r \<le> 1 \<and> (r = 1 \<longleftrightarrow> k = g) \<and> (0 \<le> k \<longrightarrow> 0 \<le> r)"
proof -
  obtain r where r: "rnd (of_int k / of_int g) = Fin r" "r \<le> 1" "r = 1 \<longleftrightarrow> k = g" "0 \<le> k \<longrightarrow> 0 \<le> r"
    using progress_ratio [OF assms(3-6)] by blast
  have f: "rnd (of_int k) = Fin (of_int k)" "rnd (of_int g) = Fin (of_int g)"
    using assms(3-6) by (auto intro!: rnd_of_int)
  have "num_div v (VInt g) = Inr (Fin r)"
    using assms(2,5) r(1) f by (auto simp: num_div_def as_num_def)
  with assms r show ?thesis by (auto simp: progress_score_def num_ge_ints)
qed

text \<open>C38: Whatever is asked of an environment host with the counter package and an integer goal from 1
  below 2^52, the state it hands out for scoring shows a whole number that is at least -1 (the
  value after a close) and never exceeds the goal, and the progress scorer calls that state a
  success, with the full reward, exactly when the goal is reached.\<close>
theorem counter_never_overshoots:
  assumes "serve_all (counter_setup L n sids reg put) qs (new_env_host component ident) w0 = (h, w)" "cw_goal w0 = None"
    "serve (counter_setup L n sids reg put) now (Env_Snapshot p) h w = (h', w', Inr state)"
    "cw_goal w = Some (VInt g)" "1 \<le> g" "g < 2 ^ 52"
  shows "\<exists>v k sid. state = VDict [(''schema_ref'', sid), (''data'', VDict [(''value'', v), (''goal'', VInt g)])] \<and>
    num_of v = Some (Fin (of_int k)) \<and> - 1 \<le> k \<and> k \<le> g \<and>
    (\<forall>request. si_state request = VModel ''CounterState'' [(''value'', v), (''goal'', VInt g)] \<longrightarrow>
      (\<exists>result r. progress_score request = Inr result \<and> sr_success result = Some (k = g) \<and> sr_reward result = Some (Fin r) \<and>
         r \<le> 1 \<and> (r = 1 \<longleftrightarrow> k = g) \<and> (0 \<le> k \<longrightarrow> 0 \<le> r)))"
proof -
  have "fits w0" using assms(2) by (simp add: fits_def)
  with counter_host.serve_all_keeps [OF assms(1)] have "fits w" by simp
  then obtain k where k: "num_of (cw_value w) = Some (Fin (of_int k))" "- 1 \<le> k" "k \<le> g"
    using assms(4-6) unfolding fits_def by blast
  from assms(3) obtain s where s: "counter_state n w = Inr s" "checked_state (counter_setup L n sids reg put) s = Inr state"
    by (auto simp: state_snapshot_def counter_setup_def counter_package_def rbind_Inr_iff split: if_splits sum.splits prod.splits)
  have vs: "s = VModel ''CounterState'' [(''value'', cw_value w), (''goal'', VInt g)]"
    by (rule counter_state_is [OF s(1) assms(4) k(1)])
  have dumped: "dump (cw_value w) = cw_value w" using k(1) by (cases "cw_value w") auto
  from s(2) have "to_wire sids s = Inr state"
    by (auto simp: checked_state_def counter_setup_def rbind_Inr_iff split: if_splits)
  then obtain sid where "state = VDict [(''schema_ref'', sid), (''data'', VDict [(''value'', cw_value w), (''goal'', VInt g)])]"
    using vs dumped by (auto simp: rbind_Inr_iff split: option.splits if_splits)
  with k progress_of_state [OF _ k assms(5,6)] show ?thesis by blast
qed

section \<open>A short episode\<close>

definition counter_registry :: registry where
  "counter_registry = \<lparr>core = VDict [(''$id'', VStr ''urn:core''), (''$defs'', VDict [(''TaskSpec'', VBool True), (''Observation'', VBool True)])],
     extensions = [(''urn:config'', VBool True)]\<rparr>"

definition demo_counter :: "unit counter_world env_setup" where
  "demo_counter = counter_setup rational_lib 9 [(''CounterInput'', ''urn:i''), (''CounterState'', ''urn:s'')] counter_registry
     (\<lambda>b m a. (a, Inr (VDict [(''uri'', VStr ''art'')])))"

definition demo_world :: "unit counter_world" where
  "demo_world = \<lparr>cw_closed = False, cw_value = VNone, cw_goal = None, cw_image = None, cw_artifacts = ()\<rparr>"

definition demo_config :: val where
  "demo_config = VDict [(''schema_ref'', VStr ''uenv://schemas/vnext/EmptyConfig''), (''data'', VDict [])]"

definition demo_binding :: val where
  "demo_binding = VDict [(''name'', VStr ''increment''), (''execution_scope'', VStr ''sandbox''),
     (''implementation'', VDict [(''id'', VStr ''examples.tools:increment'')]), (''config'', demo_config)]"

definition demo_call :: val where
  "demo_call = VDict [(''name'', VStr ''increment''), (''implementation'', VDict [(''id'', VStr ''examples.tools:increment'')]),
     (''arguments'', VDict [(''amount'', VInt 1)]), (''tool_call_id'', VStr ''c1'')]"

definition demo_requests :: "(dbl \<times> env_request) list" where
  "demo_requests =
     [(Fin 0, Env_Prepare (VDict [(''dataset_package'', VNone), (''session'', VNone), (''environment'', demo_config)])),
      (Fin 0, Env_Reset (VDict [(''task'', VDict [(''task_id'', VStr ''t''), (''dataset'', VNone), (''sample_id'', VStr ''s''),
         (''input'', VDict [(''schema_ref'', VStr ''urn:i''), (''data'', VDict [(''goal'', VInt 1)])])]),
         (''remaining_timeout_ms'', VInt 0), (''seed'', VInt 1)])),
      (Fin 0, Tools_Prepare (VDict [(''session'', VNone), (''tools'', VList [demo_binding])])),
      (Fin 0, Tools_Execute (VDict [(''binding'', demo_binding), (''call'', demo_call)])),
      (Fin 0, Tools_Execute (VDict [(''binding'', demo_binding), (''call'', demo_call)])),
      (Fin 0, Tools_Freeze False)]"

definition demo_snapshot :: val where
  "demo_snapshot = VDict [(''remaining_timeout_ms'', VInt 0)]"

theorem counter_never_overshoots_witness:
  "\<exists>h w h' w' v state. serve_all demo_counter demo_requests (new_env_host VNone VNone) demo_world = (h, w) \<and>
     cw_goal w = Some (VInt 1) \<and> serve demo_counter (Fin 0) (Env_Snapshot demo_snapshot) h w = (h', w', Inr state) \<and>
     (\<forall>request. si_state request = VModel ''CounterState'' [(''value'', v), (''goal'', VInt 1)] \<longrightarrow>
        (\<exists>result. progress_score request = Inr result))"
proof -
  obtain h w where s: "serve_all demo_counter demo_requests (new_env_host VNone VNone) demo_world = (h, w)" by (metis surj_pair)
  obtain h' w' r where n: "serve demo_counter (Fin 0) (Env_Snapshot demo_snapshot) h w = (h', w', r)" by (metis prod_cases3)
  have "(case serve_all demo_counter demo_requests (new_env_host VNone VNone) demo_world of
      (h, w) \<Rightarrow> (cw_goal w, ok (snd (snd (serve demo_counter (Fin 0) (Env_Snapshot demo_snapshot) h w))))) = (Some (VInt 1), True)"
    by code_simp
  with s n have g: "cw_goal w = Some (VInt 1)" and "ok r" by auto
  then obtain state where st: "r = Inr state" by (auto simp: ok_iff)
  have start: "cw_goal demo_world = None" by (simp add: demo_world_def)
  from counter_never_overshoots [OF s [unfolded demo_counter_def] start n [unfolded demo_counter_def st] g] s n st g
  show ?thesis by fastforce
qed

section \<open>Rewards of single generations\<close>

lemma generation_reward_one:
  assumes "generation_reward expected event = Inr rewards"
  shows "rewards = [] \<or> (\<exists>generation i b. item event ''kind'' = Inr (VStr ''generation'') \<and>
    item event ''payload'' = Inr generation \<and> item generation ''generation_id'' = Inr i \<and>
    rewards = [VDict [(''generation_id'', i), (''reward'', VFloat (float_bool b))]])"
  using assms by (auto simp: generation_reward_def rbind_Inr_iff split: if_splits)

text \<open>The rewards a process score carries are in the order of the validated trajectory, at most one for each of
  its generations, each 0 or 1 under the identifier of its generation.\<close>
theorem process_rewards_follow_trajectory:
  assumes "exact_answer_score L request ctx = Inr result"
  shows "\<exists>events rewards. read_scoring_trajectory L request ctx = Inr events \<and>
    sr_generation_rewards result = Some (concat rewards) \<and>
    list_all2 (\<lambda>event rs. rs = [] \<or> (\<exists>generation i b. item event ''kind'' = Inr (VStr ''generation'') \<and>
      item event ''payload'' = Inr generation \<and> item generation ''generation_id'' = Inr i \<and>
      rs = [VDict [(''generation_id'', i), (''reward'', VFloat (float_bool b))]])) events rewards"
proof -
  obtain expected events rewards where e: "read_scoring_trajectory L request ctx = Inr events"
      "rmap (generation_reward expected) events = Inr rewards" "sr_generation_rewards result = Some (concat rewards)"
    using assms by (auto simp: exact_answer_score_def rbind_Inr_iff Let_def)
  from e(2) have "list_all2 (\<lambda>event rs. generation_reward expected event = Inr rs) events rewards" by (simp add: rmap_Inr_iff)
  then have "list_all2 (\<lambda>event rs. rs = [] \<or> (\<exists>generation i b. item event ''kind'' = Inr (VStr ''generation'') \<and>
      item event ''payload'' = Inr generation \<and> item generation ''generation_id'' = Inr i \<and>
      rs = [VDict [(''generation_id'', i), (''reward'', VFloat (float_bool b))]])) events rewards"
    by (rule list_all2_mono) (rule generation_reward_one)
  with e(1,3) show ?thesis by blast
qed

end
