(* ===== verification/OpenHands.thy ===== *)
theory OpenHands
  imports Agents Model_Provider
begin

text \<open>
  The adapter of the OpenHands framework (\<open>reference/sdk/src/uenv/sdk/integrations/openhands.py\<close>). The
  framework is not part of the repository: its actions \<open>'a\<close> (with the conversation they came in),
  the results \<open>'r\<close> of its native tools, its tool factories and its conversation loop are parameters.
  The integration is part of the state the Worker's requests act on, because a step of a native
  tool comes back to it (\<open>execute_native\<close>) before the step returns.
\<close>

section \<open>State\<close>

record ('a, 'r, 'w) native_tool =
  nt_name :: string
  nt_description :: string
  nt_schema :: val                                    \<comment> \<open>\<open>action_type.model_json_schema()\<close>\<close>
  nt_decode :: "val \<Rightarrow> 'a res"                       \<comment> \<open>\<open>action_from_arguments\<close>\<close>
  nt_same :: "'a \<Rightarrow> 'a \<Rightarrow> bool"                      \<comment> \<open>equality of actions\<close>
  nt_call :: "'a \<Rightarrow> 'w \<Rightarrow> 'w \<times> 'r res"               \<comment> \<open>the original tool\<close>
  nt_content :: "'r \<Rightarrow> string option list"           \<comment> \<open>\<open>to_llm_content\<close>; a part without text is \<open>None\<close>\<close>
  nt_message :: "'a \<Rightarrow> string"                       \<comment> \<open>\<open>action.message\<close>\<close>
  nt_executor :: bool
  nt_interrupt :: "('w \<Rightarrow> 'w \<times> unit res) option"
  nt_close :: "'w \<Rightarrow> 'w \<times> unit res"

record ('a, 'r, 'w) openhands =
  oh_bindings :: dict
  oh_pending :: dict
  oh_all_calls :: dict
  oh_results :: "(string \<times> 'r) list"
  oh_actions :: "(string \<times> 'a) list"
  oh_natives :: "(string \<times> ('a, 'r, 'w) native_tool) list"
  oh_closed :: "string list"
  oh_native_to_name :: "(string \<times> string) list"
  oh_name_to_native :: "(string \<times> string) list"
  oh_final_answer :: val
  oh_stopped :: bool
  oh_failure :: "pyerr option"
  oh_executions :: nat
  oh_returns :: nat

datatype interruption = Interaction_Stopped | Raised pyerr

type_synonym 'b outcome = "interruption + 'b"

definition new_openhands :: "dict \<Rightarrow> ('a, 'r, 'w) openhands" where
  "new_openhands bindings = \<lparr>oh_bindings = bindings, oh_pending = [], oh_all_calls = [], oh_results = [], oh_actions = [],
     oh_natives = [], oh_closed = [], oh_native_to_name = [], oh_name_to_native = [], oh_final_answer = VList [],
     oh_stopped = False, oh_failure = None, oh_executions = 0, oh_returns = 0\<rparr>"

section \<open>The tool table\<close>

definition config_data :: "val \<Rightarrow> val res" where
  "config_data binding = rbind (item binding ''config'') (\<lambda>c. item c ''data'')"

definition native_factory ::
  "(string \<Rightarrow> (val \<Rightarrow> 'w \<Rightarrow> 'w \<times> ('a, 'r, 'w) native_tool list res) option) \<Rightarrow> val \<Rightarrow>
   ('w \<Rightarrow> 'w \<times> ('a, 'r, 'w) native_tool list res) option res" where
  \<comment> \<open>nothing for a binding of another kind\<close>
  "native_factory factories binding =
     rbind (has binding ''native_agent'') (\<lambda>native. if \<not> native then Inr None else
     rbind (item binding ''implementation'') (\<lambda>i. rbind (item i ''id'') (\<lambda>k. rbind (as_str k) (\<lambda>key.
     case factories key of None \<Rightarrow> Inl (KeyError key)
     | Some create \<Rightarrow> rbind (config_data binding) (\<lambda>data. Inr (Some (create data)))))))"

definition add_native ::
  "(string \<Rightarrow> (val \<Rightarrow> 'w \<Rightarrow> 'w \<times> ('a, 'r, 'w) native_tool list res) option) \<Rightarrow> string \<Rightarrow> val \<Rightarrow>
   ('a, 'r, 'w) openhands \<times> 'w \<Rightarrow> (('a, 'r, 'w) openhands \<times> 'w) \<times> unit res" where
  \<comment> \<open>one binding; the selected names are the keys of \<open>native_to_name\<close>\<close>
  "add_native factories name binding s =
     (case native_factory factories binding of
        Inl e \<Rightarrow> (s, Inl e)
      | Inr None \<Rightarrow> (s, Inr ())
      | Inr (Some create) \<Rightarrow>
          (case create (snd s) of
             (w', Inl e) \<Rightarrow> ((fst s, w'), Inl e)
           | (w', Inr [original]) \<Rightarrow>
               (let h = fst s
                in if map_of (oh_native_to_name h) (nt_name original) \<noteq> None then ((h, w'), Inl (RpcError ''DUPLICATE_NATIVE_TOOL_NAME''))
                   else ((h\<lparr>oh_natives := AList.update name original (oh_natives h),
                          oh_native_to_name := AList.update (nt_name original) name (oh_native_to_name h),
                          oh_name_to_native := AList.update name (nt_name original) (oh_name_to_native h)\<rparr>, w'), Inr ()))
           | (w', Inr _) \<Rightarrow> ((fst s, w'), Inl (RpcError ''NATIVE_TOOL_EXPORT_MUST_BE_SINGLE''))))"

fun add_natives ::
  "(string \<Rightarrow> (val \<Rightarrow> 'w \<Rightarrow> 'w \<times> ('a, 'r, 'w) native_tool list res) option) \<Rightarrow> dict \<Rightarrow>
   ('a, 'r, 'w) openhands \<times> 'w \<Rightarrow> (('a, 'r, 'w) openhands \<times> 'w) \<times> unit res" where
  "add_natives factories [] s = (s, Inr ())"
| "add_natives factories ((name, binding) # bs) s =
     (case add_native factories name binding s of
        (s', Inl e) \<Rightarrow> (s', Inl e) | (s', Inr _) \<Rightarrow> add_natives factories bs s')"

definition add_offered :: "string \<Rightarrow> ('a, 'r, 'w) openhands \<Rightarrow> ('a, 'r, 'w) openhands \<times> unit res" where
  \<comment> \<open>a tool that the framework holds itself: an MCP tool of a selected Python binding\<close>
  "add_offered native_name h =
     (case (case map_of (oh_bindings h) native_name of
              None \<Rightarrow> Inr False | Some binding \<Rightarrow> rbind (has binding ''native_agent'') (\<lambda>native. Inr (\<not> native))) of
        Inl e \<Rightarrow> (h, Inl e)
      | Inr False \<Rightarrow> (h, Inl (RpcError ''AGENT_TOOL_TABLE_MISMATCH''))
      | Inr True \<Rightarrow>
          if map_of (oh_native_to_name h) native_name \<noteq> None then (h, Inl (RpcError ''DUPLICATE_TOOL_NAME''))
          else (h\<lparr>oh_native_to_name := AList.update native_name native_name (oh_native_to_name h),
                  oh_name_to_native := AList.update native_name native_name (oh_name_to_native h)\<rparr>, Inr ()))"

fun add_all_offered :: "string list \<Rightarrow> ('a, 'r, 'w) openhands \<Rightarrow> ('a, 'r, 'w) openhands \<times> unit res" where
  "add_all_offered [] h = (h, Inr ())"
| "add_all_offered (n # ns) h =
     (case add_offered n h of (h', Inl e) \<Rightarrow> (h', Inl e) | (h', Inr _) \<Rightarrow> add_all_offered ns h')"

definition initialize ::
  "(string \<Rightarrow> (val \<Rightarrow> 'w \<Rightarrow> 'w \<times> ('a, 'r, 'w) native_tool list res) option) \<Rightarrow> string list \<Rightarrow>
   ('a, 'r, 'w) openhands \<times> 'w \<Rightarrow> (('a, 'r, 'w) openhands \<times> 'w) \<times> unit res" where
  \<comment> \<open>\<open>WorkerAgent._initialize\<close>; the names are the tools the framework holds after its own initialization\<close>
  "initialize factories offered s =
     (case add_natives factories (oh_bindings (fst s)) s of
        (s1, Inl e) \<Rightarrow> (s1, Inl e)
      | ((h1, w1), Inr _) \<Rightarrow>
          (case add_all_offered offered h1 of
             (h2, Inl e) \<Rightarrow> ((h2, w1), Inl e)
           | (h2, Inr _) \<Rightarrow>
               ((h2, w1), guard (fst ` set (oh_name_to_native h2) = fst ` set (oh_bindings h2)) (RpcError ''AGENT_TOOL_TABLE_MISMATCH''))))"

section \<open>Model calls\<close>

record framework_message =
  fm_role :: string
  fm_content :: "string option list"     \<comment> \<open>a part that is no text is \<open>None\<close>\<close>
  fm_tool_call_id :: "string option"
  fm_tool_calls :: "string list"         \<comment> \<open>the identifiers of its calls\<close>

record framework_reply =
  fr_text :: string
  fr_calls :: "(val \<times> string \<times> string) list"   \<comment> \<open>identifier, native name, arguments as JSON text\<close>
  fr_finish_reason :: val
  fr_generation_id :: val
  fr_output_tokens :: val

definition text_parts :: "string option list \<Rightarrow> val list res" where
  "text_parts parts = rmap (\<lambda>p. case p of None \<Rightarrow> Inl (RpcError ''OPENHANDS_CONTENT_KIND_NOT_SUPPORTED'')
     | Some t \<Rightarrow> Inr (text_part (VStr t))) parts"

definition wire_of :: "('a, 'r, 'w) openhands \<Rightarrow> framework_message \<Rightarrow> val res" where
  "wire_of h m =
     rbind (text_parts (fm_content m)) (\<lambda>parts.
     rbind (rmap (\<lambda>i. lookup (oh_all_calls h) i (KeyError i)) (fm_tool_calls m)) (\<lambda>calls.
       Inr (VDict ([(''role'', VStr (fm_role m)), (''content'', VList parts)] @
         (case fm_tool_call_id m of Some i \<Rightarrow> if i \<noteq> [] then [(''tool_call_id'', VStr i)] else [] | None \<Rightarrow> []) @
         (if fm_tool_calls m \<noteq> [] then [(''tool_calls'', VList calls)] else [])))))"

definition keyed_call :: "val \<Rightarrow> (string \<times> val) res" where
  "keyed_call c = rbind (item c ''tool_call_id'') (\<lambda>i. rbind (as_str i) (\<lambda>k. Inr (k, c)))"

definition native_call_of :: "lib \<Rightarrow> ('a, 'r, 'w) openhands \<Rightarrow> val \<Rightarrow> (val \<times> string \<times> string) res" where
  "native_call_of L h c =
     rbind (item c ''tool_call_id'') (\<lambda>i. rbind (item c ''name'') (\<lambda>n. rbind (as_str n) (\<lambda>name.
     rbind (lookup (oh_name_to_native h) name (KeyError name)) (\<lambda>native.
     rbind (item c ''arguments'') (\<lambda>a. rbind (ascii_dumps L plain_opts a) (\<lambda>t. Inr (i, native, t)))))))"

definition update_all :: "(string \<times> 'b) list \<Rightarrow> (string \<times> 'b) list \<Rightarrow> (string \<times> 'b) list" where
  \<comment> \<open>\<open>d.update(other)\<close>\<close>
  "update_all d other = fold (\<lambda>p. AList.update (fst p) (snd p)) other d"

definition take_generation :: "lib \<Rightarrow> val \<Rightarrow> ('a, 'r, 'w) openhands \<Rightarrow> ('a, 'r, 'w) openhands \<times> framework_reply outcome" where
  \<comment> \<open>what \<open>completion\<close> does with the generation; the state changes before the last checks\<close>
  "take_generation L generation h =
     (case rbind (item generation ''response'') (\<lambda>response. Inr response) of
        Inl e \<Rightarrow> (h, Inl (Raised e))
      | Inr response \<Rightarrow>
          (let h1 = h\<lparr>oh_final_answer := response\<rparr>
           in case rbind (get generation ''tool_calls'' (VList [])) (\<lambda>cs. rbind (as_list cs) (\<lambda>calls.
                   rbind (rmap keyed_call calls) (\<lambda>keyed. Inr (calls, keyed)))) of
                Inl e \<Rightarrow> (h1, Inl (Raised e))
              | Inr (calls, keyed) \<Rightarrow>
                  (let pending = update_all [] keyed;
                       h2 = h1\<lparr>oh_pending := pending, oh_all_calls := update_all (oh_all_calls h1) pending\<rparr>
                   in (h2, case rbind (rmap (native_call_of L h2) calls) (\<lambda>native_calls.
                                rbind (item generation ''finish_reason'') (\<lambda>reason. Inr (native_calls, reason))) of
                             Inl e \<Rightarrow> Inl (Raised e)
                           | Inr (native_calls, reason) \<Rightarrow>
                               if py_eq reason (VStr ''length'') then Inl Interaction_Stopped
                               else (case rbind (text_content response) (\<lambda>t. rbind (item generation ''generation_id'') (\<lambda>g.
                                          rbind (item generation ''model_id'') (\<lambda>_.
                                          rbind (item generation ''output_token_count'') (\<lambda>n.
                                            Inr \<lparr>fr_text = t, fr_calls = native_calls, fr_finish_reason = reason,
                                                 fr_generation_id = g, fr_output_tokens = n\<rparr>)))) of
                                       Inl e \<Rightarrow> Inl (Raised e) | Inr answer \<Rightarrow> Inr answer)))))"

fun is_worker_error :: "pyerr \<Rightarrow> bool" where
  "is_worker_error (RpcError _) = True"
| "is_worker_error (AgentRuntimeError _) = True"
| "is_worker_error _ = False"

definition completion ::
  "lib \<Rightarrow> (('a, 'r, 'w) openhands \<times> 'w) agent_env \<Rightarrow> framework_message list \<Rightarrow> string list \<Rightarrow> ('a, 'r, 'w) openhands \<times> 'w \<Rightarrow>
   (('a, 'r, 'w) openhands \<times> 'w) \<times> framework_reply outcome" where
  "completion L A messages tool_names s =
     (let h = fst s
      in case oh_failure h of
           Some e \<Rightarrow> (s, Inl (Raised e))
         | None \<Rightarrow>
             if oh_stopped h then (s, Inl Interaction_Stopped)
             else (case rbind (guard (set tool_names = fst ` set (oh_native_to_name h)) (RpcError ''AGENT_TOOL_TABLE_MISMATCH'')) (\<lambda>_.
                        rmap (wire_of h) messages) of
                     Inl e \<Rightarrow> (s, Inl (Raised e))
                   | Inr wire \<Rightarrow>
                       (case generate A wire s of
                          ((h1, w1), Inl e) \<Rightarrow>
                            ((if is_worker_error e then h1\<lparr>oh_failure := Some e\<rparr> else h1, w1), Inl (Raised e))
                        | ((h1, w1), Inr generation) \<Rightarrow>
                            (let (h2, r) = take_generation L generation h1 in ((h2, w1), r)))))"

section \<open>Tool calls\<close>

datatype 'a given = Action 'a | Arguments val

fun claim_key :: "(string \<times> ('a, 'r, 'w) native_tool) list \<Rightarrow> string \<Rightarrow> 'a given \<Rightarrow> dict \<Rightarrow> (string \<times> val) option res" where
  \<comment> \<open>the first pending call of that name with these arguments\<close>
  "claim_key natives name given [] = Inr None"
| "claim_key natives name given ((key, call) # rest) =
     rbind (item call ''name'') (\<lambda>n.
       if \<not> py_eq n (VStr name) then claim_key natives name given rest
       else rbind (item call ''arguments'') (\<lambda>expected.
            rbind (case given of
                     Arguments a \<Rightarrow> Inr (py_eq expected a)
                   | Action a \<Rightarrow> rbind (lookup natives name (KeyError name)) (\<lambda>nt.
                                 rbind (nt_decode nt expected) (\<lambda>b. Inr (nt_same nt b a)))) (\<lambda>matches.
              if matches then Inr (Some (key, call)) else claim_key natives name given rest)))"

definition claim :: "string \<Rightarrow> 'a given \<Rightarrow> ('a, 'r, 'w) openhands \<Rightarrow> ('a, 'r, 'w) openhands \<times> val res" where
  "claim name given h =
     (case claim_key (oh_natives h) name given (oh_pending h) of
        Inl e \<Rightarrow> (h, Inl e)
      | Inr None \<Rightarrow> (h, Inl (RpcError ''TOOL_CALL_NOT_GENERATED''))
      | Inr (Some (key, call)) \<Rightarrow> (h\<lparr>oh_pending := AList.delete key (oh_pending h)\<rparr>, Inr call))"

definition agent_step ::
  "(('a, 'r, 'w) openhands \<times> 'w) agent_env \<Rightarrow> val \<Rightarrow> worker_context \<Rightarrow> ('a, 'r, 'w) openhands \<times> 'w \<Rightarrow>
   worker_context \<times> (('a, 'r, 'w) openhands \<times> 'w) \<times> agent_obs res" where
  "agent_step A call c s =
     (case call_tool A call c s of
        (c', (h, w), Inr obs) \<Rightarrow> (c', (h\<lparr>oh_stopped := oh_stopped h \<or> ended obs\<rparr>, w), Inr obs)
      | (c', (h, w), Inl e) \<Rightarrow> (c', (if is_worker_error e then h\<lparr>oh_failure := Some e\<rparr> else h, w), Inl e))"

definition call_mcp_tool ::
  "(('a, 'r, 'w) openhands \<times> 'w) agent_env \<Rightarrow> string \<Rightarrow> val \<Rightarrow> worker_context \<Rightarrow> ('a, 'r, 'w) openhands \<times> 'w \<Rightarrow>
   worker_context \<times> (('a, 'r, 'w) openhands \<times> 'w) \<times> agent_obs res" where
  "call_mcp_tool A name arguments c s =
     (case claim name (Arguments arguments) (fst s) of
        (h, Inl e) \<Rightarrow> (c, (h, snd s), Inl e)
      | (h, Inr call) \<Rightarrow> agent_step A call c (h, snd s))"

definition drop_call :: "string \<Rightarrow> ('a, 'r, 'w) openhands \<Rightarrow> ('a, 'r, 'w) openhands" where
  "drop_call key h = h\<lparr>oh_actions := AList.delete key (oh_actions h), oh_results := AList.delete key (oh_results h)\<rparr>"

definition native_call ::
  "(('a, 'r, 'w) openhands \<times> 'w) agent_env \<Rightarrow> string \<Rightarrow> ('a, 'r, 'w) native_tool \<Rightarrow> 'a \<Rightarrow> worker_context \<Rightarrow>
   ('a, 'r, 'w) openhands \<times> 'w \<Rightarrow> worker_context \<times> (('a, 'r, 'w) openhands \<times> 'w) \<times> 'r res" where
  \<comment> \<open>\<open>WorkerExecutor.__call__\<close>: what the framework runs in place of the original tool\<close>
  "native_call A name original action c s =
     (case claim name (Action action) (fst s) of
        (h, Inl e) \<Rightarrow> (c, (h, snd s), Inl e)
      | (h, Inr call) \<Rightarrow>
          (case keyed_call call of
             Inl e \<Rightarrow> (c, (h, snd s), Inl e)
           | Inr (key, _) \<Rightarrow>
               (case agent_step A call c (h\<lparr>oh_actions := AList.update key action (oh_actions h)\<rparr>, snd s) of
                  (c', (h1, w1), Inl e) \<Rightarrow> (c', (drop_call key h1, w1), Inl e)
                | (c', (h1, w1), Inr _) \<Rightarrow>
                    (case map_of (oh_results h1) key of
                       None \<Rightarrow> (c', (drop_call key h1, w1), Inl (KeyError key))
                     | Some native_result \<Rightarrow>
                         (let h2 = h1\<lparr>oh_returns := Suc (oh_returns h1)\<rparr>;
                              h3 = (if nt_name original = ''finish''
                                    then h2\<lparr>oh_final_answer := VList [text_part (VStr (nt_message original action))]\<rparr> else h2)
                          in (c', (drop_call key h3, w1), Inr native_result))))))"

definition execute_native :: "('a, 'r, 'w) native_tool \<Rightarrow> val \<Rightarrow> ('a, 'r, 'w) openhands \<times> 'w \<Rightarrow> (('a, 'r, 'w) openhands \<times> 'w) \<times> val res" where
  \<comment> \<open>the definition the agent process executes for a native tool, under the call of its context\<close>
  "execute_native original current_call s =
     (let (h, w) = s
      in case rbind (get current_call ''tool_call_id'' VNone) (\<lambda>i. rbind (as_str i) (\<lambda>key.
              rbind (lookup (oh_actions h) key (KeyError key)) (\<lambda>action. Inr (key, action)))) of
           Inl e \<Rightarrow> (s, Inl e)
         | Inr (key, action) \<Rightarrow>
             (case nt_call original action w of
                (w', Inl e) \<Rightarrow> ((h, w'), Inl e)
              | (w', Inr native) \<Rightarrow>
                  ((h\<lparr>oh_results := AList.update key native (oh_results h), oh_executions := Suc (oh_executions h)\<rparr>, w'),
                   rbind (text_parts (nt_content original native)) (\<lambda>parts. Inr (observation parts False False)))))"

definition interrupt_native :: "('a, 'r, 'w) native_tool \<Rightarrow> 'w \<Rightarrow> 'w \<times> unit res" where
  \<comment> \<open>\<open>WorkerExecutor.interrupt\<close>: the original executor's, if there is one\<close>
  "interrupt_native nt w =
     (if nt_executor nt then (case nt_interrupt nt of None \<Rightarrow> (w, Inr ()) | Some f \<Rightarrow> f w) else (w, Inr ()))"

definition close_native :: "string \<Rightarrow> ('a, 'r, 'w) openhands \<times> 'w \<Rightarrow> (('a, 'r, 'w) openhands \<times> 'w) \<times> unit res" where
  "close_native name s =
     (let (h, w) = s
      in if name \<in> set (oh_closed h) then (s, Inr ())
         else (case map_of (oh_natives h) name of
                 None \<Rightarrow> (s, Inl (KeyError name))
               | Some nt \<Rightarrow>
                   (let (w1, r1) = interrupt_native nt w
                    in case r1 of
                         Inl e \<Rightarrow> ((h, w1), Inl e)
                       | Inr _ \<Rightarrow>
                           (let (w2, r2) = (if nt_executor nt then nt_close nt w1 else (w1, Inr ()))
                            in case r2 of
                                 Inl e \<Rightarrow> ((h, w2), Inl e)
                               | Inr _ \<Rightarrow> ((h\<lparr>oh_closed := List.insert name (oh_closed h)\<rparr>, w2), Inr ())))))"

definition native_definitions ::
  "(('a, 'r, 'w) openhands \<times> 'w \<Rightarrow> val) \<Rightarrow> ('a, 'r, 'w) openhands \<Rightarrow> (string \<times> (('a, 'r, 'w) openhands \<times> 'w) tool_definition) list" where
  \<comment> \<open>\<open>tool_definitions\<close>: the shutdown is named after the tool that \<open>close_native\<close> closes\<close>
  "native_definitions current_call h =
     map (\<lambda>(name, original). (name,
       \<lparr>td_description = nt_description original, td_input_schema = nt_schema original,
        td_execute = (\<lambda>arguments ctx s. execute_native original (current_call s) s), td_entrypoint = None,
        td_execution_scope = ''sandbox'', td_required_capabilities = [], td_side_effect = ''non_idempotent'',
        td_shutdown = Some name\<rparr>)) (oh_natives h)"

section \<open>A run\<close>

fun failure_code :: "pyerr \<Rightarrow> val res" where
  "failure_code (RpcError c) = Inr (VStr c)"
| "failure_code (AgentRuntimeError v) = item v ''code''"
| "failure_code _ = Inl (AttributeError ''code'')"

definition settle_failure :: "pyerr \<Rightarrow> val \<Rightarrow> val res" where
  \<comment> \<open>a budget that ran out ends the run with the last answer\<close>
  "settle_failure e answer =
     rbind (failure_code e) (\<lambda>c. if py_in c (map VStr budget_codes) then Inr answer else Inl e)"

definition run_conversation ::
  "(string \<Rightarrow> ('a, 'r, 'w) openhands \<times> 'w \<Rightarrow> (('a, 'r, 'w) openhands \<times> 'w) \<times> unit res) \<Rightarrow>
   (('a, 'r, 'w) openhands \<times> 'w \<Rightarrow> (('a, 'r, 'w) openhands \<times> 'w) \<times> unit outcome) \<Rightarrow>
   val \<Rightarrow> ('a, 'r, 'w) openhands \<times> 'w \<Rightarrow> (('a, 'r, 'w) openhands \<times> 'w) \<times> val res" where
  \<comment> \<open>\<open>OpenHandsIntegration.run\<close> with the framework's \<open>send_message\<close> and \<open>run\<close>\<close>
  "run_conversation send_message converse_run obs s =
     (case rbind (item obs ''terminated'') (\<lambda>t. if truthy t then Inr True else
           rbind (item obs ''episode_truncated'') (\<lambda>u. Inr (truthy u))) of
        Inl e \<Rightarrow> (s, Inl e)
      | Inr True \<Rightarrow> (s, Inr (VList []))
      | Inr False \<Rightarrow>
          (case rbind (item obs ''content'') text_content of
             Inl e \<Rightarrow> (s, Inl e)
           | Inr t \<Rightarrow>
               (case send_message t s of
                  (s1, Inl e) \<Rightarrow> (s1, Inl e)
                | (s1, Inr _) \<Rightarrow>
                    (let (s2, r) = converse_run s1; answer = oh_final_answer (fst s2)
                     in (s2, case (r, oh_failure (fst s2)) of
                               (Inl Interaction_Stopped, _) \<Rightarrow> Inr answer
                             | (_, Some e) \<Rightarrow> settle_failure e answer
                             | (Inr _, None) \<Rightarrow> Inr answer
                             | (Inl (Raised e), None) \<Rightarrow> Inl e)))))"

definition check_openhands_config :: "val \<Rightarrow> string res" where
  \<comment> \<open>\<open>OpenHandsAdapter.prepare\<close>; the system prompt\<close>
  "check_openhands_config config =
     rbind (as_dict config) (\<lambda>d.
     rbind (guard (fst ` set d = {''system_prompt''}) (RpcError ''OPENHANDS_CONFIG_NOT_SUPPORTED'')) (\<lambda>_.
     rbind (ditem d ''system_prompt'') (\<lambda>p. case p of VStr t \<Rightarrow> Inr t | _ \<Rightarrow> Inl (RpcError ''OPENHANDS_CONFIG_NOT_SUPPORTED''))))"

definition integration_version :: string where
  "integration_version = ''1.15.0''"

definition new_integration ::
  "string \<Rightarrow> (string \<Rightarrow> (val \<Rightarrow> 'w \<Rightarrow> 'w \<times> ('a, 'r, 'w) native_tool list res) option) \<Rightarrow> val list \<Rightarrow> string list \<Rightarrow> 'w \<Rightarrow>
   (('a, 'r, 'w) openhands \<times> 'w) res" where
  \<comment> \<open>\<open>OpenHandsIntegration.__init__\<close> with the installed version of the framework\<close>
  "new_integration version factories bindings offered w =
     rbind (guard (version = integration_version) (RpcError ''OPENHANDS_VERSION_NOT_VALIDATED'')) (\<lambda>_.
     rbind (rmap (\<lambda>b. rbind (item b ''name'') (\<lambda>n. rbind (as_str n) (\<lambda>k. Inr (k, b)))) bindings) (\<lambda>named.
     case initialize factories offered (new_openhands (update_all [] named), w) of
       (s, Inl e) \<Rightarrow> Inl e | (s, Inr _) \<Rightarrow> Inr s))"

end
