(* ===== verification/OpenHands_Correct.thy ===== *)
theory OpenHands_Correct
  imports OpenHands "HOL-Library.Multiset"
begin

text \<open>
  What the OpenHands adapter keeps between the framework and the Worker: calls reach the Worker
  only as the model generated them and once each, the framework gets the very result of its own
  tool, the tool table is one-to-one, and a Worker failure decides how the run ends.

  The framework is any sequence of the three things it may ask of the adapter (\<open>framework_op\<close>): a
  model completion, the executor of a native tool, a call of the MCP server.
\<close>

section \<open>The framework's operations\<close>

datatype 'a framework_op =
    Complete "framework_message list" "string list"
  | Run_Native string 'a
  | Run_Mcp string val

fun framework_step ::
  "lib \<Rightarrow> (('a, 'r, 'w) openhands \<times> 'w) agent_env \<Rightarrow> 'a framework_op \<Rightarrow>
   worker_context \<times> ('a, 'r, 'w) openhands \<times> 'w \<Rightarrow> worker_context \<times> ('a, 'r, 'w) openhands \<times> 'w" where
  "framework_step L A (Complete messages names) (c, s) = (c, fst (completion L A messages names s))"
| "framework_step L A (Run_Native name action) (c, s) =
     (case map_of (oh_natives (fst s)) name of
        None \<Rightarrow> (c, s)
      | Some nt \<Rightarrow> (case native_call A name nt action c s of (c', s', _) \<Rightarrow> (c', s')))"
| "framework_step L A (Run_Mcp name arguments) (c, s) =
     (case call_mcp_tool A name arguments c s of (c', s', _) \<Rightarrow> (c', s'))"

definition framework_run ::
  "lib \<Rightarrow> (('a, 'r, 'w) openhands \<times> 'w) agent_env \<Rightarrow> 'a framework_op list \<Rightarrow>
   worker_context \<times> ('a, 'r, 'w) openhands \<times> 'w \<Rightarrow> worker_context \<times> ('a, 'r, 'w) openhands \<times> 'w" where
  "framework_run L A = fold (framework_step L A)"

text \<open>
  A Worker that serves the adapter: while it handles a step it may run the native tool that the
  call names, and nothing else of the adapter. An observer \<open>seen\<close> of its state lists the requests
  and replies.
\<close>

type_synonym exchange = "string \<times> val \<times> val res"

definition executes :: "('a, 'r, 'w) native_tool \<Rightarrow> val \<Rightarrow> ('a, 'r, 'w) openhands \<Rightarrow> ('a, 'r, 'w) openhands \<Rightarrow> bool" where
  "executes nt call h h' \<longleftrightarrow> (\<exists>w w' r. execute_native nt call (h, w) = ((h', w'), r))"

definition serves_natives :: "(('a, 'r, 'w) openhands \<times> 'w) agent_env \<Rightarrow> bool" where
  "serves_natives A \<longleftrightarrow> (\<forall>m v h w h' w' r. ae_request A m v (h, w) = ((h', w'), r) \<longrightarrow>
     h' = h \<or> (m = ''step'' \<and> (\<exists>name nt. item v ''name'' = Inr (VStr name) \<and> map_of (oh_natives h) name = Some nt \<and>
       executes nt v h h')))"

definition observed_by :: "(('a, 'r, 'w) openhands \<times> 'w) agent_env \<Rightarrow> ('w \<Rightarrow> exchange list) \<Rightarrow> bool" where
  "observed_by A seen \<longleftrightarrow>
     (\<forall>m v h w h' w' r. ae_request A m v (h, w) = ((h', w'), r) \<longrightarrow> seen w' = seen w @ [(m, v, r)])"

fun sent_call :: "exchange \<Rightarrow> val list" where
  "sent_call (m, v, r) = (if m = ''step'' then [v] else [])"

fun proposed_by :: "exchange \<Rightarrow> val list" where
  \<comment> \<open>the calls of an answered generation\<close>
  "proposed_by (m, v, r) =
     (if m \<noteq> ''generate'' then []
      else (case rbind r (\<lambda>g. rbind (get g ''tool_calls'' (VList [])) as_list) of Inl _ \<Rightarrow> [] | Inr calls \<Rightarrow> calls))"

definition sent_calls :: "exchange list \<Rightarrow> val list" where
  "sent_calls tr = concat (map sent_call tr)"

definition all_proposed :: "exchange list \<Rightarrow> val list" where
  "all_proposed tr = concat (map proposed_by tr)"

definition generations_in :: "exchange list \<Rightarrow> nat" where
  "generations_in tr = length (filter (\<lambda>x. fst x = ''generate'') tr)"

definition current_action :: "('a, 'r, 'w) openhands \<Rightarrow> val \<Rightarrow> (string \<times> 'a) res" where
  "current_action h call =
     rbind (get call ''tool_call_id'' VNone) (\<lambda>i. rbind (as_str i) (\<lambda>key.
       rbind (lookup (oh_actions h) key (KeyError key)) (\<lambda>action. Inr (key, action))))"

lemma execute_native_eq:
  "execute_native nt call (h, w) =
     (case current_action h call of
        Inl e \<Rightarrow> ((h, w), Inl e)
      | Inr (key, action) \<Rightarrow>
          (case nt_call nt action w of
             (w', Inl e) \<Rightarrow> ((h, w'), Inl e)
           | (w', Inr x) \<Rightarrow>
               ((h\<lparr>oh_results := AList.update key x (oh_results h), oh_executions := Suc (oh_executions h)\<rparr>, w'),
                rbind (text_parts (nt_content nt x)) (\<lambda>parts. Inr (observation parts False False)))))"
  by (simp add: execute_native_def current_action_def)

lemma execute_native_cases:
  assumes "execute_native nt call (h, w) = ((h', w'), r)"
  obtains e where "h' = h" "w' = w" "r = Inl e" "current_action h call = Inl e"
  | key action e where "current_action h call = Inr (key, action)" "nt_call nt action w = (w', Inl e)" "h' = h" "r = Inl e"
  | key action x where "current_action h call = Inr (key, action)" "nt_call nt action w = (w', Inr x)"
      "h' = h\<lparr>oh_results := AList.update key x (oh_results h), oh_executions := Suc (oh_executions h)\<rparr>"
  using assms that by (fastforce simp: execute_native_eq split: sum.splits prod.splits)

lemma executes_keeps:
  assumes "executes nt call h h'"
  shows "oh_pending h' = oh_pending h" "oh_failure h' = oh_failure h" "oh_stopped h' = oh_stopped h"
    "oh_natives h' = oh_natives h" "oh_native_to_name h' = oh_native_to_name h" "oh_actions h' = oh_actions h"
    "oh_returns h' = oh_returns h" "oh_bindings h' = oh_bindings h" "oh_name_to_native h' = oh_name_to_native h"
    "oh_all_calls h' = oh_all_calls h"
proof -
  from assms obtain w w' r where x: "execute_native nt call (h, w) = ((h', w'), r)" by (auto simp: executes_def)
  have "h' = h \<or> (\<exists>rs n. h' = h\<lparr>oh_results := rs, oh_executions := n\<rparr>)"
    by (cases rule: execute_native_cases [OF x]) blast+
  then show "oh_pending h' = oh_pending h" "oh_failure h' = oh_failure h" "oh_stopped h' = oh_stopped h"
    "oh_natives h' = oh_natives h" "oh_native_to_name h' = oh_native_to_name h" "oh_actions h' = oh_actions h"
    "oh_returns h' = oh_returns h" "oh_bindings h' = oh_bindings h" "oh_name_to_native h' = oh_name_to_native h"
    "oh_all_calls h' = oh_all_calls h"
    by auto
qed

lemma served:
  assumes "serves_natives A" "ae_request A m v (h, w) = ((h', w'), r)"
  shows "oh_pending h' = oh_pending h" "oh_failure h' = oh_failure h" "oh_stopped h' = oh_stopped h"
    "oh_natives h' = oh_natives h" "oh_native_to_name h' = oh_native_to_name h" "oh_actions h' = oh_actions h"
    "oh_returns h' = oh_returns h" "oh_bindings h' = oh_bindings h" "oh_name_to_native h' = oh_name_to_native h"
    "oh_all_calls h' = oh_all_calls h"
proof -
  have "h' = h \<or> (\<exists>nt. executes nt v h h')" using assms unfolding serves_natives_def by metis
  then show "oh_pending h' = oh_pending h" "oh_failure h' = oh_failure h" "oh_stopped h' = oh_stopped h"
    "oh_natives h' = oh_natives h" "oh_native_to_name h' = oh_native_to_name h" "oh_actions h' = oh_actions h"
    "oh_returns h' = oh_returns h" "oh_bindings h' = oh_bindings h" "oh_name_to_native h' = oh_name_to_native h"
    "oh_all_calls h' = oh_all_calls h"
    by (metis executes_keeps)+
qed

section \<open>Pending calls\<close>

lemma mset_update: "mset (map snd (AList.update k v al)) \<subseteq># add_mset v (mset (map snd al))"
proof (induction al)
  case (Cons p al)
  then show ?case by (cases p) (auto simp: subset_mset.add_increasing2 intro: subset_mset.order_trans mset_subset_eq_add_mset_cancel)
qed simp

lemma mset_update_all: "mset (map snd (update_all d kvs)) \<subseteq># mset (map snd d) + mset (map snd kvs)"
proof (induction kvs arbitrary: d)
  case (Cons p kvs)
  have "mset (map snd (update_all d (p # kvs))) \<subseteq># mset (map snd (AList.update (fst p) (snd p) d)) + mset (map snd kvs)"
    using Cons by (simp add: update_all_def)
  also have "\<dots> \<subseteq># add_mset (snd p) (mset (map snd d)) + mset (map snd kvs)"
    by (intro subset_mset.add_mono mset_update) simp
  finally show ?case by simp
qed (simp add: update_all_def)

lemma mset_delete_le: "mset (map snd (AList.delete k al)) \<subseteq># mset (map snd al)"
  by (induction al) (auto simp: subset_mset.add_increasing2 intro: subset_mset.order_trans)

lemma mset_delete: "(k, v) \<in> set al \<Longrightarrow> add_mset v (mset (map snd (AList.delete k al))) \<subseteq># mset (map snd al)"
proof (induction al)
  case (Cons p al)
  show ?case
  proof (cases "p = (k, v)")
    case True
    then show ?thesis using mset_delete_le [of k al] by simp
  next
    case False
    with Cons have "add_mset v (mset (map snd (AList.delete k al))) \<subseteq># mset (map snd al)" by auto
    then show ?thesis
      by (cases p) (auto simp: add_mset_commute [of v] intro: subset_mset.order_trans)
  qed
qed simp

lemma claim_key_member:
  "claim_key natives name g d = Inr (Some (k, v)) \<Longrightarrow> (k, v) \<in> set d \<and> item v ''name'' = Inr (VStr name)"
  by (induction d) (auto simp: rbind_Inr_iff split: if_splits)

lemma claim_cases:
  assumes "claim name g h = (h', r)"
  obtains e where "r = Inl e" "h' = h"
  | key call where "r = Inr call" "h' = h\<lparr>oh_pending := AList.delete key (oh_pending h)\<rparr>" "(key, call) \<in> set (oh_pending h)"
      "item call ''name'' = Inr (VStr name)"
proof (cases "claim_key (oh_natives h) name g (oh_pending h)")
  case (Inl e)
  with assms that(1) show ?thesis by (auto simp: claim_def)
next
  case (Inr found)
  show ?thesis
  proof (cases found)
    case None
    with Inr assms that(1) show ?thesis by (auto simp: claim_def)
  next
    case (Some kc)
    with Inr assms that(2) show ?thesis by (cases kc) (auto simp: claim_def dest: claim_key_member)
  qed
qed

lemma claim_pending:
  assumes "claim name g h = (h', Inr call)"
  shows "add_mset call (mset (map snd (oh_pending h'))) \<subseteq># mset (map snd (oh_pending h))"
  by (cases rule: claim_cases [OF assms]) (use mset_delete in \<open>simp_all del: mset_map\<close>)

section \<open>One operation\<close>

lemma agent_step_cases:
  assumes "agent_step A call c (h, w) = (c', (h', w'), r)"
  obtains h1 r1 b f where "ae_request A ''step'' call (h, w) = ((h1, w'), r1)" "h' = h1\<lparr>oh_stopped := b, oh_failure := f\<rparr>"
    "oh_stopped h1 \<longrightarrow> b" "oh_failure h1 \<noteq> None \<longrightarrow> f \<noteq> None"
proof -
  obtain h1 w1 r1 where q: "ae_request A ''step'' call (h, w) = ((h1, w1), r1)" by (metis prod_cases3 surj_pair)
  obtain c2 s2 r2 where t: "call_tool A call c (h, w) = (c2, s2, r2)" by (metis prod_cases3)
  have s2: "s2 = (h1, w1)"
    using t q by (auto simp: call_tool_def worker_request_def Let_def split: sum.splits)
  show ?thesis
  proof (cases r2)
    case (Inl e)
    with assms t s2 have "h' = h1\<lparr>oh_stopped := oh_stopped h1, oh_failure := if is_worker_error e then Some e else oh_failure h1\<rparr>" "w' = w1"
      by (auto simp: agent_step_def)
    with q that show ?thesis by (metis option.distinct(1))
  next
    case (Inr obs)
    with assms t s2 have "h' = h1\<lparr>oh_stopped := oh_stopped h1 \<or> ended obs, oh_failure := oh_failure h1\<rparr>" "w' = w1"
      by (auto simp: agent_step_def)
    with q that show ?thesis by blast
  qed
qed

lemma drop_call_simps [simp]:
  "oh_pending (drop_call k h) = oh_pending h" "oh_failure (drop_call k h) = oh_failure h"
  "oh_stopped (drop_call k h) = oh_stopped h" "oh_natives (drop_call k h) = oh_natives h"
  "oh_actions (drop_call k h) = AList.delete k (oh_actions h)" "oh_results (drop_call k h) = AList.delete k (oh_results h)"
  "oh_executions (drop_call k h) = oh_executions h" "oh_returns (drop_call k h) = oh_returns h"
  by (simp_all add: drop_call_def)

definition over :: "('a, 'r, 'w) openhands \<Rightarrow> bool" where
  \<comment> \<open>the Worker ended the episode or denied an operation\<close>
  "over h \<longleftrightarrow> oh_failure h \<noteq> None \<or> oh_stopped h"

text \<open>What one request for a claimed call does to the adapter, whoever sent it.\<close>

definition sent_one ::
  "(('a, 'r, 'w) openhands \<times> 'w) agent_env \<Rightarrow> ('a, 'r, 'w) openhands \<times> 'w \<Rightarrow> ('a, 'r, 'w) openhands \<times> 'w \<Rightarrow> bool" where
  "sent_one A s s' \<longleftrightarrow> (\<exists>call key h1 r1 h2.
     (key, call) \<in> set (oh_pending (fst s)) \<and> ae_request A ''step'' call (h1, snd s) = ((h2, snd s'), r1) \<and>
     oh_pending h1 = AList.delete key (oh_pending (fst s)) \<and> oh_pending (fst s') = oh_pending h2 \<and>
     oh_failure h1 = oh_failure (fst s) \<and> oh_stopped h1 = oh_stopped (fst s) \<and>
     oh_natives h1 = oh_natives (fst s) \<and> oh_natives (fst s') = oh_natives h2 \<and>
     (over h2 \<longrightarrow> over (fst s')))"

definition unsent :: "('a, 'r, 'w) openhands \<times> 'w \<Rightarrow> ('a, 'r, 'w) openhands \<times> 'w \<Rightarrow> bool" where
  "unsent s s' \<longleftrightarrow> snd s' = snd s \<and> mset (map snd (oh_pending (fst s'))) \<subseteq># mset (map snd (oh_pending (fst s))) \<and>
     oh_failure (fst s') = oh_failure (fst s) \<and> oh_stopped (fst s') = oh_stopped (fst s) \<and> oh_natives (fst s') = oh_natives (fst s)"

lemma call_mcp_tool_cases:
  assumes "call_mcp_tool A name arguments c s = (c', s', r)"
  shows "unsent s s' \<or> sent_one A s s'"
proof -
  obtain h w where s: "s = (h, w)" by (cases s)
  obtain h0 q where q: "claim name (Arguments arguments) h = (h0, q)" by (metis surj_pair)
  show ?thesis
  proof (cases rule: claim_cases [OF q])
    case (1 e)
    with assms s q show ?thesis by (auto simp: call_mcp_tool_def unsent_def)
  next
    case (2 key call)
    then have "agent_step A call c (h0, w) = (c', (fst s', snd s'), r)"
      using assms s q by (auto simp: call_mcp_tool_def)
    then show ?thesis
    proof (cases rule: agent_step_cases)
      case (1 h1 r1 b f)
      with 2 s show ?thesis unfolding sent_one_def over_def by (intro disjI2 exI [of _ call] exI [of _ key] exI [of _ h0] exI [of _ r1] exI [of _ h1]) auto
    qed
  qed
qed

lemma keyed_call_Inr: "keyed_call c = Inr (k, c') \<longleftrightarrow> item c ''tool_call_id'' = Inr (VStr k) \<and> c' = c"
proof -
  have "as_str v = Inr k \<longleftrightarrow> v = VStr k" for v by (cases v) auto
  then show ?thesis by (auto simp: keyed_call_def rbind_Inr_iff)
qed

lemma native_call_step:
  assumes "native_call A name nt action c (h, w) = (c', s', r)"
  obtains "unsent (h, w) s'" "oh_actions (fst s') = oh_actions h" "oh_results (fst s') = oh_results h"
      "oh_executions (fst s') = oh_executions h" "oh_returns (fst s') = oh_returns h" "\<exists>e. r = Inl e"
  | key call h0 c1 h1 r1 where "(key, call) \<in> set (oh_pending h)" "item call ''name'' = Inr (VStr name)"
      "h0 = h\<lparr>oh_pending := AList.delete key (oh_pending h)\<rparr>"
      "\<exists>k. item call ''tool_call_id'' = Inr (VStr k) \<and>
         agent_step A call c (h0\<lparr>oh_actions := AList.update k action (oh_actions h0)\<rparr>, w) = (c1, (h1, snd s'), r1) \<and>
         (\<exists>n a. fst s' = drop_call k (h1\<lparr>oh_returns := n, oh_final_answer := a\<rparr>) \<and>
           n = (case r of Inl _ \<Rightarrow> oh_returns h1 | Inr _ \<Rightarrow> Suc (oh_returns h1)) \<and>
           (\<forall>x. r = Inr x \<longrightarrow> map_of (oh_results h1) k = Some x))"
proof -
  obtain h0 q where q: "claim name (Action action) h = (h0, q)" by (metis surj_pair)
  show thesis
  proof (cases rule: claim_cases [OF q])
    case (1 e)
    with assms q that(1) show ?thesis by (auto simp: native_call_def unsent_def)
  next
    case (2 key call)
    show ?thesis
    proof (cases "keyed_call call")
      case (Inl e)
      with 2 assms q that(1) mset_delete_le [of key "oh_pending h"] show ?thesis
        by (auto simp: native_call_def unsent_def simp del: mset_map)
    next
      case (Inr kc)
      then obtain k where k: "kc = (k, call)" "item call ''tool_call_id'' = Inr (VStr k)"
        by (metis keyed_call_Inr surj_pair)
      obtain c1 h1 w1 r1 where a: "agent_step A call c (h0\<lparr>oh_actions := AList.update k action (oh_actions h0)\<rparr>, w) = (c1, (h1, w1), r1)"
        by (metis prod_cases3 surj_pair)
      have s': "snd s' = w1" and f: "\<exists>n a. fst s' = drop_call k (h1\<lparr>oh_returns := n, oh_final_answer := a\<rparr>) \<and>
           n = (case r of Inl _ \<Rightarrow> oh_returns h1 | Inr _ \<Rightarrow> Suc (oh_returns h1)) \<and>
           (\<forall>x. r = Inr x \<longrightarrow> map_of (oh_results h1) k = Some x)"
        using assms q 2 Inr k a
        by (auto simp: native_call_def Let_def split: sum.splits option.splits if_splits
            intro: exI [of _ "oh_final_answer h1"])
      from that(2) [OF 2(3,4,2), of c1 h1 r1] k(2) a s' f show ?thesis by blast
    qed
  qed
qed

lemma native_call_cases:
  assumes "native_call A name nt action c s = (c', s', r)"
  shows "unsent s s' \<or> sent_one A s s'"
proof -
  obtain h w where s: "s = (h, w)" by (cases s)
  from assms [unfolded s] show ?thesis
  proof (cases rule: native_call_step)
    case 1
    with s show ?thesis by simp
  next
    case (2 key call h0 c1 h1 r1)
    then obtain k where k: "agent_step A call c (h0\<lparr>oh_actions := AList.update k action (oh_actions h0)\<rparr>, w) = (c1, (h1, snd s'), r1)"
      and f: "\<exists>n a. fst s' = drop_call k (h1\<lparr>oh_returns := n, oh_final_answer := a\<rparr>)" by blast
    from k show ?thesis
    proof (cases rule: agent_step_cases)
      case (1 h2 r2 b f')
      with 2 f s show ?thesis
        unfolding sent_one_def over_def
        by (intro disjI2 exI [of _ call] exI [of _ key] exI [of _ "h0\<lparr>oh_actions := AList.update k action (oh_actions h0)\<rparr>"]
            exI [of _ r2] exI [of _ h2]) auto
    qed
  qed
qed

lemma completion_over: "over (fst s) \<Longrightarrow> \<exists>e. completion L A messages names s = (s, Inl e)"
  by (cases "oh_failure (fst s)") (auto simp: completion_def over_def)

lemma take_generation_keeps:
  assumes "take_generation L g h = (h', r)"
  shows "oh_failure h' = oh_failure h" "oh_stopped h' = oh_stopped h" "oh_natives h' = oh_natives h"
    "oh_actions h' = oh_actions h" "oh_results h' = oh_results h" "oh_executions h' = oh_executions h" "oh_returns h' = oh_returns h"
    "oh_pending h' = oh_pending h \<or> (\<exists>calls keyed. rbind (get g ''tool_calls'' (VList [])) as_list = Inr calls \<and>
       rmap keyed_call calls = Inr keyed \<and> oh_pending h' = update_all [] keyed)"
  using assms unfolding take_generation_def
  by (cases "item g ''response''"; cases "rbind (get g ''tool_calls'' (VList [])) (\<lambda>cs. rbind (as_list cs) (\<lambda>calls.
                   rbind (rmap keyed_call calls) (\<lambda>keyed. Inr (calls, keyed))))";
      auto simp: rbind_Inr_iff Let_def)+

lemma completion_cases:
  assumes "completion L A messages names (h, w) = ((h', w'), r)"
  obtains "h' = h" "w' = w"
  | wire e h1 where "\<not> over h" "ae_request A ''generate'' (VList wire) (h, w) = ((h1, w'), Inl e)"
      "h' = h1\<lparr>oh_failure := if is_worker_error (runtime_error e) then Some (runtime_error e) else oh_failure h1\<rparr>"
  | wire g h1 where "\<not> over h" "ae_request A ''generate'' (VList wire) (h, w) = ((h1, w'), Inr g)"
      "take_generation L g h1 = (h', r)"
proof -
  have alive: "h' = h \<and> w' = w" if "over h"
    using completion_over [of "(h, w)" L A messages names] that assms by auto
  show thesis
  proof (cases "over h")
    case True
    with alive that(1) show ?thesis by simp
  next
    case False
    show ?thesis
    proof (cases "rbind (guard (set names = fst ` set (oh_native_to_name h)) (RpcError ''AGENT_TOOL_TABLE_MISMATCH'')) (\<lambda>_.
                        rmap (wire_of h) messages)")
      case (Inl e)
      with False assms that(1) show ?thesis by (auto simp: completion_def over_def)
    next
      case (Inr wire)
      obtain h1 w1 r1 where q: "ae_request A ''generate'' (VList wire) (h, w) = ((h1, w1), r1)" by (metis prod_cases3 surj_pair)
      show ?thesis
      proof (cases r1)
        case e: (Inl e)
        with q False Inr assms that(2) show ?thesis
          by (auto simp: completion_def over_def generate_def worker_request_def)
      next
        case g: (Inr g)
        with q False Inr assms that(3) show ?thesis
          by (auto simp: completion_def over_def generate_def worker_request_def split: prod.splits)
      qed
    qed
  qed
qed

section \<open>Every call reaches the Worker as generated, and once\<close>

lemma all_proposed_snoc: "all_proposed (tr @ [x]) = all_proposed tr @ proposed_by x"
  by (simp add: all_proposed_def)

lemma sent_calls_snoc: "sent_calls (tr @ [x]) = sent_calls tr @ sent_call x"
  by (simp add: sent_calls_def)

lemma generations_in_snoc: "generations_in (tr @ [x]) = generations_in tr + (if fst x = ''generate'' then 1 else 0)"
  by (simp add: generations_in_def)

definition accounted :: "('w \<Rightarrow> exchange list) \<Rightarrow> ('a, 'r, 'w) openhands \<times> 'w \<Rightarrow> bool" where
  "accounted seen s \<longleftrightarrow>
     mset (sent_calls (seen (snd s))) + mset (map snd (oh_pending (fst s))) \<subseteq># mset (all_proposed (seen (snd s)))"

lemma fewer_pending: "B \<subseteq># C \<Longrightarrow> A + C \<subseteq># D \<Longrightarrow> A + B \<subseteq># D" for A :: "'b multiset"
  by (rule subset_mset.order_trans [OF subset_mset.add_left_mono])

lemma unsent_accounted: "unsent s s' \<Longrightarrow> accounted seen s \<Longrightarrow> accounted seen s'"
  unfolding unsent_def accounted_def by (auto simp del: mset_map elim: fewer_pending [rotated])

lemma sent_one_accounted:
  assumes "sent_one A s s'" "serves_natives A" "observed_by A seen" "accounted seen s"
  shows "accounted seen s'"
proof -
  obtain call key h1 r1 h2 where k: "(key, call) \<in> set (oh_pending (fst s))"
      "ae_request A ''step'' call (h1, snd s) = ((h2, snd s'), r1)"
      "oh_pending h1 = AList.delete key (oh_pending (fst s))" "oh_pending (fst s') = oh_pending h2"
    using assms(1) unfolding sent_one_def by blast
  have p: "oh_pending (fst s') = AList.delete key (oh_pending (fst s))" using served(1) [OF assms(2) k(2)] k(3,4) by simp
  have t: "seen (snd s') = seen (snd s) @ [(''step'', call, r1)]" using assms(3) k(2) unfolding observed_by_def by blast
  have "add_mset call (mset (map snd (oh_pending (fst s')))) \<subseteq># mset (map snd (oh_pending (fst s)))"
    using mset_delete [OF k(1)] p by simp
  then have "mset (sent_calls (seen (snd s))) + add_mset call (mset (map snd (oh_pending (fst s')))) \<subseteq># mset (all_proposed (seen (snd s)))"
    using assms(4) unfolding accounted_def by (rule fewer_pending)
  then show ?thesis by (simp add: accounted_def t sent_calls_snoc all_proposed_snoc)
qed

lemma completion_accounted:
  assumes "completion L A messages names s = (s', r)" "serves_natives A" "observed_by A seen" "accounted seen s"
  shows "accounted seen s'"
proof -
  obtain h w h' w' where s: "s = (h, w)" "s' = (h', w')" by (metis surj_pair)
  from assms(1) [unfolded s] show ?thesis
  proof (cases rule: completion_cases)
    case 1
    with s assms(4) show ?thesis by simp
  next
    case (2 wire e h1)
    have "seen w' = seen w @ [(''generate'', VList wire, Inl e)]" using assms(3) 2(2) unfolding observed_by_def by blast
    moreover have "oh_pending h' = oh_pending h" using served(1) [OF assms(2) 2(2)] 2(3) by simp
    ultimately show ?thesis using assms(4) s by (simp add: accounted_def sent_calls_snoc all_proposed_snoc)
  next
    case (3 wire g h1)
    have t: "seen w' = seen w @ [(''generate'', VList wire, Inr g)]" using assms(3) 3(2) unfolding observed_by_def by blast
    have h1: "oh_pending h1 = oh_pending h" by (rule served(1) [OF assms(2) 3(2)])
    from take_generation_keeps(8) [OF 3(3)] show ?thesis
    proof
      assume "oh_pending h' = oh_pending h1"
      then show ?thesis using assms(4) s t h1
        by (simp add: accounted_def sent_calls_snoc all_proposed_snoc subset_mset.add_increasing2)
    next
      assume "\<exists>calls keyed. rbind (get g ''tool_calls'' (VList [])) as_list = Inr calls \<and>
        rmap keyed_call calls = Inr keyed \<and> oh_pending h' = update_all [] keyed"
      then obtain calls keyed where c: "rbind (get g ''tool_calls'' (VList [])) as_list = Inr calls"
          "rmap keyed_call calls = Inr keyed" "oh_pending h' = update_all [] keyed" by blast
      have "map snd keyed = calls" using c(2)
        by (induction calls arbitrary: keyed) (auto simp: rbind_Inr_iff keyed_call_def)
      then have "mset (map snd (oh_pending h')) \<subseteq># mset calls"
        using mset_update_all [of "[]" keyed] c(3) by simp
      moreover have "proposed_by (''generate'', VList wire, Inr g) = calls" using c(1) by simp
      moreover have "mset (sent_calls (seen w)) \<subseteq># mset (all_proposed (seen w))"
        using assms(4) s by (auto simp: accounted_def intro: subset_mset.order_trans [rotated])
      ultimately show ?thesis
        using s t by (simp add: accounted_def sent_calls_snoc all_proposed_snoc subset_mset.add_mono del: proposed_by.simps)
    qed
  qed
qed

lemma framework_step_cases:
  assumes "framework_step L A oper (c, s) = (c', s')"
  obtains "s' = s" | "unsent s s'" | "sent_one A s s'" | messages names r where "completion L A messages names s = (s', r)"
proof (cases oper)
  case (Complete messages names)
  obtain s1 r where "completion L A messages names s = (s1, r)" by (metis surj_pair)
  with Complete assms that(4) show ?thesis by auto
next
  case (Run_Native name action)
  show ?thesis
  proof (cases "map_of (oh_natives (fst s)) name")
    case None
    with Run_Native assms that(1) show ?thesis by simp
  next
    case (Some nt)
    obtain c1 s1 r where "native_call A name nt action c s = (c1, s1, r)" by (metis prod_cases3)
    with Some Run_Native assms that(2,3) native_call_cases show ?thesis by fastforce
  qed
next
  case (Run_Mcp name arguments)
  obtain c1 s1 r where "call_mcp_tool A name arguments c s = (c1, s1, r)" by (metis prod_cases3)
  with Run_Mcp assms that(2,3) call_mcp_tool_cases show ?thesis by fastforce
qed

lemma framework_step_accounted:
  assumes "framework_step L A oper (c, s) = (c', s')" "serves_natives A" "observed_by A seen" "accounted seen s"
  shows "accounted seen s'"
  using framework_step_cases [OF assms(1)] assms(2-4)
  by (metis unsent_accounted sent_one_accounted completion_accounted)

lemma framework_run_induct [consumes 1, case_names start step]:
  assumes "framework_run L A ops (c, s) = (c', s')" "P s"
    "\<And>oper c1 s1 c2 s2. P s1 \<Longrightarrow> framework_step L A oper (c1, s1) = (c2, s2) \<Longrightarrow> P s2"
  shows "P s'"
  using assms(1,2)
proof (induction ops arbitrary: c s)
  case (Cons oper ops)
  obtain c1 s1 where "framework_step L A oper (c, s) = (c1, s1)" by (metis surj_pair)
  with Cons assms(3) show ?case by (auto simp: framework_run_def)
qed (simp add: framework_run_def)

section \<open>The new integration\<close>

definition fresh_as :: "('a, 'r, 'w) openhands \<Rightarrow> ('a, 'r, 'w) openhands \<Rightarrow> bool" where
  \<comment> \<open>setting up the tool table touches none of these\<close>
  "fresh_as h h' \<longleftrightarrow> oh_pending h' = oh_pending h \<and> oh_actions h' = oh_actions h \<and> oh_results h' = oh_results h \<and>
     oh_bindings h' = oh_bindings h \<and> oh_executions h' = oh_executions h \<and> oh_returns h' = oh_returns h"

lemma fresh_as_refl [simp]: "fresh_as h h"
  by (simp add: fresh_as_def)

lemma fresh_as_trans [trans]: "fresh_as h1 h2 \<Longrightarrow> fresh_as h2 h3 \<Longrightarrow> fresh_as h1 h3"
  by (simp add: fresh_as_def)

definition idle :: "('a, 'r, 'w) openhands \<Rightarrow> bool" where
  "idle h \<longleftrightarrow> oh_actions h = [] \<and> oh_results h = []"

lemma add_native_keeps: "add_native factories name binding (h, w) = ((h', w'), r) \<Longrightarrow> fresh_as h h'"
  by (cases "native_factory factories binding")
     (auto simp: add_native_def fresh_as_def Let_def split: sum.splits option.splits prod.splits list.splits if_splits)

lemma add_natives_keeps: "add_natives factories bs (h, w) = ((h', w'), r) \<Longrightarrow> fresh_as h h'"
proof (induction bs arbitrary: h w)
  case (Cons b bs)
  obtain name binding where b: "b = (name, binding)" by (cases b)
  obtain h1 w1 r1 where x: "add_native factories name binding (h, w) = ((h1, w1), r1)" by (metis surj_pair)
  show ?case
  proof (cases r1)
    case (Inr u)
    with Cons.prems b x have "add_natives factories bs (h1, w1) = ((h', w'), r)" by simp
    with Cons.IH add_native_keeps [OF x] show ?thesis by (blast intro: fresh_as_trans)
  qed (use Cons.prems b x add_native_keeps [OF x] in simp)
qed simp

lemma add_offered_keeps: "add_offered n h = (h', r) \<Longrightarrow> fresh_as h h'"
  by (auto simp: add_offered_def fresh_as_def split: sum.splits option.splits bool.splits if_splits)

lemma add_all_offered_keeps: "add_all_offered ns h = (h', r) \<Longrightarrow> fresh_as h h'"
proof (induction ns arbitrary: h)
  case (Cons n ns)
  obtain h1 r1 where x: "add_offered n h = (h1, r1)" by (metis surj_pair)
  show ?case
  proof (cases r1)
    case (Inr u)
    with Cons.prems x have "add_all_offered ns h1 = (h', r)" by simp
    with Cons.IH add_offered_keeps [OF x] show ?thesis by (blast intro: fresh_as_trans)
  qed (use Cons.prems x add_offered_keeps [OF x] in simp)
qed simp

lemma new_integration_start:
  assumes "new_integration version factories bindings offered w = Inr (h, w')"
  shows "oh_pending h = []" "idle h" "oh_executions h = 0" "oh_returns h = 0"
proof -
  obtain named where "(case initialize factories offered (new_openhands (update_all [] named), w) of
       (s, Inl e) \<Rightarrow> Inl e | (s, Inr _) \<Rightarrow> Inr s) = Inr (h, w')"
    using assms unfolding new_integration_def rbind_Inr_iff by blast
  then have n: "initialize factories offered (new_openhands (update_all [] named), w) = ((h, w'), Inr ())"
    by (simp split: prod.splits sum.splits)
  obtain h1 w1 where a: "add_natives factories (update_all [] named) (new_openhands (update_all [] named), w) = ((h1, w1), Inr ())"
    and o: "add_all_offered offered h1 = (h, Inr ())"
    using n by (auto simp: initialize_def new_openhands_def split: prod.splits sum.splits)
  from add_natives_keeps [OF a] add_all_offered_keeps [OF o]
  show "oh_pending h = []" "idle h" "oh_executions h = 0" "oh_returns h = 0"
    by (simp_all add: fresh_as_def new_openhands_def idle_def)
qed

text \<open>Through any sequence of model calls, MCP calls and native calls of the framework, each tool call
  that reaches the Worker is the exact call of a generation, and no call reaches it more often
  than generations proposed it.\<close>
theorem calls_reach_worker_once:
  assumes "new_integration version factories bindings offered w0 = Inr (h, w)" "seen w = []"
    "serves_natives A" "observed_by A seen"
    "framework_run L A ops (c, h, w) = (c', h', w')"
  shows "mset (sent_calls (seen w')) \<subseteq># mset (all_proposed (seen w'))"
proof -
  have "accounted seen (h, w)"
    using new_integration_start(1) [OF assms(1)] assms(2) by (simp add: accounted_def sent_calls_def all_proposed_def)
  with assms(5) have "accounted seen (h', w')"
    by (induction rule: framework_run_induct) (use assms(3,4) framework_step_accounted in blast)+
  then show ?thesis by (auto simp: accounted_def intro: subset_mset.order_trans [rotated])
qed

section \<open>After the end no model is asked\<close>

lemma framework_step_over:
  assumes "framework_step L A oper (c, s) = (c', s')" "serves_natives A" "observed_by A seen" "over (fst s)"
  shows "over (fst s') \<and> generations_in (seen (snd s')) = generations_in (seen (snd s))"
  using assms(1)
proof (cases rule: framework_step_cases)
  case 2
  with assms(4) show ?thesis by (auto simp: unsent_def over_def)
next
  case 3
  then obtain call h1 r1 h2 where x: "ae_request A ''step'' call (h1, snd s) = ((h2, snd s'), r1)" "over h1 \<longleftrightarrow> over (fst s)"
      "over h2 \<longrightarrow> over (fst s')"
    unfolding sent_one_def over_def by metis
  have "over h2 \<longleftrightarrow> over h1" using served(2,3) [OF assms(2) x(1)] by (simp add: over_def)
  moreover have "seen (snd s') = seen (snd s) @ [(''step'', call, r1)]" using assms(3) x(1) unfolding observed_by_def by blast
  ultimately show ?thesis using x(2,3) assms(4) by (simp add: generations_in_snoc)
next
  case (4 messages names r)
  with completion_over [OF assms(4), of L A messages names] assms(4) show ?thesis by auto
qed (use assms(4) in simp)

text \<open>Once the Worker has denied an operation or ended the episode, the adapter asks it for no further
  generation, whatever the framework does next.\<close>
theorem no_generation_after_end:
  assumes "serves_natives A" "observed_by A seen" "over h"
    "framework_run L A ops (c, h, w) = (c', h', w')"
  shows "over h' \<and> generations_in (seen w') = generations_in (seen w)"
proof -
  have "over (fst (h', w')) \<and> generations_in (seen (snd (h', w'))) = generations_in (seen w)"
    using assms(4)
  proof (induction rule: framework_run_induct)
    case (step oper c1 s1 c2 s2)
    with framework_step_over [OF step(2) assms(1,2)] show ?case by simp
  qed (use assms(3) in simp)
  then show ?thesis by simp
qed

section \<open>The framework gets the result of its own tool\<close>

lemma served_execution:
  assumes "serves_natives A" "ae_request A ''step'' call (h, w) = ((h', w'), r)"
    and "item call ''name'' = Inr (VStr name)" "map_of (oh_natives h) name = Some nt"
    and "item call ''tool_call_id'' = Inr (VStr k)" "oh_actions h = [(k, action)]" "oh_results h = []"
  shows "h' = h \<or> (\<exists>w0 w1 x. nt_call nt action w0 = (w1, Inr x) \<and>
    h' = h\<lparr>oh_results := [(k, x)], oh_executions := Suc (oh_executions h)\<rparr>)"
proof -
  have "get call ''tool_call_id'' VNone = Inr (VStr k) \<or> (\<exists>e. get call ''tool_call_id'' VNone = Inl e)"
    using assms(5) by (cases call) (auto simp: ditem_Inr_iff get_or_def split: option.splits)
  then have act: "current_action h call = Inr (k, action) \<or> (\<exists>e. current_action h call = Inl e)"
    using assms(6) by (auto simp: current_action_def lookup_def)
  from assms(1,2) have "h' = h \<or> (\<exists>nm t. item call ''name'' = Inr (VStr nm) \<and>
      map_of (oh_natives h) nm = Some t \<and> executes t call h h')"
    unfolding serves_natives_def by metis
  then show ?thesis
  proof
    assume "\<exists>nm t. item call ''name'' = Inr (VStr nm) \<and> map_of (oh_natives h) nm = Some t \<and> executes t call h h'"
    then have "executes nt call h h'" using assms(3,4) by auto
    then obtain w0 w1 y where "execute_native nt call (h, w0) = ((h', w1), y)" by (auto simp: executes_def)
    then show ?thesis by (cases rule: execute_native_cases) (use act assms(7) in auto)
  qed blast
qed

lemma sequential_claim:
  assumes "native_call A name nt action c (h, w) = (c', (h', w'), r)" "serves_natives A" "idle h"
    "map_of (oh_natives h) name = Some nt"
  shows "idle h' \<and> oh_natives h' = oh_natives h \<and>
    oh_executions h' + oh_returns h \<ge> oh_executions h + oh_returns h' \<and>
    (\<forall>x. r = Inr x \<longrightarrow> (\<exists>w0 w1. nt_call nt action w0 = (w1, Inr x)) \<and>
       oh_executions h' = Suc (oh_executions h) \<and> oh_returns h' = Suc (oh_returns h))"
  using assms(1)
proof (cases rule: native_call_step)
  case 1
  with assms(3) show ?thesis by (auto simp: unsent_def idle_def)
next
  case (2 key call h0 c1 h1 r1)
  from 2(4) obtain k n a where k: "item call ''tool_call_id'' = Inr (VStr k)"
      "agent_step A call c (h0\<lparr>oh_actions := AList.update k action (oh_actions h0)\<rparr>, w) = (c1, (h1, w'), r1)"
      "h' = drop_call k (h1\<lparr>oh_returns := n, oh_final_answer := a\<rparr>)"
      "n = (case r of Inl _ \<Rightarrow> oh_returns h1 | Inr _ \<Rightarrow> Suc (oh_returns h1))"
      "\<forall>x. r = Inr x \<longrightarrow> map_of (oh_results h1) k = Some x"
    by auto
  let ?h = "h0\<lparr>oh_actions := AList.update k action (oh_actions h0)\<rparr>"
  from k(2) obtain h2 r2 b f where s: "ae_request A ''step'' call (?h, w) = ((h2, w'), r2)"
      "h1 = h2\<lparr>oh_stopped := b, oh_failure := f\<rparr>" by (rule agent_step_cases) blast
  have start: "oh_actions ?h = [(k, action)]" "oh_results ?h = []" "oh_executions ?h = oh_executions h"
      "oh_natives ?h = oh_natives h" "oh_returns ?h = oh_returns h"
    using 2(3) assms(3) by (simp_all add: idle_def)
  have ex: "h2 = ?h \<or> (\<exists>w0 w1 x. nt_call nt action w0 = (w1, Inr x) \<and>
      h2 = ?h\<lparr>oh_results := [(k, x)], oh_executions := Suc (oh_executions ?h)\<rparr>)"
    using served_execution [OF assms(2) s(1) 2(2) _ k(1) start(1,2)] assms(4) start(4) by simp
  have idle: "idle h'" using ex k(3) s(2) start(1,2) by (auto simp: idle_def)
  show ?thesis
  proof (cases r)
    case (Inl e)
    with ex k(3,4) s(2) start idle show ?thesis by auto
  next
    case (Inr x)
    then have x: "map_of (oh_results h2) k = Some x" using k(5) s(2) by simp
    with ex start(2) obtain w0 w1 y where y: "nt_call nt action w0 = (w1, Inr y)"
        "h2 = ?h\<lparr>oh_results := [(k, y)], oh_executions := Suc (oh_executions ?h)\<rparr>" by auto
    with x have "y = x" by simp
    with y(1) have "\<exists>w0 w1. nt_call nt action w0 = (w1, Inr x)" by (intro exI) simp
    with Inr ex k(3,4,5) s(2) start idle show ?thesis by auto
  qed
qed

lemma idle_request:
  assumes "ae_request A m v (h, w) = ((h', w'), r)" "serves_natives A" "idle h"
  shows "h' = h"
proof -
  have "\<not> (h' \<noteq> h \<and> executes nt v h h')" for nt
  proof
    assume x: "h' \<noteq> h \<and> executes nt v h h'"
    then obtain w0 w1 y where "execute_native nt v (h, w0) = ((h', w1), y)" by (auto simp: executes_def)
    then show False
      by (cases rule: execute_native_cases) (use x assms(3) in \<open>auto simp: current_action_def idle_def lookup_def rbind_Inr_iff\<close>)
  qed
  with assms(1,2) show ?thesis unfolding serves_natives_def by metis
qed

definition calls_balanced :: "('a, 'r, 'w) openhands \<times> 'w \<Rightarrow> bool" where
  "calls_balanced s \<longleftrightarrow> idle (fst s) \<and> oh_returns (fst s) \<le> oh_executions (fst s)"

lemma mcp_balanced:
  assumes "call_mcp_tool A name arguments c s = (c', s', r)" "serves_natives A" "calls_balanced s"
  shows "calls_balanced s'"
proof -
  obtain h w where s: "s = (h, w)" by (cases s)
  obtain h0 q where q: "claim name (Arguments arguments) h = (h0, q)" by (metis surj_pair)
  show ?thesis
  proof (cases rule: claim_cases [OF q])
    case (1 e)
    with assms s q show ?thesis by (auto simp: call_mcp_tool_def)
  next
    case (2 key call)
    then have "agent_step A call c (h0, w) = (c', (fst s', snd s'), r)"
      using assms s q by (auto simp: call_mcp_tool_def)
    then show ?thesis
    proof (cases rule: agent_step_cases)
      case (1 h1 r1 b f)
      have "h1 = h0" by (rule idle_request [OF 1(1) assms(2)]) (use assms(3) s 2 in \<open>simp add: calls_balanced_def idle_def\<close>)
      with 1 2 s assms(3) show ?thesis by (simp add: calls_balanced_def idle_def)
    qed
  qed
qed

lemma completion_balanced:
  assumes "completion L A messages names s = (s', r)" "serves_natives A" "calls_balanced s"
  shows "calls_balanced s'"
proof -
  obtain h w h' w' where s: "s = (h, w)" "s' = (h', w')" by (metis surj_pair)
  from assms(1) [unfolded s] show ?thesis
  proof (cases rule: completion_cases)
    case 1
    with s assms(3) show ?thesis by simp
  next
    case (2 wire e h1)
    have "h1 = h" by (rule idle_request [OF 2(2) assms(2)]) (use assms(3) s in \<open>simp add: calls_balanced_def\<close>)
    with 2(3) s assms(3) show ?thesis by (simp add: calls_balanced_def idle_def)
  next
    case (3 wire g h1)
    have "h1 = h" by (rule idle_request [OF 3(2) assms(2)]) (use assms(3) s in \<open>simp add: calls_balanced_def\<close>)
    with take_generation_keeps(4-7) [OF 3(3)] s assms(3) show ?thesis by (simp add: calls_balanced_def idle_def)
  qed
qed

lemma framework_step_balanced:
  assumes "framework_step L A oper (c, s) = (c', s')" "serves_natives A" "calls_balanced s"
  shows "calls_balanced s'"
proof (cases oper)
  case (Complete messages names)
  obtain s1 r where "completion L A messages names s = (s1, r)" by (metis surj_pair)
  with Complete assms completion_balanced show ?thesis by fastforce
next
  case (Run_Native name action)
  show ?thesis
  proof (cases "map_of (oh_natives (fst s)) name")
    case None
    with Run_Native assms show ?thesis by simp
  next
    case (Some nt)
    obtain h w h' w' where s: "s = (h, w)" "s' = (h', w')" by (metis surj_pair)
    obtain r where "native_call A name nt action c (h, w) = (c', (h', w'), r)"
      using Run_Native Some assms(1) s by (auto split: prod.splits)
    from sequential_claim [OF this assms(2)] Some s assms(3) show ?thesis by (auto simp: calls_balanced_def)
  qed
next
  case (Run_Mcp name arguments)
  obtain c1 s1 r where "call_mcp_tool A name arguments c s = (c1, s1, r)" by (metis prod_cases3)
  with Run_Mcp assms mcp_balanced show ?thesis by fastforce
qed

text \<open>C22: A native tool call that returns gives the framework the very object its original tool returned
  for this action, after the tool ran once, and leaves no trace of the call behind.\<close>
theorem native_result_is_original:
  assumes "new_integration version factories bindings offered w0 = Inr (h, w)"
    "serves_natives A" "framework_run L A ops (c, h, w) = (c1, h1, w1)"
    "map_of (oh_natives h1) name = Some nt" "native_call A name nt action c1 (h1, w1) = (c2, (h2, w2), Inr x)"
  shows "(\<exists>w3 w4. nt_call nt action w3 = (w4, Inr x)) \<and> oh_executions h2 = Suc (oh_executions h1) \<and>
    oh_returns h2 = Suc (oh_returns h1) \<and> oh_returns h2 \<le> oh_executions h2 \<and> oh_actions h2 = [] \<and> oh_results h2 = []"
proof -
  have "calls_balanced (h, w)" using new_integration_start(2-4) [OF assms(1)] by (simp add: calls_balanced_def)
  with assms(3) have "calls_balanced (h1, w1)"
    by (induction rule: framework_run_induct) (use assms(2) framework_step_balanced in blast)+
  then show ?thesis
    using sequential_claim [OF assms(5,2) _ assms(4)] by (auto simp: calls_balanced_def idle_def)
qed

section \<open>How a run ends\<close>

lemma text_content_not_budget: "text_content v = Inl e \<Longrightarrow> \<not> budget_error e"
proof -
  have str: "\<not> budget_error e" if "as_str u = Inl e" for u e
    using that by (cases u) (auto simp: budget_error_def)
  have "\<not> budget_error e" if "rany f xs = Inl e" "\<And>x e. f x = Inl e \<Longrightarrow> \<not> budget_error e" for f :: "val \<Rightarrow> bool res" and xs e
    using that by (induction xs) (auto simp: rbind_Inl_iff split: if_splits)
  moreover have "\<not> budget_error e" if "rmap f xs = Inl e" "\<And>x e. f x = Inl e \<Longrightarrow> \<not> budget_error e" for f :: "val \<Rightarrow> string res" and xs e
    using that by (induction xs) (auto simp: rbind_Inl_iff)
  ultimately show "text_content v = Inl e \<Longrightarrow> \<not> budget_error e"
    by (fastforce simp: text_content_def rbind_Inl_iff guard_def budget_error_def [of "RpcError c" for c]
        dest: as_list_not_budget item_not_budget str split: if_splits)
qed

lemma settle_failure_Inl:
  assumes "settle_failure e' answer = Inl e"
  shows "\<not> budget_error e \<and> (e = e' \<or> failure_code e' = Inl e)"
proof -
  from assms consider "failure_code e' = Inl e" | c where "failure_code e' = Inr c" "\<not> py_in c (map VStr budget_codes)" "e = e'"
    by (auto simp: settle_failure_def rbind_Inl_iff split: if_splits)
  then show ?thesis
  proof cases
    case 1
    then show ?thesis by (cases e') (auto simp: budget_error_def dest: item_not_budget)
  next
    case (2 c)
    then have "\<not> budget_error e" by (cases e') (auto simp: budget_error_def py_in_def)
    with 2 show ?thesis by simp
  qed
qed

text \<open>
  The last answer, as the exchanges with the Worker and the tools show it: the response of the
  newest generation, or the message of a finish tool that returned after it.
\<close>

fun shown_response :: "exchange \<Rightarrow> val \<Rightarrow> val" where
  "shown_response (m, v, r) a =
     (if m = ''generate'' then (case rbind r (\<lambda>g. item g ''response'') of Inl _ \<Rightarrow> a | Inr x \<Rightarrow> x) else a)"

fun answer_after ::
  "lib \<Rightarrow> (('a, 'r, 'w) openhands \<times> 'w) agent_env \<Rightarrow> ('w \<Rightarrow> exchange list) \<Rightarrow> 'a framework_op \<Rightarrow>
   worker_context \<times> ('a, 'r, 'w) openhands \<times> 'w \<Rightarrow> val \<Rightarrow> val" where
  "answer_after L A seen (Complete messages names) (c, s) a =
     fold shown_response (drop (length (seen (snd s))) (seen (snd (fst (completion L A messages names s))))) a"
| "answer_after L A seen (Run_Native name action) (c, s) a =
     (case map_of (oh_natives (fst s)) name of
        None \<Rightarrow> a
      | Some nt \<Rightarrow> (case native_call A name nt action c s of
            (_, _, Inl _) \<Rightarrow> a
          | (_, _, Inr _) \<Rightarrow> if nt_name nt = ''finish'' then VList [text_part (VStr (nt_message nt action))] else a))"
| "answer_after L A seen (Run_Mcp name arguments) (c, s) a = a"

fun last_answer ::
  "lib \<Rightarrow> (('a, 'r, 'w) openhands \<times> 'w) agent_env \<Rightarrow> ('w \<Rightarrow> exchange list) \<Rightarrow> 'a framework_op list \<Rightarrow>
   worker_context \<times> ('a, 'r, 'w) openhands \<times> 'w \<Rightarrow> val \<Rightarrow> val" where
  "last_answer L A seen [] x a = a"
| "last_answer L A seen (oper # ops) x a = last_answer L A seen ops (framework_step L A oper x) (answer_after L A seen oper x a)"

lemma served_answer:
  assumes "serves_natives A" "ae_request A m v (h, w) = ((h', w'), r)"
  shows "oh_final_answer h' = oh_final_answer h"
proof -
  have "oh_final_answer h' = oh_final_answer h" if "executes nt v h h'" for nt
  proof -
    from that obtain w w' r where x: "execute_native nt v (h, w) = ((h', w'), r)" by (auto simp: executes_def)
    show ?thesis by (cases rule: execute_native_cases [OF x]) auto
  qed
  with assms show ?thesis unfolding serves_natives_def by metis
qed

lemma claim_answer: "oh_final_answer (fst (claim name g h)) = oh_final_answer h"
  by (simp add: claim_def split: sum.splits option.splits)

lemma agent_step_answer:
  assumes "serves_natives A" "agent_step A call c (h, w) = (c', (h', w'), r)"
  shows "oh_final_answer h' = oh_final_answer h"
  using assms(2)
proof (cases rule: agent_step_cases)
  case (1 h1 r1 b f)
  with served_answer [OF assms(1) 1(1)] show ?thesis by simp
qed

lemma take_generation_answer:
  assumes "take_generation L g h = (h', r)"
  shows "oh_final_answer h' = (case item g ''response'' of Inl _ \<Rightarrow> oh_final_answer h | Inr x \<Rightarrow> x)"
  using assms unfolding take_generation_def
  by (cases "item g ''response''"; cases "rbind (get g ''tool_calls'' (VList [])) (\<lambda>cs. rbind (as_list cs) (\<lambda>calls.
                   rbind (rmap keyed_call calls) (\<lambda>keyed. Inr (calls, keyed))))")
     (auto simp: Let_def)

lemma completion_answer:
  assumes "serves_natives A" "observed_by A seen" "completion L A messages names (h, w) = ((h', w'), r)"
  shows "oh_final_answer h' = fold shown_response (drop (length (seen w)) (seen w')) (oh_final_answer h)"
  using assms(3)
proof (cases rule: completion_cases)
  case (2 wire e h1)
  then have "seen w' = seen w @ [(''generate'', VList wire, Inl e)]" using assms(2) by (simp add: observed_by_def)
  with 2 served_answer [OF assms(1) 2(2)] show ?thesis by simp
next
  case (3 wire g h1)
  then have "seen w' = seen w @ [(''generate'', VList wire, Inr g)]" using assms(2) by (simp add: observed_by_def)
  with take_generation_answer [OF 3(3)] served_answer [OF assms(1) 3(2)] show ?thesis by (simp split: sum.splits)
qed simp

lemma native_call_answer:
  assumes "serves_natives A" "native_call A name nt action c (h, w) = (c', (h', w'), r)"
  shows "oh_final_answer h' = (case r of Inl _ \<Rightarrow> oh_final_answer h
     | Inr _ \<Rightarrow> if nt_name nt = ''finish'' then VList [text_part (VStr (nt_message nt action))] else oh_final_answer h)"
proof -
  obtain h0 q where q: "claim name (Action action) h = (h0, q)" by (metis surj_pair)
  then have h0: "oh_final_answer h0 = oh_final_answer h" using claim_answer by (metis fst_conv)
  have step: "oh_final_answer h1 = oh_final_answer h"
    if "agent_step A call c (h0\<lparr>oh_actions := acts\<rparr>, w) = (c1, (h1, w1), r1)" for call acts c1 h1 w1 r1
    using agent_step_answer [OF assms(1) that] h0 by simp
  show ?thesis
    using assms(2) q h0
    by (auto simp: native_call_def Let_def drop_call_def split: sum.splits option.splits prod.splits if_splits dest!: step)
qed

lemma mcp_answer:
  assumes "serves_natives A" "call_mcp_tool A name arguments c (h, w) = (c', (h', w'), r)"
  shows "oh_final_answer h' = oh_final_answer h"
proof -
  obtain h0 q where q: "claim name (Arguments arguments) h = (h0, q)" by (metis surj_pair)
  then have "oh_final_answer h0 = oh_final_answer h" using claim_answer by (metis fst_conv)
  with q assms(2) agent_step_answer [OF assms(1)] show ?thesis by (fastforce simp: call_mcp_tool_def split: sum.splits)
qed

lemma framework_step_answer:
  assumes "serves_natives A" "observed_by A seen" "framework_step L A oper (c, s) = (c', s')"
  shows "oh_final_answer (fst s') = answer_after L A seen oper (c, s) (oh_final_answer (fst s))"
proof (cases oper)
  case (Complete messages names)
  obtain h w h' w' r where "s = (h, w)" "completion L A messages names (h, w) = ((h', w'), r)" by (metis surj_pair)
  with Complete assms(3) completion_answer [OF assms(1,2)] show ?thesis by fastforce
next
  case (Run_Native name action)
  obtain h w where s: "s = (h, w)" by (metis surj_pair)
  show ?thesis
  proof (cases "map_of (oh_natives h) name")
    case (Some nt)
    obtain c2 h' w' r where n: "native_call A name nt action c (h, w) = (c2, (h', w'), r)" by (metis prod_cases3 surj_pair)
    from native_call_answer [OF assms(1) n] n s Some Run_Native assms(3) show ?thesis by (auto split: sum.splits)
  qed (use Run_Native assms(3) s in auto)
next
  case (Run_Mcp name arguments)
  obtain h w where s: "s = (h, w)" by (metis surj_pair)
  obtain c2 h' w' r where n: "call_mcp_tool A name arguments c (h, w) = (c2, (h', w'), r)" by (metis prod_cases3 surj_pair)
  from mcp_answer [OF assms(1) n] n s Run_Mcp assms(3) show ?thesis by auto
qed

lemma framework_run_answer:
  assumes "serves_natives A" "observed_by A seen" "framework_run L A ops (c, s) = (c', s')"
  shows "oh_final_answer (fst s') = last_answer L A seen ops (c, s) (oh_final_answer (fst s))"
  using assms(3)
proof (induction ops arbitrary: c s)
  case (Cons oper ops)
  obtain c1 s1 where s: "framework_step L A oper (c, s) = (c1, s1)" by (metis surj_pair)
  with Cons framework_step_answer [OF assms(1,2) s] show ?case by (simp add: framework_run_def)
qed (simp add: framework_run_def)

lemma run_conversation_cases:
  assumes "run_conversation send_message converse_run obs s = (s', r)"
  obtains "s' = s" "\<And>e. r = Inl e \<Longrightarrow> \<not> budget_error e"
  | t e where "send_message t s = (s', Inl e)" "r = Inl e"
  | t s1 out where "send_message t s = (s1, Inr ())" "converse_run s1 = (s', out)"
      "r = (case (out, oh_failure (fst s')) of
            (Inl Interaction_Stopped, _) \<Rightarrow> Inr (oh_final_answer (fst s'))
          | (_, Some e) \<Rightarrow> settle_failure e (oh_final_answer (fst s'))
          | (Inr _, None) \<Rightarrow> Inr (oh_final_answer (fst s'))
          | (Inl (Raised e), None) \<Rightarrow> Inl e)"
proof -
  let ?start = "rbind (item obs ''terminated'') (\<lambda>t. if truthy t then Inr True else
           rbind (item obs ''episode_truncated'') (\<lambda>u. Inr (truthy u)))"
  show thesis
  proof (cases ?start)
    case (Inl e0)
    then have "\<not> budget_error e0" by (auto simp: rbind_Inl_iff dest: item_not_budget split: if_splits)
    with Inl assms that(1) show ?thesis by (auto simp: run_conversation_def)
  next
    case (Inr ended)
    note start = this
    show ?thesis
    proof (cases "rbind (item obs ''content'') text_content")
      case (Inl e0)
      then have "\<not> budget_error e0" by (auto simp: rbind_Inl_iff dest: item_not_budget text_content_not_budget)
      with Inl start assms that(1) show ?thesis by (auto simp: run_conversation_def split: bool.splits)
    next
      case (Inr t)
      obtain s1 r1 s2 out where "send_message t s = (s1, r1)" "converse_run s1 = (s2, out)" by (metis surj_pair)
      with start Inr assms that show ?thesis by (cases ended; cases r1) (auto simp: run_conversation_def Let_def)
    qed
  qed
qed

lemma settle_failure_code:
  "settle_failure e answer =
     (case failure_code e of
        Inl e' \<Rightarrow> Inl e'
      | Inr k \<Rightarrow> if k \<in> {VStr ''GENERATION_LIMIT'', VStr ''OUTPUT_TOKEN_LIMIT'', VStr ''TOOL_CALL_LIMIT'',
                             VStr ''FINALIZE_RESERVE_REACHED''}
                    then Inr answer else Inl e)"
proof -
  have "py_eq c (VStr x) \<longleftrightarrow> c = VStr x" for c x by (cases c) auto
  then show ?thesis by (auto simp: settle_failure_def py_in_def budget_codes_def split: sum.splits)
qed

text \<open>C23: When the Worker denied an operation, the recorded failure decides how the run ends: one of the
  four budget codes turns it into the last answer (the response of the newest generation or the
  message of a finish tool that returned after it, as the exchanges with the Worker show), any
  other code fails the run with that very failure, never with the framework's own error, unless
  the framework was told to stop, which also gives the last answer. No run ends in one of the
  budget errors as long as the framework raises none of its own.\<close>
theorem worker_failure_decides_run:
  assumes "run_conversation send_message converse_run obs s = (s', r)" "oh_failure (fst s) = None"
    "serves_natives A" "observed_by A seen"
    "\<And>t s s' r. send_message t s = (s', r) \<Longrightarrow> fst s' = fst s \<and> (\<forall>e. r = Inl e \<longrightarrow> \<not> budget_error e)"
    "\<And>s s' out. converse_run s = (s', out) \<Longrightarrow> \<exists>ops c c'. framework_run L A ops (c, s) = (c', s')"
    "\<And>s s' e. converse_run s = (s', Inl (Raised e)) \<Longrightarrow> oh_failure (fst s') = None \<Longrightarrow> \<not> budget_error e"
  shows "(\<forall>e. r = Inl e \<longrightarrow> \<not> budget_error e) \<and>
    (\<forall>e. oh_failure (fst s') = Some e \<longrightarrow>
      (\<exists>s1 out ops c c'. fst s1 = fst s \<and> converse_run s1 = (s', out) \<and> framework_run L A ops (c, s1) = (c', s') \<and>
        (let answer = last_answer L A seen ops (c, s1) (oh_final_answer (fst s))
         in r = (if out = Inl Interaction_Stopped then Inr answer
                 else case failure_code e of
                        Inl e' \<Rightarrow> Inl e'
                      | Inr k \<Rightarrow> if k \<in> {VStr ''GENERATION_LIMIT'', VStr ''OUTPUT_TOKEN_LIMIT'', VStr ''TOOL_CALL_LIMIT'',
                                             VStr ''FINALIZE_RESERVE_REACHED''}
                                    then Inr answer else Inl e))))"
  using assms(1)
proof (cases rule: run_conversation_cases)
  case 1
  with assms(2) show ?thesis by simp
next
  case (2 t e)
  with assms(2) assms(5) [OF 2(1)] show ?thesis by simp
next
  case (3 t s1 out)
  have s1: "fst s1 = fst s" using assms(5) [OF 3(1)] by simp
  obtain ops c c' where run: "framework_run L A ops (c, s1) = (c', s')" using assms(6) [OF 3(2)] by blast
  have answer: "oh_final_answer (fst s') = last_answer L A seen ops (c, s1) (oh_final_answer (fst s))"
    using framework_run_answer [OF assms(3,4) run] s1 by simp
  have "\<not> budget_error e" if "r = Inl e" for e
    using that 3(3) assms(7) [of s1 s'] 3(2) settle_failure_Inl
    by (auto split: sum.splits interruption.splits option.splits)
  moreover have "r = (if out = Inl Interaction_Stopped then Inr (oh_final_answer (fst s'))
      else settle_failure e (oh_final_answer (fst s')))" if "oh_failure (fst s') = Some e" for e
    using that 3(3) by (auto split: sum.splits interruption.splits)
  ultimately show ?thesis
    unfolding Let_def settle_failure_code [symmetric] using s1 3(2) run answer by metis
qed

section \<open>The tool table\<close>

abbreviation is_native :: "val \<Rightarrow> bool" where
  "is_native binding \<equiv> has binding ''native_agent'' = Inr True"

definition one_to_one :: "('a, 'r, 'w) openhands \<Rightarrow> bool" where
  "one_to_one h \<longleftrightarrow>
     (\<forall>name native. map_of (oh_name_to_native h) name = Some native \<longleftrightarrow> map_of (oh_native_to_name h) native = Some name) \<and>
     (\<forall>name nt. map_of (oh_natives h) name = Some nt \<longrightarrow> map_of (oh_name_to_native h) name = Some (nt_name nt))"

abbreviation known :: "(string \<times> 'b) list \<Rightarrow> string set" where
  "known d \<equiv> dom (map_of d)"

lemma one_to_one_extend:
  assumes "one_to_one h" "map_of (oh_name_to_native h) name = None" "map_of (oh_native_to_name h) native = None"
    "oh_name_to_native h' = AList.update name native (oh_name_to_native h)"
    "oh_native_to_name h' = AList.update native name (oh_native_to_name h)"
    "oh_natives h' = oh_natives h \<or> (\<exists>nt. oh_natives h' = AList.update name nt (oh_natives h) \<and> native = nt_name nt)"
  shows "one_to_one h'"
proof -
  have b: "map_of (oh_name_to_native h) n = Some m \<longleftrightarrow> map_of (oh_native_to_name h) m = Some n" for n m
    using assms(1) by (simp add: one_to_one_def)
  have n: "map_of (oh_natives h) n = Some nt \<Longrightarrow> map_of (oh_name_to_native h) n = Some (nt_name nt)" for n nt
    using assms(1) by (simp add: one_to_one_def)
  have "map_of (oh_name_to_native h') n = Some m \<longleftrightarrow> map_of (oh_native_to_name h') m = Some n" for n m
    using assms(2-5) b [of n m] b [of name m] b [of n native] by auto
  moreover have "map_of (oh_natives h') n = Some nt \<longrightarrow> map_of (oh_name_to_native h') n = Some (nt_name nt)" for n nt
    using assms(2,4,6) n [of n nt] by (auto split: if_splits)
  ultimately show ?thesis by (simp add: one_to_one_def)
qed

lemma add_native_table:
  assumes "add_native factories name binding (h, w) = ((h', w'), Inr u)" "one_to_one h" "map_of (oh_name_to_native h) name = None"
  shows "one_to_one h' \<and> known (oh_name_to_native h') = known (oh_name_to_native h) \<union> {n. n = name \<and> is_native binding} \<and>
    known (oh_natives h') = known (oh_natives h) \<union> {n. n = name \<and> is_native binding}"
proof (cases "is_native binding")
  case True
  then obtain create where "native_factory factories binding = Inr (Some create)"
    using assms(1) by (cases "native_factory factories binding")
      (auto simp: add_native_def native_factory_def rbind_Inr_iff split: option.splits)
  with assms(1) obtain nt where x: "map_of (oh_native_to_name h) (nt_name nt) = None"
      "h' = h\<lparr>oh_natives := AList.update name nt (oh_natives h),
                          oh_native_to_name := AList.update (nt_name nt) name (oh_native_to_name h),
                          oh_name_to_native := AList.update name (nt_name nt) (oh_name_to_native h)\<rparr>"
    by (auto simp: add_native_def Let_def split: sum.splits prod.splits list.splits if_splits)
  have "one_to_one h'" by (rule one_to_one_extend [OF assms(2,3) x(1)]) (use x(2) in auto)
  with x(2) True show ?thesis by (auto simp: dom_def)
next
  case False
  then have "\<exists>r. native_factory factories binding = r \<and> (\<forall>c. r \<noteq> Inr (Some c))"
    by (auto simp: native_factory_def rbind_Inr_iff)
  with assms(1) have "h' = h" by (auto simp: add_native_def split: sum.splits option.splits)
  with False assms(2) show ?thesis by simp
qed

lemma add_natives_table:
  assumes "add_natives factories bs (h, w) = ((h', w'), Inr u)" "one_to_one h" "distinct (map fst bs)"
    "known (oh_name_to_native h) \<inter> fst ` set bs = {}"
  shows "one_to_one h' \<and>
    known (oh_name_to_native h') = known (oh_name_to_native h) \<union> {n. \<exists>b. (n, b) \<in> set bs \<and> is_native b} \<and>
    known (oh_natives h') = known (oh_natives h) \<union> {n. \<exists>b. (n, b) \<in> set bs \<and> is_native b}"
  using assms
proof (induction bs arbitrary: h w)
  case (Cons b bs)
  obtain name binding where b: "b = (name, binding)" by (cases b)
  obtain h1 w1 r1 where x: "add_native factories name binding (h, w) = ((h1, w1), r1)" by (metis surj_pair)
  with Cons.prems(1) b have r1: "r1 = Inr ()" and rest: "add_natives factories bs (h1, w1) = ((h', w'), Inr u)"
    by (cases r1; simp)+
  have "map_of (oh_name_to_native h) name = None" using Cons.prems(4) b by auto
  from add_native_table [OF x [unfolded r1] Cons.prems(2) this]
  have one: "one_to_one h1" "known (oh_name_to_native h1) = known (oh_name_to_native h) \<union> {n. n = name \<and> is_native binding}"
    "known (oh_natives h1) = known (oh_natives h) \<union> {n. n = name \<and> is_native binding}" by auto
  have "known (oh_name_to_native h1) \<inter> fst ` set bs = {}" using one(2) Cons.prems(3,4) b by auto
  from Cons.IH [OF rest one(1) _ this] Cons.prems(3) one(2,3) b show ?case by auto
qed simp

lemma add_offered_table:
  assumes "add_offered n h = (h', Inr u)" "one_to_one h"
    "\<forall>m \<in> known (oh_name_to_native h). map_of (oh_native_to_name h) m = Some m \<or> (\<exists>b. map_of (oh_bindings h) m = Some b \<and> is_native b)"
  shows "one_to_one h' \<and> oh_natives h' = oh_natives h \<and> known (oh_name_to_native h') = insert n (known (oh_name_to_native h)) \<and>
    (\<forall>m \<in> known (oh_name_to_native h'). map_of (oh_native_to_name h') m = Some m \<or> (\<exists>b. map_of (oh_bindings h') m = Some b \<and> is_native b))"
proof -
  from assms(1) obtain b where x: "map_of (oh_bindings h) n = Some b" "\<not> is_native b" "map_of (oh_native_to_name h) n = None"
    "h' = h\<lparr>oh_native_to_name := AList.update n n (oh_native_to_name h), oh_name_to_native := AList.update n n (oh_name_to_native h)\<rparr>"
    by (auto simp: add_offered_def rbind_Inr_iff split: option.splits sum.splits bool.splits if_splits)
  have new: "map_of (oh_name_to_native h) n = None"
    using assms(3) x(1-3) by (cases "map_of (oh_name_to_native h) n") (auto simp: dom_def)
  have "one_to_one h'" by (rule one_to_one_extend [OF assms(2) new x(3)]) (use x(4) in auto)
  moreover have "known (oh_name_to_native h') = insert n (known (oh_name_to_native h))" using x(4) by (auto simp: dom_def)
  ultimately show ?thesis using assms(3) x(4) by auto
qed

lemma add_all_offered_table:
  assumes "add_all_offered ns h = (h', Inr u)" "one_to_one h"
    "\<forall>m \<in> known (oh_name_to_native h). map_of (oh_native_to_name h) m = Some m \<or> (\<exists>b. map_of (oh_bindings h) m = Some b \<and> is_native b)"
  shows "one_to_one h' \<and> oh_natives h' = oh_natives h"
  using assms
proof (induction ns arbitrary: h)
  case (Cons n ns)
  obtain h1 r1 where x: "add_offered n h = (h1, r1)" by (metis surj_pair)
  with Cons.prems(1) have r1: "r1 = Inr ()" and rest: "add_all_offered ns h1 = (h', Inr u)" by (cases r1; simp)+
  from add_offered_table [OF x [unfolded r1] Cons.prems(2,3)] Cons.IH [OF rest] show ?case by auto
qed simp

lemma distinct_update_all: "distinct (map fst d) \<Longrightarrow> distinct (map fst (update_all d kvs))"
  unfolding update_all_def by (induction kvs arbitrary: d) (auto simp: distinct_update)

text \<open>C24: The tool table of a new integration is one-to-one between the framework's tool names and the
  names of the Worker, covers exactly the selected bindings, and its native tools are exactly the
  bindings that declare one.\<close>
theorem tool_table_one_to_one:
  assumes "new_integration version factories bindings offered w = Inr (h, w')"
  shows "(\<forall>name native. map_of (oh_name_to_native h) name = Some native \<longleftrightarrow> map_of (oh_native_to_name h) native = Some name) \<and>
    fst ` set (oh_name_to_native h) = fst ` set (oh_bindings h) \<and>
    (\<forall>name. map_of (oh_natives h) name \<noteq> None \<longleftrightarrow> (\<exists>b. map_of (oh_bindings h) name = Some b \<and> has b ''native_agent'' = Inr True)) \<and>
    (\<forall>name nt. map_of (oh_natives h) name = Some nt \<longrightarrow> map_of (oh_name_to_native h) name = Some (nt_name nt))"
proof -
  obtain named where "(case initialize factories offered (new_openhands (update_all [] named), w) of
       (s, Inl e) \<Rightarrow> Inl e | (s, Inr _) \<Rightarrow> Inr s) = Inr (h, w')"
    using assms unfolding new_integration_def rbind_Inr_iff by blast
  then have n: "initialize factories offered (new_openhands (update_all [] named), w) = ((h, w'), Inr ())"
    by (simp split: prod.splits sum.splits)
  let ?bs = "update_all [] named"
  let ?h0 = "new_openhands ?bs :: ('a, 'b, 'c) openhands"
  obtain h1 w1 where a: "add_natives factories ?bs (?h0, w) = ((h1, w1), Inr ())"
    and o: "add_all_offered offered h1 = (h, Inr ())" and keys: "fst ` set (oh_name_to_native h) = fst ` set (oh_bindings h)"
    using n by (auto simp: initialize_def new_openhands_def guard_def split: prod.splits sum.splits if_splits)
  have d: "distinct (map fst ?bs)" by (rule distinct_update_all) simp
  have "one_to_one h1 \<and> known (oh_name_to_native h1) = {n. \<exists>b. (n, b) \<in> set ?bs \<and> is_native b} \<and>
    known (oh_natives h1) = {n. \<exists>b. (n, b) \<in> set ?bs \<and> is_native b}"
    using add_natives_table [OF a _ d] by (simp add: one_to_one_def new_openhands_def)
  then have one: "one_to_one h1" "known (oh_name_to_native h1) = {n. \<exists>b. map_of ?bs n = Some b \<and> is_native b}"
    "known (oh_natives h1) = {n. \<exists>b. map_of ?bs n = Some b \<and> is_native b}"
    using map_of_eq_Some_iff [OF d] by auto
  have bs: "oh_bindings h1 = ?bs" "oh_bindings h = ?bs"
    using add_natives_keeps [OF a] add_all_offered_keeps [OF o] by (simp_all add: fresh_as_def new_openhands_def)
  have fin: "one_to_one h" "oh_natives h = oh_natives h1"
    using add_all_offered_table [OF o one(1)] one(2) bs by auto
  have "map_of (oh_natives h) name \<noteq> None \<longleftrightarrow> (\<exists>b. map_of (oh_bindings h) name = Some b \<and> is_native b)" for name
    using one(3) fin(2) bs by auto
  with fin(1) keys show ?thesis by (simp add: one_to_one_def)
qed

section \<open>A small integration\<close>

definition echo_tool :: "(string, string, exchange list) native_tool" where
  "echo_tool = \<lparr>nt_name = ''say'', nt_description = ''echo'', nt_schema = VDict [],
     nt_decode = (\<lambda>v. rbind (item v ''text'') as_str), nt_same = (=), nt_call = (\<lambda>a w. (w, Inr (''said '' @ a))),
     nt_content = (\<lambda>r. [Some r]), nt_message = id, nt_executor = False, nt_interrupt = None, nt_close = (\<lambda>w. (w, Inr ()))\<rparr>"

definition echo_binding :: val where
  "echo_binding = VDict [(''name'', VStr ''echo''), (''native_agent'', VBool True),
     (''implementation'', VDict [(''id'', VStr ''k'')]), (''config'', VDict [(''data'', VDict [])])]"

definition echo_call :: val where
  "echo_call = VDict [(''tool_call_id'', VStr ''c''), (''name'', VStr ''echo''), (''arguments'', VDict [(''text'', VStr ''hi'')])]"

definition echo_reply :: val where
  "echo_reply = VDict [(''response'', VList [text_part (VStr ''ok'')]), (''tool_calls'', VList [echo_call]),
     (''finish_reason'', VStr ''tool_calls''), (''generation_id'', VStr ''g''), (''model_id'', VStr ''m''), (''output_token_count'', VInt 1)]"

definition echo_answer ::
  "string \<Rightarrow> val \<Rightarrow> (string, string, exchange list) openhands \<times> exchange list \<Rightarrow> (string, string, exchange list) openhands \<times> val res" where
  \<comment> \<open>one call is proposed in every generation; a step runs the native tool it names\<close>
  "echo_answer m v s =
     (if m \<noteq> ''step'' then (fst s, Inr echo_reply)
      else (case rbind (item v ''name'') as_str of
              Inl e \<Rightarrow> (fst s, Inl e)
            | Inr name \<Rightarrow> (case map_of (oh_natives (fst s)) name of
                   None \<Rightarrow> (fst s, Inl (KeyError name))
                 | Some nt \<Rightarrow> (case execute_native nt v s of (s', r) \<Rightarrow>
                     (fst s', rbind r (\<lambda>_. Inr (VDict [(''status'', VStr ''ok''), (''observation'', VDict [])])))))))"

definition echo_env :: "((string, string, exchange list) openhands \<times> exchange list) agent_env" where
  \<comment> \<open>a Worker whose state is the list of what it was asked\<close>
  "echo_env = \<lparr>ae_lib = rational_lib,
     ae_registry = \<lparr>core = VDict [(''$id'', VStr ''urn:core''), (''$defs'', VDict [(''ToolResult'', VBool True)])], extensions = []\<rparr>,
     ae_request = (\<lambda>m v s. case echo_answer m v s of (h, r) \<Rightarrow> ((h, snd s @ [(m, v, r)]), r))\<rparr>"

lemma echo_env_fits: "serves_natives echo_env" "observed_by echo_env id"
proof -
  have "h' = h \<or> (m = ''step'' \<and> (\<exists>name nt. item v ''name'' = Inr (VStr name) \<and> map_of (oh_natives h) name = Some nt \<and>
      executes nt v h h'))" if a: "echo_answer m v (h, w) = (h', r)" for m v h w h' r
  proof (cases "m = ''step''")
    case True
    note step = this
    show ?thesis
    proof (cases "rbind (item v ''name'') as_str")
      case (Inr name)
      then have v: "item v ''name'' = Inr (VStr name)" by (auto simp: rbind_Inr_iff elim!: as_str.elims)
      show ?thesis
      proof (cases "map_of (oh_natives h) name")
        case (Some nt)
        obtain h1 w1 r1 where "execute_native nt v (h, w) = ((h1, w1), r1)" by (metis prod_cases3 surj_pair)
        with a step Inr Some v show ?thesis by (auto simp: echo_answer_def executes_def)
      qed (use a step Inr in \<open>simp add: echo_answer_def\<close>)
    qed (use a step in \<open>simp add: echo_answer_def\<close>)
  qed (use a in \<open>simp add: echo_answer_def\<close>)
  then show "serves_natives echo_env" unfolding serves_natives_def echo_env_def by (auto split: prod.splits)
  show "observed_by echo_env id" by (simp add: observed_by_def echo_env_def split: prod.splits)
qed

definition echo_start :: "((string, string, exchange list) openhands \<times> exchange list) res" where
  "echo_start = new_integration ''1.15.0'' [''k'' \<mapsto> \<lambda>_ w. (w, Inr [echo_tool])] [echo_binding] [] []"

definition echo_ops :: "string framework_op list" where
  "echo_ops = [Complete [] [''say''], Run_Native ''echo'' ''hi'', Run_Native ''echo'' ''hi'']"

definition echo_trace :: "exchange list res" where
  "echo_trace = rbind echo_start (\<lambda>s. Inr (snd (snd (framework_run rational_lib echo_env echo_ops (new_worker_context VNone, s)))))"

lemma echo_started: "\<exists>h. echo_start = Inr (h, [])"
proof -
  have "case echo_start of Inl _ \<Rightarrow> False | Inr (h, w) \<Rightarrow> w = []" by code_simp
  then show ?thesis by (auto split: sum.splits)
qed

theorem calls_reach_worker_once_witness:
  "\<exists>tr. echo_trace = Inr tr \<and> sent_calls tr = [echo_call] \<and> mset (sent_calls tr) \<subseteq># mset (all_proposed tr)"
proof -
  obtain h where h: "echo_start = Inr (h, [])" using echo_started by blast
  obtain c1 h1 w1 where f: "framework_run rational_lib echo_env echo_ops (new_worker_context VNone, h, []) = (c1, h1, w1)"
    by (metis prod_cases3)
  have tr: "echo_trace = Inr w1" unfolding echo_trace_def h by (simp add: f)
  have "(case echo_trace of Inl _ \<Rightarrow> [] | Inr tr \<Rightarrow> sent_calls tr) = [echo_call]" by code_simp
  then have "sent_calls w1 = [echo_call]" unfolding tr by simp
  moreover have "mset (sent_calls (id w1)) \<subseteq># mset (all_proposed (id w1))"
    by (rule calls_reach_worker_once [OF h [unfolded echo_start_def] _ echo_env_fits f]) simp
  ultimately show ?thesis using tr by auto
qed

theorem native_result_is_original_witness:
  "\<exists>h c h1 w1 c2 h2 w2. echo_start = Inr (h, []) \<and>
     framework_run rational_lib echo_env [Complete [] [''say'']] (new_worker_context VNone, h, []) = (c, h1, w1) \<and>
     map_of (oh_natives h1) ''echo'' = Some echo_tool \<and>
     native_call echo_env ''echo'' echo_tool ''hi'' c (h1, w1) = (c2, (h2, w2), Inr ''said hi'') \<and>
     oh_executions h2 = Suc (oh_executions h1) \<and> oh_results h2 = []"
proof -
  obtain h where h: "echo_start = Inr (h, [])" using echo_started by blast
  obtain c h1 w1 where f: "framework_run rational_lib echo_env [Complete [] [''say'']] (new_worker_context VNone, h, []) = (c, h1, w1)"
    by (metis prod_cases3)
  obtain c2 h2 w2 r where n: "native_call echo_env ''echo'' echo_tool ''hi'' c (h1, w1) = (c2, (h2, w2), r)"
    by (metis prod_cases3 surj_pair)
  have "rbind echo_start (\<lambda>s. case framework_run rational_lib echo_env [Complete [] [''say'']] (new_worker_context VNone, s) of
      (c, s1) \<Rightarrow> snd (snd (native_call echo_env ''echo'' echo_tool ''hi'' c s1))) = Inr ''said hi''" by code_simp
  then have r: "r = Inr ''said hi''" unfolding h by (simp add: f n)
  have "oh_natives h = [(''echo'', echo_tool)]"
    using h by (auto simp: rbind_Inr_iff echo_start_def new_integration_def initialize_def new_openhands_def update_all_def
        echo_binding_def add_native_def native_factory_def config_data_def ditem_def has_key_def lookup_def echo_tool_def split: if_splits)
  moreover have "oh_natives h1 = oh_natives h"
  proof -
    obtain r1 where "completion rational_lib echo_env [] [''say''] (h, []) = ((h1, w1), r1)"
      using f by (cases "completion rational_lib echo_env [] [''say''] (h, [])") (simp add: framework_run_def)
    then show ?thesis
    proof (cases rule: completion_cases)
      case (3 wire g h1a)
      with served(4) [OF echo_env_fits(1) 3(2)] take_generation_keeps(3) [OF 3(3)] show ?thesis by simp
    qed (auto dest: served(4) [OF echo_env_fits(1)])
  qed
  ultimately have nt: "map_of (oh_natives h1) ''echo'' = Some echo_tool" by simp
  from native_result_is_original [OF h [unfolded echo_start_def] echo_env_fits(1) f nt n [unfolded r]] h f nt n r
  show ?thesis by blast
qed

definition quiet_observation :: val where
  "quiet_observation = VDict [(''terminated'', VBool False), (''episode_truncated'', VBool False), (''content'', VList [])]"

definition denying_env :: "string \<Rightarrow> ((string, string, exchange list) openhands \<times> exchange list) agent_env" where
  \<comment> \<open>a Worker that answers one generation and denies what comes after it\<close>
  "denying_env refusal = echo_env\<lparr>ae_request := (\<lambda>m v (h, tr).
     let r = (if tr = [] then Inr (VDict [(''response'', VList [text_part (VStr ''so far'')])])
              else Inl (RpcError refusal))
     in ((h, tr @ [(m, v, r)]), r))\<rparr>"

definition denied_conversation ::
  "string \<Rightarrow> (string, string, exchange list) openhands \<times> exchange list \<Rightarrow>
   ((string, string, exchange list) openhands \<times> exchange list) \<times> unit outcome" where
  \<comment> \<open>a framework that asks for two completions and wraps the failure of the second\<close>
  "denied_conversation refusal s =
     (snd (framework_run rational_lib (denying_env refusal) [Complete [] [], Complete [] []] (new_worker_context VNone, s)),
      Inl (Raised (RuntimeError ''framework'')))"

definition denied_run :: "string \<Rightarrow> val res" where
  "denied_run refusal = snd (run_conversation (\<lambda>t s. (s, Inr ())) (denied_conversation refusal) quiet_observation (new_openhands [], []))"

theorem worker_failure_decides_run_witness:
  "denied_run ''TOOL_CALL_LIMIT'' = Inr (VList [text_part (VStr ''so far'')]) \<and>
   denied_run ''NO_ROUTE'' = Inl (AgentRuntimeError (VDict [(''code'', VStr ''NO_ROUTE'')])) \<and>
   \<not> budget_error (AgentRuntimeError (VDict [(''code'', VStr ''NO_ROUTE'')]))"
proof -
  have fits: "serves_natives (denying_env refusal)" "observed_by (denying_env refusal) id" for refusal
    by (auto simp: serves_natives_def observed_by_def denying_env_def Let_def)
  have r: "denied_run ''TOOL_CALL_LIMIT'' = Inr (VList [text_part (VStr ''so far'')])"
    "denied_run ''NO_ROUTE'' = Inl (AgentRuntimeError (VDict [(''code'', VStr ''NO_ROUTE'')]))" by code_simp+
  let ?run = "run_conversation (\<lambda>t s. (s, Inr ())) (denied_conversation ''NO_ROUTE'') quiet_observation (new_openhands [], [])"
  have "\<forall>e. snd ?run = Inl e \<longrightarrow> \<not> budget_error e"
    by (rule conjunct1 [OF worker_failure_decides_run
          [OF prod.collapse [symmetric] _ fits [of "''NO_ROUTE''"], where L = rational_lib]])
       (auto simp: new_openhands_def budget_error_def denied_conversation_def prod_eq_iff)
  with r show ?thesis by (auto simp: denied_run_def)
qed

theorem tool_table_one_to_one_witness:
  "\<exists>h. echo_start = Inr (h, []) \<and> map_of (oh_natives h) ''echo'' \<noteq> None \<and>
     map_of (oh_name_to_native h) ''echo'' = Some ''say'' \<and> map_of (oh_native_to_name h) ''say'' = Some ''echo''"
proof -
  obtain h where h: "echo_start = Inr (h, [])" using echo_started by blast
  have "(case echo_start of Inl _ \<Rightarrow> (None, False) | Inr s \<Rightarrow>
      (map_of (oh_name_to_native (fst s)) ''echo'', (case map_of (oh_bindings (fst s)) ''echo'' of None \<Rightarrow> False
         | Some b \<Rightarrow> has b ''native_agent'' = Inr True))) = (Some ''say'', True)" by code_simp
  then have "map_of (oh_name_to_native h) ''echo'' = Some ''say'' \<and>
    (\<exists>b. map_of (oh_bindings h) ''echo'' = Some b \<and> has b ''native_agent'' = Inr True)"
    unfolding h by (auto split: option.splits)
  with tool_table_one_to_one [OF h [unfolded echo_start_def]] h show ?thesis by auto
qed

end
