(* ===== verification/Mcp_Server.thy ===== *)
theory Mcp_Server
  imports Tool_Correct
begin

text \<open>
  The loopback MCP service of an attempt (\<open>reference/sdk/src/uenv/sdk/interfaces/mcp_server.py\<close>): the
  redaction of its token in the logs, the two operations of the protocol, the authentication of
  HTTP requests, starting and closing. The MCP, ASGI and HTTP server libraries are not part of the
  repository: what they pass to the handlers is an argument, what the handlers return is data, and
  the checks that the library's own content classes make are fields of the setup.
\<close>

section \<open>Log records\<close>

function replace_text :: "string \<Rightarrow> string \<Rightarrow> string \<Rightarrow> string" where
  \<comment> \<open>\<open>s.replace(old, new)\<close> for a non-empty \<open>old\<close>\<close>
  "replace_text old new [] = []"
| "replace_text old new (c # s) =
     (if old \<noteq> [] \<and> prefix_of old (c # s) then new @ replace_text old new (drop (length old) (c # s))
      else c # replace_text old new s)"
  by pat_completeness auto
termination
  by (relation "measure (\<lambda>(old, new, s). length s)") auto

definition redact :: "string \<Rightarrow> string \<Rightarrow> string" where
  \<comment> \<open>\<open>RedactToken.filter\<close>: the formatted message of a record, whose arguments are emptied; the traceback
     of a record is left as it is by the filter and is not modelled\<close>
  "redact token msg = replace_text token ''[redacted]'' msg"

section \<open>The two operations\<close>

datatype mcp_content =
    Text_Content string
  | Resource_Link val string val      \<comment> \<open>uri, name, media type\<close>

record 'w mcp_setup =
  ms_lib :: lib
  ms_sids :: sids
  ms_definitions :: "(string \<times> 'w tool_definition) list"
  ms_call_tool :: "string \<Rightarrow> val \<Rightarrow> 'w \<Rightarrow> 'w \<times> val res"
  ms_check_content :: "mcp_content \<Rightarrow> unit res"         \<comment> \<open>the constructors' own validation\<close>

record mcp_server =
  mc_token :: string
  mc_url :: string
  mc_calls :: nat
  mc_redacting :: bool
  mc_socket_open :: bool
  mc_should_exit :: bool

definition list_tools :: "'w mcp_setup \<Rightarrow> (string \<times> string \<times> val) list" where
  "list_tools S = map (\<lambda>(name, value). (name, td_description value, td_input_schema value)) (ms_definitions S)"

definition content_item :: "lib \<Rightarrow> val \<Rightarrow> mcp_content res" where
  "content_item L part =
     rbind (item part ''kind'') (\<lambda>kind.
       if py_eq kind (VStr ''text'') then
         rbind (item part ''text'') (\<lambda>t. rbind (as_str t) (\<lambda>s. Inr (Text_Content s)))
       else if py_eq kind (VStr ''structured'') then
         rbind (item part ''structured'') (\<lambda>x. rbind (item x ''data'') (\<lambda>data.
         rbind (dumps L plain_opts data) (\<lambda>s. Inr (Text_Content s))))
       else if py_eq kind (VStr ''artifact'') then
         rbind (item part ''artifact'') (\<lambda>artifact.
         rbind (item artifact ''uri'') (\<lambda>uri. rbind (as_str uri) (\<lambda>u.
         rbind (item artifact ''media_type'') (\<lambda>media. Inr (Resource_Link uri (rsplit_last ''/'' u) media)))))
       else Inl (ValueError ''MCP_CONTENT_KIND_NOT_SUPPORTED''))"

definition public_view :: "'w mcp_setup \<Rightarrow> val \<Rightarrow> mcp_content list res" where
  "public_view S obs =
     rbind (item obs ''content'') (\<lambda>c. rbind (as_list c) (\<lambda>parts.
       rmap (\<lambda>part. rbind (content_item (ms_lib S) part) (\<lambda>x. rbind (ms_check_content S x) (\<lambda>_. Inr x))) parts))"

definition invoke ::
  "'w mcp_setup \<Rightarrow> string \<Rightarrow> val \<Rightarrow> mcp_server \<Rightarrow> 'w \<Rightarrow> mcp_server \<times> 'w \<times> (mcp_content list \<times> val) res" where
  \<comment> \<open>the content that the model sees and the whole observation as structured content\<close>
  "invoke S name arguments h w =
     (if map_of (ms_definitions S) name = None then (h, w, Inl (ValueError ''TOOL_NOT_SELECTED''))
      else (case ms_call_tool S name arguments w of
              (w', r) \<Rightarrow>
                (h\<lparr>mc_calls := Suc (mc_calls h)\<rparr>, w',
                 rbind r (\<lambda>v. rbind (to_wire (ms_sids S) v) (\<lambda>obs.
                 rbind (public_view S obs) (\<lambda>content. Inr (content, obs)))))))"

section \<open>Authentication\<close>

fun utf8_tail :: "nat \<Rightarrow> nat list \<Rightarrow> nat list option" where
  \<comment> \<open>the given number of continuation bytes\<close>
  "utf8_tail 0 bs = Some bs"
| "utf8_tail (Suc n) [] = None"
| "utf8_tail (Suc n) (b # bs) = (if 128 \<le> b \<and> b < 192 then utf8_tail n bs else None)"

definition utf8_lead :: "nat \<Rightarrow> nat \<Rightarrow> nat option" where
  \<comment> \<open>the number of continuation bytes after this byte, whose first one is the second argument\<close>
  "utf8_lead b b' =
     (if b < 128 then Some 0
      else if 194 \<le> b \<and> b < 224 then Some 1
      else if (b = 224 \<and> 160 \<le> b') \<or> (225 \<le> b \<and> b < 240 \<and> (b = 237 \<longrightarrow> b' < 160)) then Some 2
      else if (b = 240 \<and> 144 \<le> b') \<or> (241 \<le> b \<and> b < 244) \<or> (b = 244 \<and> b' < 144) then Some 3
      else None)"

lemma utf8_tail_length: "utf8_tail n bs = Some r \<Longrightarrow> length r \<le> length bs"
  by (induction n bs rule: utf8_tail.induct) (auto split: if_splits)

function utf8_ok :: "nat list \<Rightarrow> bool" where
  \<comment> \<open>\<open>bytes.decode()\<close> does not raise\<close>
  "utf8_ok [] = True"
| "utf8_ok (b # bs) =
     (case utf8_lead b (if bs = [] then 0 else hd bs) of
        None \<Rightarrow> False
      | Some n \<Rightarrow> (case utf8_tail n bs of None \<Rightarrow> False | Some r \<Rightarrow> utf8_ok r))"
  by pat_completeness auto
termination
  by (relation "measure length") (auto dest: utf8_tail_length simp: less_Suc_eq_le)

record http_scope =
  hs_type :: string
  hs_headers :: "(nat list \<times> nat list) list"

datatype http_reply = Unauthorized | Passed_On

definition ascii :: "string \<Rightarrow> nat list" where
  \<comment> \<open>a bytes literal\<close>
  "ascii s = map code s"

definition authorization :: "http_scope \<Rightarrow> nat list" where
  \<comment> \<open>\<open>dict(scope["headers"]).get(b"authorization", b"")\<close>: the last header of that name\<close>
  "authorization scope = (case map_of (rev (hs_headers scope)) (ascii ''authorization'') of None \<Rightarrow> [] | Some v \<Rightarrow> v)"

definition same_text :: "nat list \<Rightarrow> string \<Rightarrow> bool res" where
  \<comment> \<open>\<open>compare_digest(bs.decode(), s)\<close>, which takes ASCII text only\<close>
  "same_text bs s =
     rbind (guard (utf8_ok bs) (ValueError ''UnicodeDecodeError'')) (\<lambda>_.
     rbind (guard ((\<forall>b \<in> set bs. b < 128) \<and> (\<forall>c \<in> set s. code c < 128))
              (TypeError ''comparing strings with non-ASCII characters is not supported'')) (\<lambda>_.
       Inr (bs = ascii s)))"

definition authenticated :: "string \<Rightarrow> http_scope \<Rightarrow> http_reply res" where
  "authenticated token scope =
     (if hs_type scope = ''http''
      then rbind (same_text (authorization scope) (''Bearer '' @ token)) (\<lambda>same.
             Inr (if same then Passed_On else Unauthorized))
      else Inr Passed_On)"

definition client_headers :: "mcp_server \<Rightarrow> (string \<times> string) list" where
  "client_headers h = [(''Authorization'', ''Bearer '' @ mc_token h)]"

definition client_config :: "mcp_server \<Rightarrow> val" where
  "client_config h = VDict [(''mcpServers'', VDict [(''uenv'', VDict [(''url'', VStr (mc_url h)),
     (''headers'', VDict (map (\<lambda>(k, v). (k, VStr v)) (client_headers h)))])])]"

section \<open>Starting and closing\<close>

definition new_mcp_server :: "string \<Rightarrow> nat \<Rightarrow> mcp_server" where
  \<comment> \<open>the fields set before the thread is started; the port is the socket's\<close>
  "new_mcp_server token port = \<lparr>mc_token = token, mc_url = ''http://127.0.0.1:'' @ show_nat port @ ''/mcp/'',
     mc_calls = 0, mc_redacting = True, mc_socket_open = True, mc_should_exit = False\<rparr>"

definition close_mcp_server :: "bool \<Rightarrow> mcp_server \<Rightarrow> mcp_server \<times> unit res" where
  \<comment> \<open>the flag tells whether the thread is alive after five seconds\<close>
  "close_mcp_server alive h =
     (let h1 = h\<lparr>mc_should_exit := True, mc_socket_open := False\<rparr>
      in if alive then (h1, Inl (RuntimeError ''MCP_CLOSE_TIMEOUT'')) else (h1\<lparr>mc_redacting := False\<rparr>, Inr ()))"

record startup_look =
  sl_started :: bool
  sl_alive :: bool
  sl_now :: dbl

fun await_started :: "nat \<Rightarrow> (nat \<Rightarrow> startup_look) \<Rightarrow> dbl \<Rightarrow> bool \<Rightarrow> nat \<Rightarrow> mcp_server \<Rightarrow> (mcp_server \<times> unit res) option" where
  \<comment> \<open>one look per turn of the loop; the flag is the thread's state when it is closed\<close>
  "await_started 0 look deadline alive_after i h = None"
| "await_started (Suc n) look deadline alive_after i h =
     (if sl_started (look i) then Some (h, Inr ())
      else if \<not> sl_alive (look i) \<or> dbl_le deadline (sl_now (look i))
      then (case close_mcp_server alive_after h of
              (h', Inl e) \<Rightarrow> Some (h', Inl e)
            | (h', Inr _) \<Rightarrow> Some (h', Inl (RuntimeError ''MCP_START_FAILED'')))
      else await_started n look deadline alive_after (Suc i) h)"

section \<open>The token does not reach the logs\<close>

lemma replaced_prefix:
  "u = prefix_free \<Longrightarrow> prefix_of u (replace_text token new s) \<Longrightarrow> new = n # ns \<Longrightarrow> n \<notin> set u \<Longrightarrow> prefix_of u s"
proof (induction token new s arbitrary: u prefix_free rule: replace_text.induct)
  case (2 old new c s)
  show ?case
  proof (cases u)
    case (Cons a v)
    with 2 show ?thesis by (auto split: if_splits)
  qed simp
qed simp

text \<open>An occurrence in a concatenation with a bracketed word either avoids the word or lies within it.\<close>

lemma occurrence_after_word:
  assumes "z @ y = u @ token @ t" "set token \<inter> {CHR ''['', CHR '']''} = {}" "length token > length m"
    "z = CHR ''['' # m @ [CHR '']'']"
  shows "\<exists>u'. y = u' @ token @ t"
proof -
  have "length z \<le> length u"
  proof (rule ccontr)
    assume short: "\<not> length z \<le> length u"
    from assms(1) obtain r where "z = u @ r \<and> r @ y = token @ t \<or> z @ r = u \<and> y = r @ token @ t"
      unfolding append_eq_append_conv2 by blast
    with short have r: "z = u @ r" "r @ y = token @ t" "r \<noteq> []" by auto
    have "token \<noteq> []" using assms(3) by auto
    show False
    proof (cases u)
      case Nil
      with r assms(4) \<open>token \<noteq> []\<close> have "hd token = CHR ''[''" by (cases token) auto
      with assms(2) \<open>token \<noteq> []\<close> show False by (cases token) auto
    next
      case (Cons a v)
      with r(1) assms(4) have m: "m @ [CHR '']''] = v @ r" by simp
      then have last: "last r = CHR '']''" using r(3) by (metis last_appendR last_snoc)
      have "length r \<le> length m + 1" using arg_cong [OF m, of length] by simp
      show False
      proof (cases "length r \<le> length token")
        case True
        then obtain q where "token = r @ q" using r(2) by (auto simp: append_eq_append_conv2)
        then show False using last r(3) assms(2) by (metis IntI empty_iff insertI1 insertI2 last_in_set set_append UnCI)
      next
        case False
        then have "length token < length r" by simp
        with \<open>length r \<le> length m + 1\<close> assms(3) show False by simp
      qed
    qed
  qed
  then show ?thesis using assms(1) by (auto simp: append_eq_append_conv2)
qed

lemma contains_Cons: "contains p (c # s) \<longleftrightarrow> prefix_of p (c # s) \<or> contains p s"
  by (auto simp: contains_iff prefix_of_iff Cons_eq_append_conv)

lemma replaced_absent:
  assumes "set token \<inter> {CHR ''['', CHR '']''} = {}" "length token > length m" "new = CHR ''['' # m @ [CHR '']'']"
  shows "\<not> contains token (replace_text token new s)"
proof (induction s rule: measure_induct_rule [where f = length])
  case (less s)
  have ne: "token \<noteq> []" and open_free: "CHR ''['' \<notin> set token" using assms(1,2) by auto
  show ?case
  proof (cases s)
    case Nil
    with ne show ?thesis by (simp add: contains_iff)
  next
    case (Cons c s')
    show ?thesis
    proof (cases "prefix_of token (c # s')")
      case True
      let ?rest = "replace_text token new (drop (length token) (c # s'))"
      have "\<not> contains token ?rest" by (rule less) (use Cons ne in \<open>cases token; simp\<close>)
      then have "\<not> contains token (new @ ?rest)"
        using occurrence_after_word [OF _ assms(1,2,3), of ?rest] unfolding contains_iff by blast
      with True Cons ne show ?thesis by simp
    next
      case False
      have "\<not> contains token (replace_text token new s')" by (rule less) (use Cons in simp)
      moreover have "\<not> prefix_of token (replace_text token new s)"
        using False Cons replaced_prefix [OF refl _ assms(3) open_free] by blast
      ultimately show ?thesis using False Cons by (simp add: contains_Cons)
    qed
  qed
qed

text \<open>C37: The message of no log record that passes the filter shows the token, wherever and however often
  it stood in it: a token as the standard library makes them has no bracket and more than eight
  characters. (The filter does not touch the traceback of a record.)\<close>
theorem redacted_log_has_no_token:
  assumes "set token \<inter> {CHR ''['', CHR '']''} = {}" "length token > 8"
  shows "\<not> contains token (redact token msg)"
  unfolding redact_def by (rule replaced_absent [where m = "''redacted''"]) (use assms in simp_all)

definition sample_token :: string where
  "sample_token = ''abcdefabc''"

theorem redacted_log_has_no_token_witness:
  "redact sample_token ''GET abcdefabcdefabc'' = ''GET [redacted]defabc'' \<and>
   \<not> contains sample_token (redact sample_token ''GET abcdefabcdefabc'')"
proof -
  have "redact sample_token ''GET abcdefabcdefabc'' = ''GET [redacted]defabc''" by code_simp
  moreover have "\<not> contains sample_token (redact sample_token ''GET abcdefabcdefabc'')"
    by (rule redacted_log_has_no_token) (simp_all add: sample_token_def)
  ultimately show ?thesis by simp
qed

section \<open>Only the holder of the token gets through\<close>

lemma ascii_inject: "ascii s = ascii t \<longleftrightarrow> s = t"
  unfolding ascii_def by (rule inj_map_eq_map) (metis injI of_char_eq_iff)

lemma ascii_decodes: "\<forall>b \<in> set bs. b < 128 \<Longrightarrow> utf8_ok bs"
proof (induction bs)
  case (Cons b bs)
  then have "utf8_lead b b' = Some 0" for b' by (simp add: utf8_lead_def)
  with Cons show ?case by simp
qed simp

definition is_ascii :: "string \<Rightarrow> bool" where
  "is_ascii s \<longleftrightarrow> (\<forall>c \<in> set s. code c < 128)"

lemma authenticated_http:
  assumes "is_ascii token" "hs_type scope = ''http''"
  shows "authenticated token scope = Inr Passed_On \<longleftrightarrow> authorization scope = ascii (''Bearer '' @ token)"
proof
  assume "authenticated token scope = Inr Passed_On"
  with assms(2) show "authorization scope = ascii (''Bearer '' @ token)"
    by (auto simp: authenticated_def same_text_def rbind_Inr_iff split: if_splits)
next
  assume a: "authorization scope = ascii (''Bearer '' @ token)"
  then have "\<forall>b \<in> set (authorization scope). b < 128" using assms(1) by (auto simp: ascii_def is_ascii_def)
  with a assms show "authenticated token scope = Inr Passed_On"
    using ascii_decodes [of "authorization scope"] by (simp add: authenticated_def same_text_def guard_def is_ascii_def)
qed

text \<open>The service passes an HTTP request on exactly when the last of its authorization headers carries the
  attempt's token, and so every request with the headers that the client configuration gives,
  whatever other headers stand before.\<close>
theorem token_opens_the_service:
  assumes "is_ascii (mc_token h)" "hs_type scope = ''http''"
  shows "(authenticated (mc_token h) scope = Inr Passed_On \<longleftrightarrow>
      map_of (rev (hs_headers scope)) (ascii ''authorization'') = Some (ascii (''Bearer '' @ mc_token h))) \<and>
    authenticated (mc_token h) (scope\<lparr>hs_headers := hs_headers scope @
      map (\<lambda>(k, v). (ascii (lower k), ascii v)) (client_headers h)\<rparr>) = Inr Passed_On"
proof -
  have "ascii (''Bearer '' @ mc_token h) \<noteq> []" by (simp add: ascii_def)
  then have "authorization scope = ascii (''Bearer '' @ mc_token h) \<longleftrightarrow>
      map_of (rev (hs_headers scope)) (ascii ''authorization'') = Some (ascii (''Bearer '' @ mc_token h))" for scope
    by (auto simp: authorization_def split: option.splits)
  moreover have "lower ''Authorization'' = ''authorization''" by code_simp
  ultimately show ?thesis
    using authenticated_http [OF assms(1)] assms(2) by (simp add: client_headers_def)
qed

definition sample_server :: mcp_server where
  "sample_server = new_mcp_server sample_token 80"

theorem token_opens_the_service_witness:
  "is_ascii (mc_token sample_server) \<and>
   authenticated (mc_token sample_server) \<lparr>hs_type = ''http'', hs_headers = [(ascii ''authorization'', ascii ''Bearer x'')]\<rparr> = Inr Unauthorized \<and>
   authenticated (mc_token sample_server) \<lparr>hs_type = ''http'', hs_headers = [(ascii ''authorization'', ascii ''Bearer x''),
     (ascii ''authorization'', ascii ''Bearer abcdefabc'')]\<rparr> = Inr Passed_On"
proof -
  have a: "is_ascii (mc_token sample_server)" by code_simp
  have "authenticated (mc_token sample_server) (\<lparr>hs_type = ''http'', hs_headers = [(ascii ''authorization'', ascii ''Bearer x'')]\<rparr>
      \<lparr>hs_headers := [(ascii ''authorization'', ascii ''Bearer x'')] @
        map (\<lambda>(k, v). (ascii (lower k), ascii v)) (client_headers sample_server)\<rparr>) = Inr Passed_On"
    using token_opens_the_service [OF a, of "\<lparr>hs_type = ''http'', hs_headers = [(ascii ''authorization'', ascii ''Bearer x'')]\<rparr>"] by simp
  moreover have "map (\<lambda>(k, v). (ascii (lower k), ascii v)) (client_headers sample_server) =
      [(ascii ''authorization'', ascii ''Bearer abcdefabc'')]" by code_simp
  moreover have "authenticated (mc_token sample_server)
      \<lparr>hs_type = ''http'', hs_headers = [(ascii ''authorization'', ascii ''Bearer x'')]\<rparr> = Inr Unauthorized" by code_simp
  ultimately show ?thesis using a by simp
qed

section \<open>A call and the start\<close>

lemma content_item_text:
  "content_item L part = Inr x \<Longrightarrow> item part ''kind'' = Inr (VStr ''text'') \<Longrightarrow> item part ''text'' = Inr (VStr s) \<Longrightarrow> x = Text_Content s"
  by (simp add: content_item_def)

text \<open>A successful call ran the tool once with what it was given, shows one content item for every part
  of the observation in order, and hands on the observation itself.\<close>
theorem invoke_passes_through:
  assumes "invoke S name arguments h w = (h', w', Inr (content, obs))"
  shows "name \<in> fst ` set (list_tools S) \<and> mc_calls h' = Suc (mc_calls h) \<and>
    (\<exists>v parts. ms_call_tool S name arguments w = (w', Inr v) \<and> to_wire (ms_sids S) v = Inr obs \<and>
       rbind (item obs ''content'') as_list = Inr parts \<and>
       list_all2 (\<lambda>part x. content_item (ms_lib S) part = Inr x) parts content)"
proof -
  have name: "map_of (ms_definitions S) name \<noteq> None" using assms by (auto simp: invoke_def split: if_splits)
  then have "name \<in> fst ` set (list_tools S)"
    by (auto simp: list_tools_def dest!: map_of_SomeD intro!: rev_image_eqI)
  with assms name show ?thesis
    by (auto simp: invoke_def public_view_def rbind_Inr_iff rmap_Inr_iff elim!: list_all2_mono split: prod.splits)
qed

text \<open>Starting ends once the deadline is seen to have passed, and only a started server is kept.\<close>
lemma await_started_returns:
  "\<exists>k < n. dbl_le deadline (sl_now (look (i + k))) \<Longrightarrow> await_started n look deadline alive i h \<noteq> None"
proof (induction n arbitrary: i)
  case (Suc n)
  show ?case
  proof (cases "dbl_le deadline (sl_now (look i))")
    case False
    from Suc.prems obtain k where k: "k < Suc n" "dbl_le deadline (sl_now (look (i + k)))" by blast
    with False obtain k' where "k = Suc k'" by (cases k) auto
    with k have "\<exists>k < n. dbl_le deadline (sl_now (look (Suc i + k)))" by auto
    with Suc.IH [of "Suc i"] show ?thesis by (auto split: prod.splits sum.splits)
  qed (auto split: prod.splits sum.splits)
qed simp

lemma await_started_ok:
  "await_started n look deadline alive i h = Some (h', Inr ()) \<Longrightarrow> h' = h \<and> (\<exists>k. sl_started (look k))"
  by (induction n look deadline alive i h rule: await_started.induct) (auto split: if_splits prod.splits sum.splits)

end
