(* ===== verification/Mcp_Calls.thy ===== *)
theory Mcp_Calls
  imports OpenHands_Correct Mcp_Server
begin

text \<open>
  The agent process with a framework: its MCP server delegates every call to the integration, which
  claims it among the calls of the last generation and asks the Worker
  (\<open>reference/sdk/src/uenv/sdk/component_host.py\<close>, \<open>prepare_agent\<close>). What the server answers is the
  observation of the Worker's result for the call that the model generated.
\<close>

definition observation_object :: "agent_obs \<Rightarrow> val" where
  \<comment> \<open>the dataclass instance the integration returns\<close>
  "observation_object ob = VObj ''Observation''
     [(''content'', ob_content ob), (''terminated'', ob_terminated ob), (''episode_truncated'', ob_episode_truncated ob)]"

definition integration_tools ::
  "(('a, 'r, 'w) openhands \<times> 'w) agent_env \<Rightarrow> sids \<Rightarrow>
   (string \<times> (worker_context \<times> ('a, 'r, 'w) openhands \<times> 'w) tool_definition) list \<Rightarrow> (mcp_content \<Rightarrow> unit res) \<Rightarrow>
   (worker_context \<times> ('a, 'r, 'w) openhands \<times> 'w) mcp_setup" where
  "integration_tools A sids selected_python check =
     \<lparr>ms_lib = ae_lib A, ms_sids = sids, ms_definitions = selected_python,
      ms_call_tool = (\<lambda>name args (c, s).
        case call_mcp_tool A name args c s of (c', s', r) \<Rightarrow> ((c', s'), rbind r (\<lambda>ob. Inr (observation_object ob)))),
      ms_check_content = check\<rparr>"

section \<open>One call through the server\<close>

lemma make_observation_content: "make_observation v = Inr ob \<Longrightarrow> json_val v \<Longrightarrow> json_val (ob_content ob)"
  by (cases v) (auto simp: make_observation_def get_or_def split: if_splits option.splits dest!: map_of_SomeD)

lemma item_json: "item v k = Inr x \<Longrightarrow> json_val v \<Longrightarrow> json_val x"
  by (cases v) (auto simp: ditem_def split: option.splits dest!: map_of_SomeD)

lemma observed_content:
  assumes "to_wire sids (observation_object ob) = Inr obs" "json_val (ob_content ob)" "item obs ''content'' = Inr v"
  shows "v = ob_content ob"
proof (cases "ob_content ob = VNone")
  case False
  with assms(1) obtain rest where "obs = VDict ((''content'', ob_content ob) # rest)"
    by (auto simp: observation_object_def rbind_Inr_iff to_wire_json [OF assms(2)])
  with assms(3) show ?thesis by (simp add: ditem_def)
next
  case True
  with assms(1) obtain rest where "obs = VDict rest" "''content'' \<notin> fst ` set rest"
    by (auto simp: observation_object_def rbind_Inr_iff kept_none_def split: if_splits)
  with assms(3) have False by (force simp: ditem_def dest!: map_of_SomeD split: option.splits)
  then show ?thesis ..
qed

lemma claim_key_arguments:
  "claim_key natives name (Arguments a) d = Inr (Some (k, call)) \<Longrightarrow>
   (k, call) \<in> set d \<and> item call ''name'' = Inr (VStr name) \<and> (\<exists>b. item call ''arguments'' = Inr b \<and> py_eq b a)"
  by (induction d) (auto simp: rbind_Inr_iff split: if_splits)

lemma call_mcp_tool_answer:
  assumes "call_mcp_tool A name arguments c (h, w) = (c', (h', w'), Inr ob)" "serves_natives A"
  obtains key call arg w1 result where
    "(key, call) \<in> set (oh_pending h)" "item call ''name'' = Inr (VStr name)"
    "item call ''arguments'' = Inr arg" "py_eq arg arguments"
    "oh_pending h' = AList.delete key (oh_pending h)"
    "ae_request A ''step'' call (h\<lparr>oh_pending := AList.delete key (oh_pending h)\<rparr>, w) = (w1, Inr result)"
    "validate (ae_lib A) (ae_registry A) ''ToolResult'' result = Inr ()"
    "observation_from_result result = Inr ob"
proof -
  from assms(1) obtain key call where k: "claim_key (oh_natives h) name (Arguments arguments) (oh_pending h) = Inr (Some (key, call))"
    and s: "agent_step A call c (h\<lparr>oh_pending := AList.delete key (oh_pending h)\<rparr>, w) = (c', (h', w'), Inr ob)"
    by (auto simp: call_mcp_tool_def claim_def split: sum.splits option.splits)
  let ?h = "h\<lparr>oh_pending := AList.delete key (oh_pending h)\<rparr>"
  from s obtain h1 where t: "call_tool A call c (?h, w) = (c', (h1, w'), Inr ob)" and h': "oh_pending h' = oh_pending h1"
    by (auto simp: agent_step_def split: prod.splits sum.splits if_splits)
  from t obtain result where r: "ae_request A ''step'' call (?h, w) = ((h1, w'), Inr result)"
    and v: "validate (ae_lib A) (ae_registry A) ''ToolResult'' result = Inr ()" and o: "observation_from_result result = Inr ob"
    by (auto simp: call_tool_def worker_request_def rbind_Inr_iff rbind_Inl_iff split: prod.splits sum.splits)
  from served(1) [OF assms(2) r] h' have "oh_pending h' = AList.delete key (oh_pending h)" by simp
  with claim_key_arguments [OF k] r v o that show thesis by blast
qed

text \<open>C25: A call that the MCP server answers was a call of the last generation, under the tool's name and
  with equal arguments, and is no longer to be made; the Worker was asked to execute that very
  call, its answer is a valid tool result, and the model is shown one item for every part of the
  observation in it, in order.\<close>
theorem mcp_answer_is_worker_observation:
  assumes "invoke (integration_tools A sids selected_python check) name arguments m (c, h, w) =
      (m', (c', h', w'), Inr (content, obs))"
    "serves_natives A" "\<forall>mthd v s s' x. ae_request A mthd v s = (s', Inr x) \<longrightarrow> json_val x"
  shows "map_of selected_python name \<noteq> None \<and>
    (\<exists>key call arg s1 result ob parts.
      (key, call) \<in> set (oh_pending h) \<and> item call ''name'' = Inr (VStr name) \<and>
      item call ''arguments'' = Inr arg \<and> py_eq arg arguments \<and>
      oh_pending h' = AList.delete key (oh_pending h) \<and>
      ae_request A ''step'' call (h\<lparr>oh_pending := AList.delete key (oh_pending h)\<rparr>, w) = (s1, Inr result) \<and>
      validate (ae_lib A) (ae_registry A) ''ToolResult'' result = Inr () \<and>
      observation_from_result result = Inr ob \<and> as_list (ob_content ob) = Inr parts \<and>
      list_all2 (\<lambda>part x. content_item (ae_lib A) part = Inr x) parts content)"
proof -
  let ?S = "integration_tools A sids selected_python check"
  from assms(1) obtain r where call: "call_mcp_tool A name arguments c (h, w) = (c', (h', w'), r)"
    and r: "rbind (rbind r (\<lambda>ob. Inr (observation_object ob))) (\<lambda>v. rbind (to_wire sids v) (\<lambda>obs.
       rbind (public_view ?S obs) (\<lambda>content. Inr (content, obs)))) = Inr (content, obs)"
    and n: "map_of selected_python name \<noteq> None"
    by (auto simp: invoke_def integration_tools_def split: prod.splits if_splits)
  from r obtain ob where ob: "r = Inr ob" "to_wire sids (observation_object ob) = Inr obs" "public_view ?S obs = Inr content"
    by (auto simp: rbind_Inr_iff)
  from ob(3) obtain v parts where v: "item obs ''content'' = Inr v" "as_list v = Inr parts"
    and both: "list_all2 (\<lambda>part x. content_item (ae_lib A) part = Inr x \<and> check x = Inr ()) parts content"
    by (auto simp: public_view_def rbind_Inr_iff rmap_Inr_iff integration_tools_def)
  from both have view: "list_all2 (\<lambda>part x. content_item (ae_lib A) part = Inr x) parts content"
    by (rule list_all2_mono) simp
  from call_mcp_tool_answer [OF call [unfolded ob(1)] assms(2)]
  obtain key call arg s1 result where claimed: "(key, call) \<in> set (oh_pending h)" "item call ''name'' = Inr (VStr name)"
    "item call ''arguments'' = Inr arg" "py_eq arg arguments" "oh_pending h' = AList.delete key (oh_pending h)"
    and req: "ae_request A ''step'' call (h\<lparr>oh_pending := AList.delete key (oh_pending h)\<rparr>, w) = (s1, Inr result)"
    and val: "validate (ae_lib A) (ae_registry A) ''ToolResult'' result = Inr ()" "observation_from_result result = Inr ob"
    by metis
  from val(2) obtain o' where "item result ''observation'' = Inr o'" "make_observation o' = Inr ob"
    by (auto simp: observation_from_result_def rbind_Inr_iff split: if_splits)
  moreover have "json_val result" using assms(3) req by blast
  ultimately have "json_val (ob_content ob)" using item_json make_observation_content by blast
  from observed_content [OF ob(2) this v(1)] v(2) have "as_list (ob_content ob) = Inr parts" by simp
  with n claimed req val view show ?thesis by blast
qed

section \<open>An instance\<close>

definition view_env :: "((unit, unit, unit) openhands \<times> unit) agent_env" where
  "view_env = \<lparr>ae_lib = rational_lib, ae_registry = ae_registry echo_env,
     ae_request = (\<lambda>m v s. (s, Inr (VDict [(''status'', VStr ''ok''),
       (''observation'', VDict [(''content'', VList [text_part (VStr ''two''), text_part (VStr ''parts'')])])])))\<rparr>"

definition view_tool :: "(worker_context \<times> (unit, unit, unit) openhands \<times> unit) tool_definition" where
  "view_tool = \<lparr>td_description = ''look'', td_input_schema = VBool True, td_execute = (\<lambda>v t s. (s, Inr v)), td_entrypoint = None,
     td_execution_scope = ''sandbox'', td_required_capabilities = [], td_side_effect = ''read_only'', td_shutdown = None\<rparr>"

definition view_setup :: "(worker_context \<times> (unit, unit, unit) openhands \<times> unit) mcp_setup" where
  "view_setup = integration_tools view_env [] [(''echo'', view_tool)] (\<lambda>_. Inr ())"

definition view_state :: "(unit, unit, unit) openhands" where
  "view_state = (new_openhands [])\<lparr>oh_pending := [(''c'', echo_call)]\<rparr>"

theorem mcp_answer_is_worker_observation_witness:
  "\<exists>m' c' h' obs. invoke view_setup ''echo'' (VDict [(''text'', VStr ''hi'')]) sample_server (new_worker_context VNone, view_state, ()) =
       (m', (c', h', ()), Inr ([Text_Content ''two'', Text_Content ''parts''], obs)) \<and> oh_pending h' = []"
proof -
  obtain m' s' r where i': "invoke view_setup ''echo'' (VDict [(''text'', VStr ''hi'')]) sample_server
      (new_worker_context VNone, view_state, ()) = (m', s', r)" by (metis prod_cases3)
  obtain c' h' where "s' = (c', h', ())" by (cases s') auto
  with i' have i: "invoke view_setup ''echo'' (VDict [(''text'', VStr ''hi'')]) sample_server
      (new_worker_context VNone, view_state, ()) = (m', (c', h', ()), r)" by simp
  have "(case invoke view_setup ''echo'' (VDict [(''text'', VStr ''hi'')]) sample_server (new_worker_context VNone, view_state, ()) of
      (_, _, Inl _) \<Rightarrow> [] | (_, _, Inr (content, _)) \<Rightarrow> content) = [Text_Content ''two'', Text_Content ''parts'']" by code_simp
  with i obtain obs where r: "r = Inr ([Text_Content ''two'', Text_Content ''parts''], obs)"
    by (cases r) auto
  have s: "serves_natives view_env" by (auto simp: serves_natives_def view_env_def)
  have j: "\<forall>mthd v s s' x. ae_request view_env mthd v s = (s', Inr x) \<longrightarrow> json_val x"
    by (auto simp: view_env_def text_part_def)
  from mcp_answer_is_worker_observation [OF i [unfolded r view_setup_def] s j] have "oh_pending h' = []"
    by (auto simp: view_state_def)
  with i r show ?thesis by blast
qed

end
