(* ===== verification/Framework_Worker.thy ===== *)
theory Framework_Worker
  imports OpenHands_Correct Worker_Correct
begin

text \<open>
  The agent framework on the Worker of this development: the requests of the OpenHands integration
  are served by the runtime, whose tool port comes back to the integration for native tools. Here
  the assumptions of \<open>OpenHands_Correct\<close> about a Worker become facts about the runtime and its ports.
\<close>

section \<open>The Worker behind the integration\<close>

type_synonym ('a, 'r, 'v) integration = "('a, 'r, runtime \<times> 'v \<times> exchange list) openhands"

definition framework_worker ::
  "lib \<Rightarrow> registry \<Rightarrow> (('a, 'r, 'v) integration \<times> 'v) ports \<Rightarrow> (('a, 'r, 'v) integration \<times> runtime \<times> 'v \<times> exchange list) agent_env" where
  \<comment> \<open>the integration is part of the world of the Worker's ports; the requests and replies are written down\<close>
  "framework_worker L reg P = \<lparr>ae_lib = L, ae_registry = reg,
     ae_request = (\<lambda>m v (h, R, w, tr). case serve_agent P m v (R, h, w) of ((R', h', w'), r) \<Rightarrow> ((h', R', w', tr @ [(m, v, r)]), r))\<rparr>"

definition runs_native ::
  "val \<Rightarrow> ('a, 'r, 'v) integration \<Rightarrow> ('a, 'r, 'v) integration \<Rightarrow> bool" where
  \<comment> \<open>nothing, or the native tool that the call names\<close>
  "runs_native call h h' \<longleftrightarrow> h' = h \<or>
     (\<exists>name nt. item call ''name'' = Inr (VStr name) \<and> map_of (oh_natives h) name = Some nt \<and> executes nt call h h')"

definition native_ports :: "(('a, 'r, 'v) integration \<times> 'v) ports \<Rightarrow> bool" where
  "native_ports P \<longleftrightarrow>
     (\<forall>x. keeps fst (wp_reserve P x)) \<and> (\<forall>x. keeps fst (wp_append P x)) \<and> (\<forall>x. keeps fst (wp_usage P x)) \<and>
     (\<forall>x. keeps fst (wp_model P x)) \<and> (\<forall>b c. keeps fst (wp_check_call P b c)) \<and>
     (\<forall>b c s. runs_native c (fst s) (fst (fst (wp_call_tool P b c s))))"

lemma native_ports_kept: "native_ports P \<Longrightarrow> kept_ports P fst"
  by (unfold_locales) (simp_all add: native_ports_def)

section \<open>A request moves the integration by at most its tool\<close>

definition apart :: "runtime \<times> 'h \<times> 'v \<Rightarrow> runtime \<times> 'h \<times> 'v \<Rightarrow> bool" where
  "apart s t \<longleftrightarrow> fst (snd t) = fst (snd s)"

interpretation outside: move_relation apart
  by unfold_locales (auto simp: apart_def)

definition native_move :: "val \<Rightarrow> runtime \<times> ('a, 'r, 'v) integration \<times> 'v \<Rightarrow> runtime \<times> ('a, 'r, 'v) integration \<times> 'v \<Rightarrow> bool" where
  "native_move call s t \<longleftrightarrow> runs_native call (fst (snd s)) (fst (snd t))"

lemma quiet_apart: "moves F (quiet fst) m \<Longrightarrow> moves F apart m"
  by (erule moves_weaken) (auto simp: quiet_def apart_def)

lemma apart_native: "moves F apart m \<Longrightarrow> moves F (native_move call) m"
  by (erule moves_weaken) (auto simp: apart_def native_move_def runs_native_def)

lemma moves_at: "moves (\<lambda>_. True) L m \<Longrightarrow> L s (fst (m s))"
  unfolding moves_def by blast

lemma apart_bnd:
  assumes "moves (\<lambda>_. True) apart m" "\<And>x. moves (\<lambda>_. True) (native_move call) (f x)"
  shows "moves (\<lambda>_. True) (native_move call) (bnd m f)"
  unfolding moves_def
proof (intro allI impI)
  fix s
  obtain t r where m: "m s = (t, r)" by fastforce
  with assms(1) have t: "apart s t" by (auto dest: movesD)
  show "native_move call s (fst (bnd m f s))"
  proof (cases r)
    case (Inl e)
    with m t show ?thesis by (simp add: bnd_def native_move_def apart_def runs_native_def)
  next
    case (Inr x)
    have "native_move call t (fst (f x t))" by (rule moves_at [OF assms(2)])
    with m t Inr show ?thesis by (simp add: bnd_def native_move_def apart_def)
  qed
qed

lemma native_bnd:
  assumes "moves (\<lambda>_. True) (native_move call) m" "\<And>x. moves (\<lambda>_. True) apart (f x)"
  shows "moves (\<lambda>_. True) (native_move call) (bnd m f)"
  unfolding moves_def
proof (intro allI impI)
  fix s
  obtain t r where m: "m s = (t, r)" by fastforce
  with assms(1) have t: "native_move call s t" by (auto dest: movesD)
  show "native_move call s (fst (bnd m f s))"
  proof (cases r)
    case (Inr x)
    have "apart t (fst (f x t))" by (rule moves_at [OF assms(2)])
    with m t Inr show ?thesis by (simp add: bnd_def native_move_def apart_def)
  qed (use m t in \<open>simp add: bnd_def\<close>)
qed

lemma native_or_else:
  assumes "moves (\<lambda>_. True) (native_move call) m" "\<And>e. moves (\<lambda>_. True) apart (g e)"
  shows "moves (\<lambda>_. True) (native_move call) (or_else m g)"
  unfolding moves_def
proof (intro allI impI)
  fix s
  obtain t r where m: "m s = (t, r)" by fastforce
  with assms(1) have t: "native_move call s t" by (auto dest: movesD)
  show "native_move call s (fst (or_else m g s))"
  proof (cases r)
    case (Inl e)
    have "apart t (fst (g e t))" by (rule moves_at [OF assms(2)])
    with m t Inl show ?thesis by (simp add: or_else_def native_move_def apart_def)
  qed (use m t in \<open>simp add: or_else_def\<close>)
qed

lemma current_action_timeout: "current_action h (with_timeout call ms) = current_action h call"
  by (cases call) (simp_all add: current_action_def with_timeout_def get_or_def update_conv')

lemma runs_native_timeout: "runs_native (with_timeout call ms) h h' \<longleftrightarrow> runs_native call h h'"
proof -
  have "executes nt (with_timeout call ms) h h' \<longleftrightarrow> executes nt call h h'" for nt
    by (simp add: executes_def execute_native_eq current_action_timeout)
  moreover have "item (with_timeout call ms) ''name'' = item call ''name''"
    by (cases call) (simp_all add: with_timeout_def ditem_def update_conv')
  ultimately show ?thesis by (simp add: runs_native_def)
qed

lemma tool_port_native:
  assumes "native_ports P"
  shows "moves (\<lambda>_. True) (native_move call) (tool_port P b (with_timeout call ms))"
  unfolding moves_def
proof (intro allI impI)
  fix s :: "runtime \<times> ('a, 'b, 'c) integration \<times> 'c"
  have "runs_native (with_timeout call ms) (fst (snd s)) (fst (fst (wp_call_tool P b (with_timeout call ms) (snd s))))"
    using assms unfolding native_ports_def by blast
  then show "native_move call s (fst (tool_port P b (with_timeout call ms) s))"
    by (cases "wp_call_tool P b (with_timeout call ms) (snd s)") (simp add: runs_native_timeout native_move_def tool_port_def)
qed

lemma apart_basic:
  "moves F apart (put f)" "moves F apart (rt h)" "moves F apart (lift r)" "moves F apart (ret x)"
  "moves F apart (reading Q q)" "moves F apart (budgeted Q b)" "keeps fst g \<Longrightarrow> moves F apart (port g)"
  by (auto simp: moves_def put_def upd_def rt_def getting_def lift_def ret_def reading_def budgeted_def port_def apart_def keeps_def
      Let_def split: prod.split) (metis fst_conv)

lemmas apart_steps = kept_ports.quiet_steps [THEN quiet_apart]

lemma ended_apart:
  assumes "kept_ports P fst"
  shows "moves (\<lambda>_. True) apart (fail_call P c e)"
    "moves (\<lambda>_. True) apart (bnd (put (observe_result result)) (\<lambda>_. bnd (record_event P kind result) (\<lambda>_.
       bnd (set_complete cc) (\<lambda>_. bnd (check_active P) (\<lambda>_. ret result)))))"
  by (rule apart_steps [OF assms], intro outside.moves_bnd_any apart_steps [OF assms] apart_basic)

lemma step_native:
  assumes "native_ports P"
  shows "moves (\<lambda>_. True) (native_move call) (step_inner P call)"
proof -
  note kept = native_ports_kept [OF assms]
  have check: "keeps fst (wp_check_call P b c)" for b c using assms by (simp add: native_ports_def)
  show ?thesis
    unfolding step_inner_def open_call_def bnd_assoc bnd_prod bnd_ret prod.case
    by (intro apart_steps [OF kept, THEN apart_bnd] apart_basic(1-6) [THEN apart_bnd] apart_basic(7) [OF check, THEN apart_bnd]
      native_bnd tool_port_native [OF assms] moves_case_prod moves_case_sum ended_apart [OF kept])
qed

lemma generate_apart:
  assumes "native_ports P"
  shows "moves (\<lambda>_. True) apart (generate_inner P messages)"
proof -
  note kept = native_ports_kept [OF assms]
  have model: "keeps fst (wp_model P c)" for c using assms by (simp add: native_ports_def)
  show ?thesis
    unfolding generate_inner_def open_generation_def close_generation_def
    by (intro outside.moves_bnd_any apart_steps [OF kept] apart_basic model moves_case_prod moves_case_sum moves_if)
qed

lemma request_native:
  assumes "native_ports P" "serve_agent P m v (R, h, w) = ((R', h', w'), r)"
  shows "h' = h \<or> m = ''step'' \<and> runs_native v h h'"
proof -
  have denial: "moves (\<lambda>_. True) apart (bnd (if e \<in> set denial_codes then put f else ret ()) (\<lambda>_. lift (Inl e)))"
    for e and f :: "runtime \<Rightarrow> runtime"
    by (intro outside.moves_bnd_any moves_if apart_basic)
  have "moves (\<lambda>_. True) apart (runtime_generate P v)"
    unfolding runtime_generate_def record_budget_denial_def by (intro outside.moves_or_else_any generate_apart [OF assms(1)] denial)
  moreover have "moves (\<lambda>_. True) (native_move v) (runtime_step P v)"
    unfolding runtime_step_def record_budget_denial_def by (intro native_or_else step_native [OF assms(1)] denial)
  ultimately have "apart (R, h, w) (fst (runtime_generate P v (R, h, w)))" "native_move v (R, h, w) (fst (runtime_step P v (R, h, w)))"
    by (blast intro: moves_at)+
  with assms(2) show ?thesis
    by (auto simp: serve_agent_def Let_def apart_def native_move_def split: prod.splits if_splits)
qed

lemma framework_worker_serves:
  assumes "native_ports P"
  shows "serves_natives (framework_worker L reg P)"
  unfolding serves_natives_def
proof (intro allI impI)
  fix m v h w h' w' r
  assume "ae_request (framework_worker L reg P) m v (h, w) = ((h', w'), r)"
  then obtain R u R' u' where "serve_agent P m v (R, h, u) = ((R', h', u'), r)"
    by (cases w) (auto simp: framework_worker_def split: prod.splits)
  from request_native [OF assms this] show "h' = h \<or> (m = ''step'' \<and> (\<exists>name nt. item v ''name'' = Inr (VStr name) \<and>
      map_of (oh_natives h) name = Some nt \<and> executes nt v h h'))"
    unfolding runs_native_def by blast
qed

definition exchanged :: "runtime \<times> 'v \<times> exchange list \<Rightarrow> exchange list" where
  "exchanged w = snd (snd w)"

lemma framework_worker_observed: "observed_by (framework_worker L reg P) exchanged"
  by (auto simp: observed_by_def framework_worker_def exchanged_def split: prod.splits)

section \<open>Generations that the Worker grants\<close>

definition granted :: "exchange list \<Rightarrow> nat" where
  "granted tr = length (filter (\<lambda>(m, v, r). m = ''generate'' \<and> \<not> isl r) tr)"

lemma request_left:
  assumes "serve_agent P m v s = (t, r)"
  shows "(if m = ''generate'' \<and> \<not> isl r then 1 else 0) + generations_left t \<le> generations_left s"
proof -
  have "moves (\<lambda>_. True) no_more (runtime_generate P v)"
    unfolding runtime_generate_def record_budget_denial_def
    by (intro counts count_generate moves_if) simp_all
  from moves_at [OF this, of s] moves_at [OF count_step [of P v], of s]
  have "generations_left t \<le> generations_left s"
    using assms by (auto simp: serve_agent_def Let_def no_more_def split: prod.splits if_splits)
  moreover have "generations_left t < generations_left s" if "m = ''generate''" "\<not> isl r"
    using that assms by (auto simp: serve_agent_def reply_def Let_def split: prod.splits sum.splits intro: count_generated)
  ultimately show ?thesis by auto
qed

definition inside_budget :: "nat \<Rightarrow> runtime \<times> 'v \<times> exchange list \<Rightarrow> bool" where
  "inside_budget n s \<longleftrightarrow> granted (exchanged s) + generations_left (fst s, ()) \<le> n"

lemma left_any: "generations_left (R, w) = generations_left (R, ())"
  by (simp add: generations_left_def)

lemma framework_request_within:
  assumes "ae_request (framework_worker L reg P) m v (h, w) = ((h', w'), r)" "inside_budget n w"
  shows "inside_budget n w'"
proof -
  obtain R u tr where w: "w = (R, u, tr)" by (metis prod_cases3)
  with assms(1) obtain R' u' where s: "serve_agent P m v (R, h, u) = ((R', h', u'), r)" and w': "w' = (R', u', tr @ [(m, v, r)])"
    by (auto simp: framework_worker_def split: prod.splits)
  have "(if m = ''generate'' \<and> \<not> isl r then 1 else 0) + generations_left (R', ()) \<le> generations_left (R, ())"
    using request_left [OF s] by (simp only: left_any [of R "(h, u)"] left_any [of R' "(h', u')"])
  with assms(2) show ?thesis
    by (auto simp: inside_budget_def exchanged_def granted_def w w' split: if_splits)
qed

lemma framework_step_within:
  assumes "framework_step L' (framework_worker L reg P) oper (c, s) = (c', s')" "inside_budget n (snd s)"
  shows "inside_budget n (snd s')"
  using assms(1)
proof (cases rule: framework_step_cases)
  case 2
  with assms(2) show ?thesis by (simp add: unsent_def)
next
  case 3
  with assms(2) framework_request_within show ?thesis unfolding sent_one_def by blast
next
  case (4 messages names r)
  then have "completion L' (framework_worker L reg P) messages names (fst s, snd s) = ((fst s', snd s'), r)" by simp
  then show ?thesis
    by (cases rule: completion_cases) (use assms(2) framework_request_within in \<open>fastforce+\<close>)
qed (use assms(2) in simp)

lemma framework_run_within:
  assumes "framework_run L' (framework_worker L reg P) ops (c, s) = (c', s')" "inside_budget n (snd s)"
  shows "inside_budget n (snd s')"
  using assms(1) by (induction rule: framework_run_induct) (use assms(2) framework_step_within in blast)+

lemma framework_run_accounted:
  assumes "framework_run L A ops (c, s) = (c', s')" "serves_natives A" "observed_by A seen" "accounted seen s"
  shows "accounted seen s'"
  using assms(1) by (induction rule: framework_run_induct) (use assms(2-4) framework_step_accounted in blast)+

section \<open>An instance\<close>

definition lone_event :: val where
  "lone_event = VDict [(''generation_id'', VStr ''e:1:generation:0''), (''model_id'', VStr ''m''), (''messages'', VList []),
     (''response'', VList []), (''output_token_count'', VInt 2), (''finish_reason'', VStr ''stop'')]"

definition lone_ports :: "((unit, unit, unit) integration \<times> unit) ports" where
  "lone_ports = \<lparr>wp_lib = rational_lib, wp_contract = small_contract, wp_now = (\<lambda>_. 0), wp_unix = (\<lambda>_. 0), wp_cancelled = (\<lambda>_. False),
     wp_reserve = (\<lambda>_ w. (w, Inr ())), wp_append = (\<lambda>_ w. (w, Inr ())), wp_usage = (\<lambda>_ w. (w, Inr ())),
     wp_model = (\<lambda>c w. (w, Inr lone_event)), wp_check_call = (\<lambda>_ _ w. (w, Inr ())),
     wp_call_tool = (\<lambda>_ _ w. (w, Inl (''TOOL_FAILED'', False)))\<rparr>"

definition lone_start :: "((unit, unit, unit) integration \<times> runtime \<times> unit \<times> exchange list) res" where
  "lone_start = new_integration ''1.15.0'' (\<lambda>_. None) [] [] (fst small_start, (), [])"

lemma lone_native: "native_ports lone_ports"
  by (simp add: native_ports_def lone_ports_def keeps_def runs_native_def)

end
