(* ===== verification/Build_Examples.thy ===== *)
theory Build_Examples
  imports Fixture_Plan Loader_Correct Datasets Eval_Json
begin

text \<open>
  The command that builds the reference artifacts (\<open>scripts/build_examples.py\<close>): it puts the package
  loader, the dataset adapters, the run expansion and the plan resolver together into the submitted
  batch of every public run.

  The file system is an argument: the parsed run files with their names, the text of a package's
  case file, and for every package the adapter's \<open>normalize\<close>. The result is the list of files that
  are written, with their contents as JSON values. Printed warnings are left out.
\<close>

section \<open>One sample\<close>

definition line_breaks :: "string" where
  "line_breaks = [CHR 0x0A, CHR 0x0B, CHR 0x0C, CHR 0x1C, CHR 0x1D, CHR 0x1E, CHR 0x85]"

function split_lines :: "string \<Rightarrow> string \<Rightarrow> string list" where
  \<comment> \<open>\<open>s.splitlines()\<close> with the line read so far\<close>
  "split_lines acc [] = (if acc = [] then [] else [acc])"
| "split_lines acc (c # s) =
     (if c = CHR 0x0D then acc # split_lines [] (if s \<noteq> [] \<and> hd s = CHR 0x0A then tl s else s)
      else if c \<in> set line_breaks then acc # split_lines [] s
      else split_lines (acc @ [c]) s)"
  by pat_completeness auto
termination
  by (relation "measure (\<lambda>(acc, s). length s)") auto

definition load_case :: "lib \<Rightarrow> string \<Rightarrow> val res" where
  "load_case L content =
     (case filter (\<lambda>line. strip line \<noteq> []) (split_lines [] content) of
        [] \<Rightarrow> Inl (ValueError ''Package has no test case'')
      | line # rest \<Rightarrow> json_loads L (utf8 line))"

fun is_model :: "string option \<Rightarrow> val \<Rightarrow> bool" where
  "is_model (Some m) (VModel c d) = (c = m)"
| "is_model _ _ = False"

definition prepare_wire ::
  "sids \<Rightarrow> (val \<Rightarrow> val res) \<Rightarrow> (string \<times> string) list \<Rightarrow> val \<Rightarrow> (val \<times> val \<times> val \<times> val) res" where
  \<comment> \<open>the input, private data and runtime envelopes and the sample identifier; a prepared sample is a
    dataclass instance with these four attributes\<close>
  "prepare_wire sids adapt models raw =
     rbind (adapt raw) (\<lambda>sample. case sample of
       VObj c d \<Rightarrow>
         rbind (ditem d ''input'') (\<lambda>inp.
         rbind (guard (is_model (map_of models ''input'') inp) (TypeError ''Adapter returned the wrong input model'')) (\<lambda>_.
         rbind (ditem d ''private_data'') (\<lambda>private.
         rbind (guard (private = VNone \<or> is_model (map_of models ''private_data'') private)
                  (TypeError ''Adapter returned private data that dataset.yaml does not declare'')) (\<lambda>_.
         rbind (model_to_envelope sids inp) (\<lambda>input_value.
         rbind (if private = VNone then Inr VNone else model_to_envelope sids private) (\<lambda>private_value.
         rbind (ditem d ''runtime'') (\<lambda>rt.
         rbind (ditem d ''sample_id'') (\<lambda>ident.
           Inr (input_value, private_value, rt, ident)))))))))
     | _ \<Rightarrow> Inl (AttributeError ''input''))"

section \<open>One run\<close>

definition build_task :: "lib \<Rightarrow> (val \<Rightarrow> string) \<Rightarrow> dict \<Rightarrow> val \<Rightarrow> val \<Rightarrow> val \<Rightarrow> val res" where
  "build_task L text_of declaration input_value rt ident =
     rbind (ditem declaration ''id'') (\<lambda>i. rbind (as_str i) (\<lambda>package_id.
     let dataset_id = (if prefix_of ''datasets/'' package_id then drop (length ''datasets/'') package_id else package_id)
     in rbind (digest L input_value) (\<lambda>s.
        Inr (VDict ([(''schema_version'', VStr ''vnext.3''),
            (''task_id'', VStr (dataset_id @ ''/'' @ py_str text_of ident)),
            (''dataset'', VDict [(''id'', VStr dataset_id), (''revision'', VStr ''synthetic-design-fixture-v1''),
               (''split'', VStr ''example''), (''subset'', VStr [])]),
            (''sample_id'', ident), (''input'', input_value), (''input_digest'', VStr s)] @
          (if rt = VNone then [] else [(''runtime'', rt)]))))))"

definition build_episode :: "string \<Rightarrow> val \<Rightarrow> val \<Rightarrow> dict" where
  "build_episode name task private_value =
     [(''request_id'', VStr (''request-'' @ name)), (''episode_id'', VStr (''episode-'' @ name)), (''task'', task),
      (''seed'', VInt 0), (''sample_index'', VInt 0), (''batch_id'', VStr (''batch-'' @ name))] @
     (if private_value = VNone then [] else [(''private_data'', private_value)])"

definition public_episode :: "val \<Rightarrow> dict \<Rightarrow> dict res" where
  \<comment> \<open>an episode that is not scored carries no private data\<close>
  "public_episode run episode =
     rbind (item run ''scoring'') (\<lambda>scoring. rbind (item scoring ''enabled'') (\<lambda>enabled.
       Inr (if truthy enabled then episode else AList.delete ''private_data'' episode)))"

definition build_run ::
  "run_env \<Rightarrow> string \<Rightarrow> val \<Rightarrow> val \<Rightarrow> val \<Rightarrow> val \<Rightarrow> (string \<times> val) list res" where
  \<comment> \<open>the files of one run, from its task and private data\<close>
  "build_run R name public_run manifest task private_value =
     rbind (expand_run (R\<lparr>re_manifests := [manifest]\<rparr>) public_run) (\<lambda>run.
     rbind (public_episode run (build_episode name task private_value)) (\<lambda>e.
     let episode = VDict e;
         batch = VDict [(''batch_id'', VStr (''batch-'' @ name)), (''run_spec'', run), (''episodes'', VList [episode])]
     in rbind (validate (re_lib R) (re_registry R) ''BatchRequest'' batch) (\<lambda>_.
        rbind (validate (re_lib R) (re_registry R) ''RunSpec'' run) (\<lambda>_.
        rbind (validate (re_lib R) (re_registry R) ''TaskSpec'' task) (\<lambda>_.
        rbind (validate (re_lib R) (re_registry R) ''EpisodeRequest'' episode) (\<lambda>_.
        rbind (fixture_plan (re_lib R) (re_registry R) episode run [manifest] (re_catalog R)) (\<lambda>plan.
          Inr [(name @ ''/batch_request.json'', batch), (name @ ''/task.json'', task),
               (name @ ''/episode_request.json'', episode), (name @ ''/run_spec.json'', run),
               (name @ ''/execution_plan.json'', plan)])))))))"

record 'w built_package =
  bp_package :: "'w package"
  bp_manifest :: val
  bp_normalize :: "val \<Rightarrow> val res"
  bp_cases :: string

primrec rfirst :: "('a \<Rightarrow> bool res) \<Rightarrow> 'a list \<Rightarrow> 'a option res" where
  \<comment> \<open>\<open>next((x for x in xs if f(x)), None)\<close>\<close>
  "rfirst f [] = Inr None"
| "rfirst f (x # xs) = rbind (f x) (\<lambda>b. if b then Inr (Some x) else rfirst f xs)"

definition package_for :: "'w built_package list \<Rightarrow> val \<Rightarrow> 'w built_package option res" where
  \<comment> \<open>the first package with the identifier and version that a run selects\<close>
  "package_for packages selected =
     rfirst (\<lambda>p.
         rbind (ditem (pk_declaration (bp_package p)) ''id'') (\<lambda>a. rbind (item selected ''id'') (\<lambda>b.
         if \<not> py_eq a b then Inr False
         else rbind (ditem (pk_declaration (bp_package p)) ''version'') (\<lambda>v. rbind (item selected ''version'') (\<lambda>w.
           Inr (py_eq v w)))))) packages"

definition build_example ::
  "run_env \<Rightarrow> sids \<Rightarrow> (val \<Rightarrow> string) \<Rightarrow> 'w built_package list \<Rightarrow> string \<times> val \<Rightarrow> (string \<times> val) list res" where
  "build_example R sids text_of packages named_run =
     rbind (load_yaml (snd named_run)) (\<lambda>public_run.
     rbind (item public_run ''dataset_package'') (\<lambda>selected.
     rbind (package_for packages selected) (\<lambda>found. case found of
       None \<Rightarrow> Inl (ValueError ''No registered environment package'')
     | Some p \<Rightarrow>
         rbind (validate (re_lib R) (re_registry R) ''PackageManifest'' (bp_manifest p)) (\<lambda>_.
         rbind (load_case (re_lib R) (bp_cases p)) (\<lambda>raw.
         rbind (prepare_wire sids (bp_normalize p) (pk_models (bp_package p)) raw)
           (\<lambda>(input_value, private_value, rt, ident).
         rbind (build_task (re_lib R) text_of (pk_declaration (bp_package p)) input_value rt ident) (\<lambda>task.
           build_run R (fst named_run) public_run (bp_manifest p) task private_value)))))))"

definition build_manifests ::
  "lib \<Rightarrow> ctab \<Rightarrow> val \<Rightarrow> sids \<Rightarrow> (string \<times> 'w package \<times> (val \<Rightarrow> val res) \<times> string) list \<Rightarrow>
   ('w built_package list \<times> (string \<times> nat list) list) res" where
  \<comment> \<open>the manifest of every package, named by its directory, and the files written for it\<close>
  "build_manifests L ct core_contract sids loaded =
     rbind (rmap (\<lambda>(name, pkg, adapt, case_text).
         rbind (build_manifest L ct core_contract (''packages/'' @ name) pkg sids) (\<lambda>(manifest, files).
           Inr (\<lparr>bp_package = pkg, bp_manifest = manifest, bp_normalize = adapt, bp_cases = case_text\<rparr>, files))) loaded)
       (\<lambda>built. Inr (map fst built, concat (map snd built)))"

definition build_all ::
  "run_env \<Rightarrow> ctab \<Rightarrow> val \<Rightarrow> sids \<Rightarrow> (val \<Rightarrow> string) \<Rightarrow>
   (string \<times> 'w package \<times> (val \<Rightarrow> val res) \<times> string) list \<Rightarrow> (string \<times> val) list \<Rightarrow>
   ((string \<times> nat list) list \<times> (string \<times> nat list) list) res" where
  \<comment> \<open>\<open>main\<close>: the files of the packages and those of the runs\<close>
  "build_all R ct core_contract sids text_of loaded runs =
     rbind (guard (loaded \<noteq> []) (RuntimeError ''No dataset packages found'')) (\<lambda>_.
     rbind (build_manifests (re_lib R) ct core_contract sids loaded) (\<lambda>(packages, package_files).
     rbind (rmap (build_example R sids text_of packages) runs) (\<lambda>files.
     rbind (rmap (\<lambda>(path, v). rbind (file_content (re_lib R) v) (\<lambda>c. Inr (path, c))) (concat files)) (\<lambda>contents.
       Inr (package_files, contents)))))"

section \<open>No private data without scoring\<close>

lemma keep_items_keys: "keep_items v ks = Inr d \<Longrightarrow> fst ` set d \<subseteq> set ks"
proof -
  have filter_sub: "rfilter f xs = Inr ys \<Longrightarrow> set ys \<subseteq> set xs" for f :: "string \<Rightarrow> bool res" and xs ys
    by (induction xs arbitrary: ys) (auto simp: rbind_Inr_iff split: if_splits)
  assume "keep_items v ks = Inr d"
  then obtain present where p: "rfilter (has v) ks = Inr present"
      "list_all2 (\<lambda>k y. rbind (item v k) (\<lambda>x. Inr (k, x)) = Inr y) present d"
    by (auto simp: keep_items_def rbind_Inr_iff rmap_Inr_iff)
  from p(2) have "map fst d = present"
    by (induction present d rule: list_all2_induct) (auto simp: rbind_Inr_iff)
  with filter_sub [OF p(1)] show ?thesis by (metis set_map)
qed

lemma plan_head_private:
  assumes "plan_head L episode run = Inr head" "item run ''scoring'' = Inr scoring" "item scoring ''enabled'' = Inr enabled"
    "\<not> truthy enabled"
  shows "''private_data'' \<notin> fst ` set head"
proof -
  from assms obtain run_id ids kept package components where h:
    "rmap (\<lambda>k. rbind (item episode k) (\<lambda>x. Inr (k, x))) [''episode_id'', ''task'', ''seed''] = Inr ids"
    "keep_items run [''purpose'', ''model'', ''limits'', ''training'', ''environment'', ''scoring''] = Inr kept"
    "rmap (plan_component L run) [''agent'', ''backend''] = Inr components"
    "head = [(''run_id'', run_id)] @ ids @ kept @ [(''dataset_package'', package)] @ components"
    unfolding plan_head_def rbind_Inr_iff by auto
  from h(1) have "map fst ids = [''episode_id'', ''task'', ''seed'']" by (auto simp: rbind_Inr_iff)
  moreover from h(3) have "map fst components = [''agent'', ''backend'']"
    by (auto simp: plan_component_def rbind_Inr_iff)
  moreover have "''private_data'' \<notin> fst ` set kept" using keep_items_keys [OF h(2)] by auto
  moreover have "fst ` set head = {''run_id'', ''dataset_package''} \<union> set (map fst ids) \<union> fst ` set kept \<union> set (map fst components)"
    using h(4) by auto
  ultimately show ?thesis by (simp del: set_map)
qed

lemma fixture_plan_parts:
  assumes "fixture_plan L reg episode run manifests catalog = Inr plan"
  obtains head rt d tail where "plan_head L episode run = Inr head" "plan_runtime catalog run episode d = Inr rt"
    "fst ` set tail \<subseteq> {''tools'', ''attempt_id'', ''required_capabilities'', ''internet_access'', ''deadline_at_ms''} \<union> fst ` set rt"
    "seal_fixture_plan L (VDict (head @ tail)) = Inr plan" "validate L reg ''ExecutionPlan'' plan = Inr ()"
proof -
  from assms obtain head st rt d internet total u where h: "plan_head L episode run = Inr head"
    "plan_runtime catalog run episode d = Inr rt"
    "seal_fixture_plan L (VDict (head @ [(''tools'', VList (snd st))] @ rt @
              [(''attempt_id'', VInt 1), (''required_capabilities'', VList (map VStr (sort (fst st)))),
               (''internet_access'', internet), (''deadline_at_ms'', VInt (1800000000000 + total))])) = Inr plan"
    "validate L reg ''ExecutionPlan'' plan = Inr u"
    unfolding fixture_plan_def rbind_Inr_iff split_beta sum.inject by blast
  show thesis by (rule that [OF h(1,2) _ h(3)]) (use h(4) in auto)
qed

lemma fixture_plan_sealed:
  assumes "fixture_plan L reg episode run manifests catalog = Inr plan"
  shows "validate L reg ''ExecutionPlan'' plan = Inr () \<and> seal_fixture_plan L plan = Inr plan"
  using fixture_plan_parts [OF assms] seal_seal by metis

lemma fixture_plan_private:
  assumes "fixture_plan L reg episode run manifests catalog = Inr plan" "item run ''scoring'' = Inr scoring"
    "item scoring ''enabled'' = Inr enabled" "\<not> truthy enabled"
  shows "has plan ''private_data'' = Inr False"
proof -
  obtain head rt d tail where h: "plan_head L episode run = Inr head" "plan_runtime catalog run episode d = Inr rt"
    "fst ` set tail \<subseteq> {''tools'', ''attempt_id'', ''required_capabilities'', ''internet_access'', ''deadline_at_ms''} \<union> fst ` set rt"
    "seal_fixture_plan L (VDict (head @ tail)) = Inr plan"
    by (rule fixture_plan_parts [OF assms(1)])
  have "''private_data'' \<notin> fst ` set head" by (rule plan_head_private [OF h(1) assms(2-4)])
  moreover have "''private_data'' \<notin> fst ` set rt"
    using h(2) by (auto simp: plan_runtime_def rbind_Inr_iff split: if_splits)
  ultimately have "''private_data'' \<notin> fst ` set (head @ tail)" using h(3) by auto
  then have "\<not> has_key (head @ tail) ''private_data''" by (simp add: has_key_iff)
  with h(4) show ?thesis by (auto simp: seal_fixture_plan_def Let_def rbind_Inr_iff)
qed

text \<open>C39: The files of a run are a batch, task, episode and run that conform to their schemas and a sealed
  plan that does, the task's digest is that of its input, and when the run is not scored neither
  the episode nor the plan holds private data, whatever the adapter prepared.\<close>
theorem built_run_is_consistent:
  assumes "build_task L text_of declaration input_value rt ident = Inr task"
    "build_run R name public_run manifest task private_value = Inr written" "re_lib R = L"
  shows "\<exists>batch episode run plan. map snd written = [batch, task, VDict episode, run, plan] \<and>
    item batch ''run_spec'' = Inr run \<and> item batch ''episodes'' = Inr (VList [VDict episode]) \<and>
    ditem episode ''task'' = Inr task \<and> rbind (item task ''input'') (digest L) = rbind (item task ''input_digest'') as_str \<and>
    list_all2 (\<lambda>schema v. validate L (re_registry R) schema v = Inr ())
      [''BatchRequest'', ''TaskSpec'', ''EpisodeRequest'', ''RunSpec'', ''ExecutionPlan''] (map snd written) \<and>
    seal_fixture_plan L plan = Inr plan \<and>
    (\<forall>scoring enabled. item run ''scoring'' = Inr scoring \<longrightarrow> item scoring ''enabled'' = Inr enabled \<longrightarrow> \<not> truthy enabled \<longrightarrow>
      \<not> has_key episode ''private_data'' \<and> has plan ''private_data'' = Inr False)"
proof -
  obtain run episode batch plan where w:
    "public_episode run (build_episode name task private_value) = Inr episode"
    "batch = VDict [(''batch_id'', VStr (''batch-'' @ name)), (''run_spec'', run), (''episodes'', VList [VDict episode])]"
    "validate L (re_registry R) ''BatchRequest'' batch = Inr ()" "validate L (re_registry R) ''RunSpec'' run = Inr ()"
    "validate L (re_registry R) ''TaskSpec'' task = Inr ()" "validate L (re_registry R) ''EpisodeRequest'' (VDict episode) = Inr ()"
    "fixture_plan L (re_registry R) (VDict episode) run [manifest] (re_catalog R) = Inr plan"
    "map snd written = [batch, task, VDict episode, run, plan]"
    using assms(2,3) unfolding build_run_def Let_def rbind_Inr_iff by auto
  from assms(1) have input: "rbind (item task ''input'') (digest L) = rbind (item task ''input_digest'') as_str"
    by (auto simp: build_task_def rbind_Inr_iff Let_def ditem_def)
  from w(1) obtain scoring enabled where s: "item run ''scoring'' = Inr scoring" "item scoring ''enabled'' = Inr enabled"
    "episode = (if truthy enabled then build_episode name task private_value
                else AList.delete ''private_data'' (build_episode name task private_value))"
    by (auto simp: public_episode_def rbind_Inr_iff)
  have "ditem (build_episode name task private_value) ''task'' = Inr task" by (simp add: build_episode_def ditem_def)
  then have task: "ditem episode ''task'' = Inr task" using s(3) by (simp add: ditem_def delete_conv')
  have plan: "validate L (re_registry R) ''ExecutionPlan'' plan = Inr () \<and> seal_fixture_plan L plan = Inr plan"
    by (rule fixture_plan_sealed [OF w(7)])
  have hidden: "\<not> has_key episode ''private_data'' \<and> has plan ''private_data'' = Inr False" if "\<not> truthy enabled"
    using s(3) fixture_plan_private [OF w(7) s(1,2) that] that by simp
  show ?thesis
    using w(2-6,8) input task plan hidden s(1,2) by (intro exI [of _ batch] exI [of _ episode] exI [of _ run] exI [of _ plan])
      (auto simp: ditem_def)
qed

section \<open>A small repository\<close>

definition example_lib :: lib where
  "example_lib = rational_lib\<lparr>sha256_hex := (\<lambda>b. ''d'')\<rparr>"

definition example_env :: run_env where
  "example_env = \<lparr>re_lib = example_lib, re_frames = 9,
     re_registry = \<lparr>core = VDict [(''$id'', VStr ''urn:core''), (''$defs'', VDict (map (\<lambda>n. (n, VDict []))
        [''BatchRequest'', ''TaskSpec'', ''EpisodeRequest'', ''RunSpec'', ''ExecutionPlan'', ''PackageManifest'']))],
       extensions = [(''urn:empty'', VDict [])]\<rparr>,
     re_manifests = [],
     re_catalog = VDict [(''components'', VDict (map (\<lambda>(i, role). (i, VDict [(''role'', VStr role), (''version'', VStr ''1''),
       (''config_schema'', VStr ''urn:empty''), (''consumes_image'', VBool False)])) [(''plain'', ''agent''), (''process'', ''backend'')]))]\<rparr>"

definition example_manifest :: val where
  "example_manifest = VDict [(''id'', VStr ''gsm8k''), (''version'', VStr ''1''), (''entrypoints'', VDict [(''environment'', VNone)]),
     (''task_schema'', VStr ''urn:i''), (''required_capabilities'', VList []), (''internet_access'', VBool False),
     (''config_schemas'', VDict [(''environment'', VStr ''urn:empty'')])]"

definition example_run :: val where
  "example_run = VDict [(''run_id'', VStr ''r''), (''dataset_package'', small_reference ''gsm8k''),
     (''scoring'', VDict [(''enabled'', VBool False)]), (''agent'', VDict [(''implementation'', small_reference ''plain'')]),
     (''backend'', VDict [(''implementation'', small_reference ''process'')]), (''tools'', VList []),
     (''limits'', VDict [(''total_timeout_ms'', VInt 5)])]"

definition example_input :: val where
  "example_input = VDict [(''schema_ref'', VStr ''urn:i''), (''data'', VDict [(''instruction'', VStr ''2+2?'')])]"

definition example_private :: val where
  "example_private = VDict [(''schema_ref'', VStr ''urn:p''), (''data'', VDict [(''answer'', VStr ''4'')])]"

definition example_files :: "(val \<times> (string \<times> val) list) res" where
  "example_files =
     rbind (build_task example_lib (\<lambda>_. []) [(''id'', VStr ''datasets/gsm8k'')] example_input VNone (VStr ''s1'')) (\<lambda>task.
     rbind (build_run example_env ''gsm8k'' example_run example_manifest task example_private) (\<lambda>written. Inr (task, written)))"

theorem built_run_is_consistent_witness:
  "\<exists>task written episode plan. example_files = Inr (task, written) \<and> map snd written ! 2 = VDict episode \<and> map snd written ! 4 = plan \<and>
     \<not> has_key episode ''private_data'' \<and> has plan ''private_data'' = Inr False \<and>
     validate example_lib (re_registry example_env) ''ExecutionPlan'' plan = Inr ()"
proof -
  have "ok (rbind example_files (\<lambda>(task, written). guard (item (map snd written ! 3) ''scoring'' = Inr (VDict [(''enabled'', VBool False)])) IndexError))"
    by code_simp
  then obtain task written where f: "example_files = Inr (task, written)"
    and s: "item (map snd written ! 3) ''scoring'' = Inr (VDict [(''enabled'', VBool False)])"
    by (auto simp: ok_iff rbind_Inr_iff guard_Inr_iff)
  from f have t: "build_task example_lib (\<lambda>_. []) [(''id'', VStr ''datasets/gsm8k'')] example_input VNone (VStr ''s1'') = Inr task"
    and w: "build_run example_env ''gsm8k'' example_run example_manifest task example_private = Inr written"
    by (auto simp: example_files_def rbind_Inr_iff)
  have L: "re_lib example_env = example_lib" by (simp add: example_env_def)
  from built_run_is_consistent [OF t w L] obtain batch episode run plan where p:
    "map snd written = [batch, task, VDict episode, run, plan]"
    "list_all2 (\<lambda>schema v. validate example_lib (re_registry example_env) schema v = Inr ())
      [''BatchRequest'', ''TaskSpec'', ''EpisodeRequest'', ''RunSpec'', ''ExecutionPlan''] (map snd written)"
    "\<forall>scoring enabled. item run ''scoring'' = Inr scoring \<longrightarrow> item scoring ''enabled'' = Inr enabled \<longrightarrow> \<not> truthy enabled \<longrightarrow>
      \<not> has_key episode ''private_data'' \<and> has plan ''private_data'' = Inr False" by (elim exE conjE) (rule that)
  have "item run ''scoring'' = Inr (VDict [(''enabled'', VBool False)])" using s p(1) by (simp del: map_eq_Cons_conv)
  moreover have "item (VDict [(''enabled'', VBool False)]) ''enabled'' = Inr (VBool False)" by (simp add: ditem_def)
  moreover have "\<not> truthy (VBool False)" by simp
  ultimately have "\<not> has_key episode ''private_data'' \<and> has plan ''private_data'' = Inr False" using p(3) by blast
  with f p(1,2) show ?thesis by (intro exI [of _ task] exI [of _ written] exI [of _ episode] exI [of _ plan]) auto
qed

end
