(* ===== verification/Contract_Build.thy ===== *)
theory Contract_Build
  imports Run_Files
begin

text \<open>
  The generator of the JSON contracts from the proto descriptors: the schemas of the messages with
  their annotated constraints (\<open>scripts/proto_contracts.py\<close>), and their division into the core contract
  and one document for every extension schema, with the references rewritten
  (\<open>scripts/build_contracts.py\<close>). Running protoc, reading its descriptor set, and the field dictionary in
  Markdown are left out; the text of an annotation is parsed by \<open>json.loads\<close>.
\<close>

section \<open>Messages to schemas\<close>

record field_descriptor =
  fd_name :: string
  fd_type :: int
  fd_type_name :: string
  fd_repeated :: bool
  fd_rule :: string        \<comment> \<open>the annotations\<close>
  fd_required :: bool

record message_descriptor =
  md_name :: string
  md_fields :: "field_descriptor list"
  md_rule :: string
  md_extension :: bool

definition primitive :: "(int \<times> string) list" where
  "primitive = [(1, ''number''), (2, ''number''), (3, ''integer''), (4, ''integer''), (5, ''integer''),
     (8, ''boolean''), (9, ''string''), (13, ''integer''), (18, ''integer'')]"

definition local_ref :: "string \<Rightarrow> string" where
  "local_ref name = ''#/$defs/'' @ name"

definition field_item :: "field_descriptor \<Rightarrow> dict" where
  "field_item f =
     (case map_of primitive (fd_type f) of
        Some t \<Rightarrow> [(''type'', VStr t)]
      | None \<Rightarrow>
          if fd_type_name f = ''.google.protobuf.Struct'' then [(''type'', VStr ''object'')]
          else if fd_type_name f = ''.google.protobuf.Value'' then []
          else [(''$ref'', VStr (local_ref (rsplit_last ''.'' (fd_type_name f))))])"

definition annotation_rule :: "lib \<Rightarrow> string \<Rightarrow> dict res" where
  \<comment> \<open>\<open>json.loads(text or '{}')\<close>\<close>
  "annotation_rule L t = rbind (json_loads L (utf8 (if t = [] then ''{}'' else t))) as_dict"

definition update_dict :: "dict \<Rightarrow> dict \<Rightarrow> dict" where
  "update_dict d e = fold (\<lambda>p. AList.update (fst p) (snd p)) e d"

definition field_schema :: "lib \<Rightarrow> field_descriptor \<Rightarrow> dict res" where
  "field_schema L f =
     rbind (annotation_rule L (fd_rule f)) (\<lambda>constraints.
       if \<not> fd_repeated f then Inr (update_dict (field_item f) constraints)
       else (case map_of constraints ''items'' of
               None \<Rightarrow> Inr (update_dict [(''type'', VStr ''array''), (''items'', VDict (field_item f))] constraints)
             | Some v \<Rightarrow> rbind (as_dict v) (\<lambda>items.
                 Inr (update_dict [(''type'', VStr ''array''), (''items'', VDict (update_dict (field_item f) items))]
                        (AList.delete ''items'' constraints)))))"

definition message_schema :: "lib \<Rightarrow> message_descriptor \<Rightarrow> dict res" where
  "message_schema L m =
     rbind (annotation_rule L (md_rule m)) (\<lambda>rules.
       if md_fields m = [] \<and> has_key rules ''oneOf'' then Inr rules
       else rbind (rmap (\<lambda>f. rbind (field_schema L f) (\<lambda>s. Inr (fd_name f, VDict s))) (md_fields m)) (\<lambda>properties.
            Inr (update_dict [(''type'', VStr ''object'')] (rules @
              [(''properties'', VDict (update_dict [] properties)),
               (''required'', VList (map (\<lambda>f. VStr (fd_name f)) (filter fd_required (md_fields m))))]))))"

definition is_config :: "lib \<Rightarrow> message_descriptor \<Rightarrow> bool res" where
  \<comment> \<open>an abstract envelope is no configuration, whatever its option says\<close>
  "is_config L m = rbind (annotation_rule L (md_rule m)) (\<lambda>rules.
     Inr (md_extension m \<and> \<not> (md_fields m = [] \<and> has_key rules ''oneOf'')))"

definition load_contracts :: "lib \<Rightarrow> message_descriptor list \<Rightarrow> (dict \<times> string list) res" where
  \<comment> \<open>the messages of the package in descriptor order\<close>
  "load_contracts L messages =
     rbind (rmap (\<lambda>m. rbind (message_schema L m) (\<lambda>s. Inr (md_name m, VDict s))) messages) (\<lambda>definitions.
     rbind (rfilter (is_config L) messages) (\<lambda>configs.
       Inr (update_dict [] definitions, map md_name configs)))"

section \<open>The core contract and the extensions\<close>

definition extension_ref :: "string \<Rightarrow> string" where
  "extension_ref name = ''uenv://schemas/vnext/'' @ name"

definition core_ref :: "string \<Rightarrow> string" where
  "core_ref reference = ''urn:uenv:vnext:contracts'' @ reference"

definition external_ref :: "string list \<Rightarrow> string \<Rightarrow> string" where
  "external_ref configs v =
     (let name = rsplit_last ''/'' v in if name \<in> set configs then extension_ref name else core_ref v)"

fun external_refs :: "string list \<Rightarrow> val \<Rightarrow> val res" where
  "external_refs configs (VDict d) =
     rbind (rmap (\<lambda>p.
         if fst p = ''$ref''
         then (case snd p of
                 VStr s \<Rightarrow> Inr (fst p, VStr (if prefix_of ''#/$defs/'' s then external_ref configs s else s))
               | _ \<Rightarrow> Inl (AttributeError ''startswith''))
         else rbind (external_refs configs (snd p)) (\<lambda>x. Inr (fst p, x))) d) (\<lambda>e. Inr (VDict e))"
| "external_refs configs (VList xs) = rbind (rmap (external_refs configs) xs) (\<lambda>ys. Inr (VList ys))"
| "external_refs configs v = Inr v"

definition draft :: string where
  "draft = ''https://json-schema.org/draft/2020-12/schema''"

definition extension_document :: "string list \<Rightarrow> string \<Rightarrow> dict \<Rightarrow> (dict \<times> val) res" where
  \<comment> \<open>the definition is taken out of the core\<close>
  "extension_document configs name core_defs =
     (case map_of core_defs name of
        None \<Rightarrow> Inl (KeyError name)
      | Some v \<Rightarrow>
          rbind (external_refs configs v) (\<lambda>x. rbind (as_dict x) (\<lambda>body.
            Inr (AList.delete name core_defs,
                 VDict (update_dict [(''$schema'', VStr draft), (''$id'', VStr (extension_ref name))] body)))))"

definition split_contracts :: "dict \<Rightarrow> string list \<Rightarrow> ((string \<times> val) list \<times> val) res" where
  "split_contracts definitions configs =
     rbind (rfold (\<lambda>name (defs, documents).
         rbind (extension_document configs name defs) (\<lambda>(defs', doc). Inr (defs', documents @ [(name, doc)])))
       configs (definitions, [])) (\<lambda>(core_defs, documents).
     rbind (external_refs configs (VDict core_defs)) (\<lambda>defs.
       Inr (documents, VDict [(''$schema'', VStr draft), (''$id'', VStr ''urn:uenv:vnext:contracts''), (''$defs'', defs)])))"

section \<open>References\<close>

fun refs_of :: "val \<Rightarrow> string list" where
  \<comment> \<open>the references at any depth\<close>
  "refs_of (VDict d) =
     concat (map (\<lambda>p. if fst p = ''$ref'' then (case snd p of VStr s \<Rightarrow> [s] | _ \<Rightarrow> []) else refs_of (snd p)) d)"
| "refs_of (VList xs) = concat (map refs_of xs)"
| "refs_of v = []"

definition renamed :: "string list \<Rightarrow> string \<Rightarrow> string" where
  "renamed configs s = (if prefix_of ''#/$defs/'' s then external_ref configs s else s)"

definition entry_refs :: "string \<times> val \<Rightarrow> string list" where
  "entry_refs p = (if fst p = ''$ref'' then (case snd p of VStr s \<Rightarrow> [s] | _ \<Rightarrow> []) else refs_of (snd p))"

lemma refs_of_dict: "refs_of (VDict d) = concat (map entry_refs d)"
  by (simp add: entry_refs_def [abs_def])

declare refs_of.simps(1) [simp del]

lemma list_all2_map_eq: "list_all2 (\<lambda>x y. g y = f x) xs ys \<Longrightarrow> map g ys = map f xs"
  by (induction xs ys rule: list_all2_induct) auto

lemma external_refs_refs: "external_refs configs v = Inr w \<Longrightarrow> refs_of w = map (renamed configs) (refs_of v)"
proof (induction configs v arbitrary: w rule: external_refs.induct)
  case (1 configs d)
  from 1(2) obtain e where w: "w = VDict e" and e: "list_all2 (\<lambda>p q. (if fst p = ''$ref''
         then (case snd p of
                 VStr s \<Rightarrow> Inr (fst p, VStr (if prefix_of ''#/$defs/'' s then external_ref configs s else s))
               | _ \<Rightarrow> Inl (AttributeError ''startswith''))
         else rbind (external_refs configs (snd p)) (\<lambda>x. Inr (fst p, x))) = Inr q) d e"
    by (auto simp: rbind_Inr_iff rmap_Inr_iff)
  have "list_all2 (\<lambda>p q. entry_refs q = map (renamed configs) (entry_refs p)) d e"
    using e
  proof (rule list.rel_mono_strong)
    fix p q assume p: "p \<in> set d" and q: "(if fst p = ''$ref''
         then (case snd p of
                 VStr s \<Rightarrow> Inr (fst p, VStr (if prefix_of ''#/$defs/'' s then external_ref configs s else s))
               | _ \<Rightarrow> Inl (AttributeError ''startswith''))
         else rbind (external_refs configs (snd p)) (\<lambda>x. Inr (fst p, x))) = Inr q"
    show "entry_refs q = map (renamed configs) (entry_refs p)"
    proof (cases "fst p = ''$ref''")
      case True
      with q obtain s where "snd p = VStr s" by (cases "snd p") auto
      with True q show ?thesis by (auto simp: entry_refs_def renamed_def)
    next
      case False
      with q 1(1) [OF p] show ?thesis by (auto simp: rbind_Inr_iff entry_refs_def)
    qed
  qed
  from list_all2_map_eq [OF this] show ?case by (simp only: w refs_of_dict map_concat map_map comp_def)
next
  case (2 configs xs)
  then obtain ys where w: "w = VList ys" and ys: "list_all2 (\<lambda>x y. external_refs configs x = Inr y) xs ys"
    by (auto simp: rbind_Inr_iff rmap_Inr_iff)
  have "list_all2 (\<lambda>x y. refs_of y = map (renamed configs) (refs_of x)) xs ys"
    using ys 2(1) by (auto intro: list.rel_mono_strong)
  from list_all2_map_eq [OF this] show ?case by (simp add: w map_concat comp_def)
qed auto

text \<open>A local reference resolves when it names a definition.\<close>

definition closed_refs :: "dict \<Rightarrow> bool" where
  "closed_refs D \<longleftrightarrow> (\<forall>r \<in> set (refs_of (VDict D)). prefix_of ''#/$defs/'' r \<longrightarrow> (\<exists>n. r = local_ref n \<and> CHR ''/'' \<notin> set n \<and> has_key D n))"

lemma rsplit_local: "CHR ''/'' \<notin> set n \<Longrightarrow> rsplit_last ''/'' (local_ref n) = n"
proof -
  assume n: "CHR ''/'' \<notin> set n"
  have "rfind_sub ''/'' n = None" using n by (auto simp: rfind_sub_None_iff contains_iff)
  then show ?thesis by (simp add: local_ref_def rsplit_last_def)
qed

definition relocated :: "string list \<Rightarrow> dict \<Rightarrow> string \<Rightarrow> string \<Rightarrow> bool" where
  \<comment> \<open>what has to become of a reference: a local one goes to the extension document or to the core
     definition of its name, any other stays\<close>
  "relocated configs D s r \<longleftrightarrow>
     (if prefix_of ''#/$defs/'' s
      then \<exists>n. s = ''#/$defs/'' @ n \<and> has_key D n \<and>
        r = (if n \<in> set configs then ''uenv://schemas/vnext/'' @ n else ''urn:uenv:vnext:contracts#/$defs/'' @ n)
      else r = s)"

lemma set_update_dict: "set (update_dict d e) \<subseteq> set d \<union> set e"
proof (induction e arbitrary: d)
  case (Cons p e)
  from Cons [of "AList.update (fst p) (snd p) d"] set_update_subset [of "fst p" "snd p" d]
  show ?case by (auto simp: update_dict_def)
qed (simp add: update_dict_def)

lemma refs_of_mono: "set d \<subseteq> set e \<Longrightarrow> set (refs_of (VDict d)) \<subseteq> set (refs_of (VDict e))"
  by (auto simp: refs_of_dict)

lemma refs_of_lookup: "map_of d n = Some v \<Longrightarrow> n \<noteq> ''$ref'' \<Longrightarrow> set (refs_of v) \<subseteq> set (refs_of (VDict d))"
  by (drule map_of_SomeD) (force simp: refs_of_dict entry_refs_def)

lemma external_refs_keys: "external_refs configs (VDict d) = Inr w \<Longrightarrow> \<exists>e. w = VDict e \<and> map fst e = map fst d"
proof -
  assume "external_refs configs (VDict d) = Inr w"
  then obtain e where w: "w = VDict e" and e: "list_all2 (\<lambda>p q. (if fst p = ''$ref''
         then (case snd p of
                 VStr s \<Rightarrow> Inr (fst p, VStr (if prefix_of ''#/$defs/'' s then external_ref configs s else s))
               | _ \<Rightarrow> Inl (AttributeError ''startswith''))
         else rbind (external_refs configs (snd p)) (\<lambda>x. Inr (fst p, x))) = Inr q) d e"
    by (auto simp: rbind_Inr_iff rmap_Inr_iff)
  have "list_all2 (\<lambda>p q. fst q = fst p) d e"
    using e by (rule list.rel_mono_strong) (auto simp: rbind_Inr_iff split: if_splits val.splits)
  from list_all2_map_eq [OF this] w show ?thesis by simp
qed

lemma renamed_relocated:
  assumes "closed_refs D" "s \<in> set (refs_of (VDict D))"
  shows "relocated configs D s (renamed configs s)"
proof (cases "prefix_of ''#/$defs/'' s")
  case True
  with assms obtain n where n: "s = local_ref n" "CHR ''/'' \<notin> set n" "has_key D n"
    by (auto simp: closed_refs_def)
  with True rsplit_local [OF n(2)] show ?thesis
    by (auto simp: renamed_def external_ref_def relocated_def Let_def local_ref_def core_ref_def extension_ref_def)
qed (simp add: renamed_def relocated_def)

lemma external_refs_relocated:
  assumes "external_refs configs v = Inr w" "closed_refs D" "set (refs_of v) \<subseteq> set (refs_of (VDict D))"
  shows "list_all2 (relocated configs D) (refs_of v) (refs_of w)"
proof -
  have "relocated configs D s (renamed configs s)" if "s \<in> set (refs_of v)" for s
    using that assms(3) renamed_relocated [OF assms(2)] by blast
  then show ?thesis
    unfolding external_refs_refs [OF assms(1)] list_all2_map2 by (simp add: list_all2_same)
qed

text \<open>What the loop over the extensions keeps: the definitions left, and the document of each name taken.\<close>

definition document_of :: "string list \<Rightarrow> dict \<Rightarrow> string \<times> val \<Rightarrow> bool" where
  "document_of configs D p \<longleftrightarrow> (\<exists>v body. map_of D (fst p) = Some v \<and> external_refs configs v = Inr (VDict body) \<and>
     snd p = VDict (update_dict [(''$schema'', VStr draft), (''$id'', VStr (extension_ref (fst p)))] body))"

definition split_keeps :: "dict \<Rightarrow> string list \<Rightarrow> string list \<Rightarrow> dict \<times> (string \<times> val) list \<Rightarrow> bool" where
  "split_keeps D configs taken st \<longleftrightarrow> map fst (snd st) = taken \<and> fst st = filter (\<lambda>p. fst p \<notin> set taken) D \<and>
     (\<forall>p \<in> set (snd st). document_of configs D p)"

lemma extension_document_keeps:
  assumes "split_keeps D configs taken (defs, documents)" "extension_document configs name defs = Inr (defs', doc)"
  shows "split_keeps D configs (taken @ [name]) (defs', documents @ [(name, doc)])"
proof -
  from assms(2) obtain v body where v: "map_of defs name = Some v" and x: "external_refs configs v = Inr (VDict body)"
    and d: "defs' = AList.delete name defs"
    and doc: "doc = VDict (update_dict [(''$schema'', VStr draft), (''$id'', VStr (extension_ref name))] body)"
    by (auto simp: extension_document_def rbind_Inr_iff split: option.splits elim!: as_dict.elims)
  from assms(1) have defs: "defs = filter (\<lambda>p. fst p \<notin> set taken) D" by (simp add: split_keeps_def)
  have "map_of (filter (\<lambda>p. fst p \<notin> set taken) D) name = (if name \<in> set taken then None else map_of D name)"
    by (induction D) auto
  with v defs have "map_of D name = Some v" by (simp split: if_splits)
  with x doc have "document_of configs D (name, doc)" by (auto simp: document_of_def)
  moreover have "defs' = filter (\<lambda>p. fst p \<notin> set (taken @ [name])) D"
    by (simp add: d defs AList.delete_eq conj_commute case_prod_beta) (metis (mono_tags))
  ultimately show ?thesis using assms(1) by (simp add: split_keeps_def)
qed

lemma split_loop_keeps:
  "rfold (\<lambda>name (defs, documents).
       rbind (extension_document configs name defs) (\<lambda>(defs', doc). Inr (defs', documents @ [(name, doc)]))) names st = Inr st' \<Longrightarrow>
   split_keeps D configs taken st \<Longrightarrow> split_keeps D configs (taken @ names) st'"
proof (induction names arbitrary: st taken)
  case (Cons name names)
  obtain defs documents where st: "st = (defs, documents)" by fastforce
  from Cons.prems(1) obtain defs' doc where x: "extension_document configs name defs = Inr (defs', doc)"
    and rest: "rfold (\<lambda>name (defs, documents).
       rbind (extension_document configs name defs) (\<lambda>(defs', doc). Inr (defs', documents @ [(name, doc)]))) names
         (defs', documents @ [(name, doc)]) = Inr st'"
    by (auto simp: st rbind_Inr_iff)
  from Cons.IH [OF rest extension_document_keeps [OF Cons.prems(2) [unfolded st] x]] show ?case by simp
qed simp

lemma document_relocated:
  assumes "document_of configs D p" "closed_refs D" "\<not> has_key D ''$ref''"
  shows "\<exists>v body. map_of D (fst p) = Some v \<and> list_all2 (relocated configs D) (refs_of v) (refs_of (VDict body)) \<and>
    snd p = VDict (update_dict [(''$schema'', VStr draft), (''$id'', VStr (''uenv://schemas/vnext/'' @ fst p))] body) \<and>
    set (refs_of (snd p)) \<subseteq> set (refs_of (VDict body))"
proof -
  from assms(1) obtain v body where v: "map_of D (fst p) = Some v" "external_refs configs v = Inr (VDict body)"
    and doc: "snd p = VDict (update_dict [(''$schema'', VStr draft), (''$id'', VStr (extension_ref (fst p)))] body)"
    by (auto simp: document_of_def)
  have "fst p \<noteq> ''$ref''" using assms(3) v(1) by (auto simp: has_key_def)
  with v(1) have "set (refs_of v) \<subseteq> set (refs_of (VDict D))" by (rule refs_of_lookup)
  from external_refs_relocated [OF v(2) assms(2) this]
  have "list_all2 (relocated configs D) (refs_of v) (refs_of (VDict body))" .
  moreover have "set (refs_of (snd p)) \<subseteq> set (refs_of (VDict body))"
    using set_update_dict [of "[(''$schema'', VStr draft), (''$id'', VStr (extension_ref (fst p)))]" body]
    by (auto simp: doc refs_of_dict entry_refs_def)
  ultimately show ?thesis using v(1) doc unfolding extension_ref_def by blast
qed

text \<open>C40: The division of the contract moves every reference with its definition: of each written document
  and of the core contract, the references are those of the original definitions in order, a local
  reference to a definition that became an extension being the id of that extension's document,
  one to a definition that stayed pointing into the core contract, where it is kept, and any other
  being unchanged; one document under its id is written for every extension, in order, provided
  every local reference of the definitions names a definition.\<close>
theorem divided_contract_resolves:
  assumes "split_contracts D configs = Inr (documents, contract)" "closed_refs D" "\<not> has_key D ''$ref''"
  shows "map fst documents = configs \<and>
    (\<forall>(name, document) \<in> set documents. \<exists>v body. map_of D name = Some v \<and>
       list_all2 (relocated configs D) (refs_of v) (refs_of (VDict body)) \<and>
       document = VDict (update_dict [(''$schema'', VStr draft), (''$id'', VStr (''uenv://schemas/vnext/'' @ name))] body) \<and>
       set (refs_of document) \<subseteq> set (refs_of (VDict body))) \<and>
    (\<exists>kept. contract = VDict [(''$schema'', VStr draft), (''$id'', VStr ''urn:uenv:vnext:contracts''), (''$defs'', VDict kept)] \<and>
       map fst kept = filter (\<lambda>n. n \<notin> set configs) (map fst D) \<and>
       list_all2 (relocated configs D) (refs_of (VDict (filter (\<lambda>p. fst p \<notin> set configs) D))) (refs_of (VDict kept)))"
proof -
  from assms(1) obtain core_defs w where loop: "rfold (\<lambda>name (defs, documents).
       rbind (extension_document configs name defs) (\<lambda>(defs', doc). Inr (defs', documents @ [(name, doc)])))
       configs (D, []) = Inr (core_defs, documents)"
    and w: "external_refs configs (VDict core_defs) = Inr w"
    and c: "contract = VDict [(''$schema'', VStr draft), (''$id'', VStr ''urn:uenv:vnext:contracts''), (''$defs'', w)]"
    by (auto simp: split_contracts_def rbind_Inr_iff split: prod.splits)
  from external_refs_keys [OF w] obtain kept where kept: "w = VDict kept" "map fst kept = map fst core_defs" by blast
  have "split_keeps D configs [] (D, [])" by (simp add: split_keeps_def)
  from split_loop_keeps [OF loop this] have core: "core_defs = filter (\<lambda>p. fst p \<notin> set configs) D"
    and names: "map fst documents = configs" and docs: "\<forall>p \<in> set documents. document_of configs D p"
    by (simp_all add: split_keeps_def)
  have "set (refs_of (VDict core_defs)) \<subseteq> set (refs_of (VDict D))" by (intro refs_of_mono) (simp add: core)
  from external_refs_relocated [OF w assms(2) this]
  have refs: "list_all2 (relocated configs D) (refs_of (VDict (filter (\<lambda>p. fst p \<notin> set configs) D))) (refs_of (VDict kept))"
    by (simp only: kept(1) core)
  have keys: "map fst kept = filter (\<lambda>n. n \<notin> set configs) (map fst D)" by (simp add: kept(2) core filter_map comp_def)
  have "\<forall>(name, document) \<in> set documents. \<exists>v body. map_of D name = Some v \<and>
       list_all2 (relocated configs D) (refs_of v) (refs_of (VDict body)) \<and>
       document = VDict (update_dict [(''$schema'', VStr draft), (''$id'', VStr (''uenv://schemas/vnext/'' @ name))] body) \<and>
       set (refs_of document) \<subseteq> set (refs_of (VDict body))"
  proof clarify
    fix name document
    assume "(name, document) \<in> set documents"
    with docs have "document_of configs D (name, document)" by blast
    from document_relocated [OF this assms(2,3)]
    show "\<exists>v body. map_of D name = Some v \<and> list_all2 (relocated configs D) (refs_of v) (refs_of (VDict body)) \<and>
       document = VDict (update_dict [(''$schema'', VStr draft), (''$id'', VStr (''uenv://schemas/vnext/'' @ name))] body) \<and>
       set (refs_of document) \<subseteq> set (refs_of (VDict body))" unfolding fst_conv snd_conv .
  qed
  with names show ?thesis by (intro conjI exI [of _ kept] refs keys) (simp_all only: c kept(1))
qed

definition example_contract :: dict where
  "example_contract =
     [(''RunSpec'', VDict [(''properties'', VDict [(''config'', VDict [(''$ref'', VStr ''#/$defs/AgentConfig'')]),
         (''task'', VDict [(''$ref'', VStr ''#/$defs/Task'')])])]),
      (''AgentConfig'', VDict [(''type'', VStr ''object'')]), (''Task'', VDict [(''type'', VStr ''object'')])]"

lemma example_contract_closed: "closed_refs example_contract"
proof -
  have "set (refs_of (VDict example_contract)) = {local_ref ''AgentConfig'', local_ref ''Task''}" by code_simp
  then show ?thesis unfolding closed_refs_def
    by (auto intro: exI [of _ "''AgentConfig''"] exI [of _ "''Task''"] simp: has_key_def example_contract_def)
qed

lemma example_relocated:
  "relocated [''AgentConfig''] example_contract ''#/$defs/AgentConfig'' r \<Longrightarrow> r = ''uenv://schemas/vnext/AgentConfig''"
  "relocated [''AgentConfig''] example_contract ''#/$defs/Task'' r \<Longrightarrow> r = ''urn:uenv:vnext:contracts#/$defs/Task''"
  unfolding relocated_def by (auto split: if_splits)

lemma example_refs:
  "list_all2 (relocated [''AgentConfig''] example_contract) [''#/$defs/AgentConfig'', ''#/$defs/Task''] ys \<Longrightarrow>
   ys = [''uenv://schemas/vnext/AgentConfig'', ''urn:uenv:vnext:contracts#/$defs/Task'']"
  unfolding list_all2_Cons1 by (auto dest: example_relocated)

lemma divided_contract_resolves_witness:
  "\<exists>documents kept. split_contracts example_contract [''AgentConfig''] = Inr (documents,
       VDict [(''$schema'', VStr draft), (''$id'', VStr ''urn:uenv:vnext:contracts''), (''$defs'', VDict kept)]) \<and>
     map fst documents = [''AgentConfig''] \<and> map fst kept = [''RunSpec'', ''Task''] \<and>
     refs_of (VDict kept) = [''uenv://schemas/vnext/AgentConfig'', ''urn:uenv:vnext:contracts#/$defs/Task'']"
proof -
  let ?configs = "[''AgentConfig'']"
  have "ok (split_contracts example_contract ?configs)" by code_simp
  then obtain documents contract where s: "split_contracts example_contract ?configs = Inr (documents, contract)"
    by (cases "split_contracts example_contract ?configs") auto
  have "\<not> has_key example_contract ''$ref''" by code_simp
  note divided = divided_contract_resolves [OF s example_contract_closed this]
  from divided [THEN conjunct2, THEN conjunct2] obtain kept where k:
      "contract = VDict [(''$schema'', VStr draft), (''$id'', VStr ''urn:uenv:vnext:contracts''), (''$defs'', VDict kept)]"
      "map fst kept = filter (\<lambda>n. n \<notin> set ?configs) (map fst example_contract)"
      "list_all2 (relocated ?configs example_contract) (refs_of (VDict (filter (\<lambda>p. fst p \<notin> set ?configs) example_contract)))
         (refs_of (VDict kept))" by (elim exE conjE)
  have "refs_of (VDict (filter (\<lambda>p. fst p \<notin> set ?configs) example_contract)) = [''#/$defs/AgentConfig'', ''#/$defs/Task'']"
    by code_simp
  from k(3) [unfolded this]
  have "refs_of (VDict kept) = [''uenv://schemas/vnext/AgentConfig'', ''urn:uenv:vnext:contracts#/$defs/Task'']"
    by (rule example_refs)
  moreover have "map fst kept = [''RunSpec'', ''Task'']" unfolding k(2) by code_simp
  ultimately show ?thesis using s [unfolded k(1)] divided [THEN conjunct1]
    by (intro exI [of _ documents] exI [of _ kept] conjI)
qed

text \<open>What the descriptors yield: every configuration is a definition, so taking it out of the core succeeds.\<close>

lemma has_key_update_dict: "has_key (update_dict d e) n \<longleftrightarrow> has_key d n \<or> n \<in> fst ` set e"
  by (induction e arbitrary: d) (auto simp: update_dict_def)

lemma loaded_configs_are_definitions:
  assumes "load_contracts L messages = Inr (D, configs)"
  shows "set configs \<subseteq> fst ` set D \<and> fst ` set D = md_name ` set messages"
proof -
  from assms obtain definitions cs
    where r: "list_all2 (\<lambda>m p. rbind (message_schema L m) (\<lambda>s. Inr (md_name m, VDict s)) = Inr p) messages definitions"
    and D: "D = update_dict [] definitions" and cs: "rfilter (is_config L) messages = Inr cs" "configs = map md_name cs"
    by (auto simp only: load_contracts_def rbind_Inr_iff rmap_Inr_iff Inr_inject prod.inject)
  from r have d: "list_all2 (\<lambda>m p. \<exists>s. p = (md_name m, VDict s)) messages definitions"
    by (rule list.rel_mono_strong) (auto simp: rbind_Inr_iff)
  from d have "map fst definitions = map md_name messages"
    by (induction messages definitions rule: list_all2_induct) auto
  then have "fst ` set definitions = md_name ` set messages" by (metis list.set_map)
  then have keys: "fst ` set D = md_name ` set messages"
    using has_key_update_dict [of "[]" definitions] by (simp add: D has_key_iff set_eq_iff)
  have "set cs \<subseteq> set messages" using cs(1)
    by (induction messages arbitrary: cs) (auto simp: rbind_Inr_iff split: if_splits)
  with keys cs(2) show ?thesis by auto
qed

end
