(* ===== verification/Trace_Invariant.thy ===== *)
theory Trace_Invariant
  imports Worker_Correct
begin

text \<open>
  The Worker's trajectory while an agent runs: as long as it counts as complete, its events are
  numbered from zero without a gap, whatever failed in between.
\<close>

section \<open>Gapless trajectories\<close>

definition gapless :: "trace \<Rightarrow> trace \<Rightarrow> bool" where
  "gapless t0 t \<longleftrightarrow> (\<forall>i < length (tr_events t). \<exists>ms kind payload. tr_events t ! i = event_of t0 (of_nat i) ms kind payload)"

definition solid :: "trace \<Rightarrow> trace \<Rightarrow> bool" where
  \<comment> \<open>and the next event continues them\<close>
  "solid t0 t \<longleftrightarrow> gapless t0 t \<and> event_of t = event_of t0 \<and> unat (tr_next_sequence t) = length (tr_events t)"

definition trusty :: "trace \<Rightarrow> trace \<Rightarrow> bool" where
  "trusty t0 t \<longleftrightarrow> (tr_complete t \<longrightarrow> solid t0 t)"

definition within_operation :: "trace \<Rightarrow> bool \<Rightarrow> trace \<Rightarrow> bool" where
  \<comment> \<open>during an operation that began with this completeness\<close>
  "within_operation t0 b t \<longleftrightarrow> \<not> tr_complete t \<and> (b \<longrightarrow> solid t0 t)"

lemma event_of_ids:
  "event_of (tr_complete_update f t) = event_of t" "event_of (tr_next_sequence_update g t) = event_of t"
  "event_of (tr_events_update h t) = event_of t"
  by (simp_all add: fun_eq_iff event_of_def)

lemma solid_complete [simp]: "solid t0 (tr_complete_update f t) = solid t0 t"
  by (simp add: solid_def gapless_def event_of_ids)

lemma trusty_incomplete [simp]: "trusty t0 (tr_complete_update (\<lambda>_. False) t)"
  by (simp add: trusty_def)

definition next_event :: "u64 \<Rightarrow> val \<Rightarrow> trace \<Rightarrow> trace" where
  "next_event n event t = tr_events_update (\<lambda>es. es @ [event]) (t\<lparr>tr_next_sequence := n\<rparr>)"

lemma next_event_fields [simp]:
  "tr_events (next_event n event t) = tr_events t @ [event]" "tr_next_sequence (next_event n event t) = n"
  "tr_complete (next_event n event t) = tr_complete t" "event_of (next_event n event t) = event_of t"
  by (simp_all add: next_event_def event_of_ids)

lemma solid_next:
  assumes "solid t0 t" "checked_add (tr_next_sequence t) 1 = Some n"
  shows "solid t0 (next_event n (event_of t (tr_next_sequence t) ms kind payload) t)"
proof -
  from checked_add_Some [OF assms(2)] assms(1) have n: "unat n = Suc (length (tr_events t))" by (simp add: solid_def)
  have number: "tr_next_sequence t = of_nat (length (tr_events t))"
  proof -
    have "of_nat (unat (tr_next_sequence t)) = tr_next_sequence t" by simp
    with assms(1) show ?thesis unfolding solid_def by metis
  qed
  with assms(1) n show ?thesis
    by (auto simp: solid_def gapless_def nth_append less_Suc_eq)
qed

section \<open>Assertions on the trajectory\<close>

definition on_trace :: "(trace \<Rightarrow> bool) \<Rightarrow> runtime \<times> 'w \<Rightarrow> bool" where
  "on_trace p s \<longleftrightarrow> p (rt_trace (fst s))"

definition same_trace :: "runtime \<times> 'w \<Rightarrow> runtime \<times> 'w \<Rightarrow> bool" where
  "same_trace s t \<longleftrightarrow> rt_trace (fst t) = rt_trace (fst s)"

interpretation tracing: move_relation same_trace
  by unfold_locales (auto simp: same_trace_def)

lemma same_trace_basic [intro]:
  "(\<And>R. rt_trace (f R) = rt_trace R) \<Longrightarrow> moves F same_trace (put f)"
  "moves F same_trace (rt h)" "moves F same_trace (lift r)" "moves F same_trace (ret x)" "moves F same_trace (reading Q b)"
  "moves F same_trace (budgeted Q c)" "moves F same_trace (port g)" "moves F same_trace (tool_port Q d v)"
  by (auto simp: moves_def put_def upd_def rt_def getting_def lift_def ret_def reading_def budgeted_def port_def tool_port_def
      same_trace_def Let_def split: prod.split)

lemmas same_trace_intros = same_trace_basic tracing.moves_bnd_any tracing.moves_getting moves_case_prod moves_if

lemma same_trace_checks [intro]:
  "moves (\<lambda>_. True) same_trace (check_active P)" "moves (\<lambda>_. True) same_trace (check_interaction_open P)"
  "moves (\<lambda>_. True) same_trace (persist_usage P u)"
  unfolding check_active_def check_interaction_open_def persist_usage_def by (intro same_trace_intros)+

lemma same_trace_triple:
  fixes m :: "('w, 'a) run"
  assumes "moves (\<lambda>_. True) same_trace m" "\<And>t. p t \<Longrightarrow> e t"
  shows "triple (on_trace p) m (\<lambda>_. on_trace p) (on_trace e)"
  unfolding triple_def
proof (intro allI impI)
  fix s :: "runtime \<times> 'w" assume "on_trace p s"
  moreover have "same_trace s (fst (m s))" using assms(1) unfolding moves_def by blast
  ultimately show "case m s of (t, Inl _) \<Rightarrow> on_trace e t | (t, Inr x) \<Rightarrow> on_trace p t"
    using assms(2) by (cases "m s") (auto simp: on_trace_def same_trace_def split: sum.split)
qed

lemma same_trace_bnd:
  assumes "moves (\<lambda>_. True) same_trace m" "\<And>x. triple (on_trace p) (f x) q (on_trace e)" "\<And>t. p t \<Longrightarrow> e t"
  shows "triple (on_trace p) (bnd m f) q (on_trace e)"
  by (rule triple_bnd [OF same_trace_triple [OF assms(1,3)] assms(2)])

section \<open>Recording\<close>

lemma try_record_Inr:
  assumes "try_record P kind payload s = (s', Inr i)"
  shows "\<exists>ms n. checked_add (tr_next_sequence (rt_trace (fst s))) 1 = Some n \<and>
    rt_trace (fst s') = next_event n (event_of (rt_trace (fst s)) (tr_next_sequence (rt_trace (fst s))) ms kind payload) (rt_trace (fst s))"
  using assms
  by (auto simp: try_record_def bnd_Inr_iff rt_def getting_def lift_def put_def upd_def port_def ret_def set_trace_def Let_def
      event_of_ids case_prod_unfold next_event_def)

lemma record_triple:
  fixes P :: "'w ports"
  shows
  "triple (on_trace (trusty t0)) (record_event P kind payload) (\<lambda>_. on_trace (trusty t0)) (on_trace (trusty t0))"
  "triple (on_trace (within_operation t0 b)) (record_event P kind payload) (\<lambda>_. on_trace (within_operation t0 b)) (on_trace (trusty t0))"
proof -
  have "(case record_event P kind payload s of (t, Inl _) \<Rightarrow> \<not> tr_complete (rt_trace (fst t))
     | (t, Inr x) \<Rightarrow> tr_complete (rt_trace (fst t)) = tr_complete (rt_trace (fst s)) \<and>
         (solid t0 (rt_trace (fst s)) \<longrightarrow> solid t0 (rt_trace (fst t))))" for s :: "runtime \<times> 'w"
  proof (cases "try_record P kind payload s")
    case (Pair t r)
    show ?thesis
    proof (cases r)
      case (Inl e)
      with Pair show ?thesis
        by (simp add: record_event_def bnd_def or_else_def set_complete_def put_def upd_def lift_def set_trace_def)
    next
      case (Inr i)
      from try_record_Inr [OF Pair [unfolded Inr]] obtain ms n where
        n: "checked_add (tr_next_sequence (rt_trace (fst s))) 1 = Some n" and
        t: "rt_trace (fst t) = next_event n (event_of (rt_trace (fst s)) (tr_next_sequence (rt_trace (fst s))) ms kind payload) (rt_trace (fst s))"
        by blast
      have "record_event P kind payload s = (t, Inr ())"
        using Pair Inr by (simp add: record_event_def bnd_def or_else_def ret_def)
      with solid_next [OF _ n] show ?thesis unfolding t by (simp add: t)
    qed
  qed
  note effect = this
  show "triple (on_trace (trusty t0)) (record_event P kind payload) (\<lambda>_. on_trace (trusty t0)) (on_trace (trusty t0))"
    unfolding triple_def on_trace_def
  proof (intro allI impI)
    fix s :: "runtime \<times> 'w" assume "trusty t0 (rt_trace (fst s))"
    with effect [of s] show "case record_event P kind payload s of (t, Inl _) \<Rightarrow> trusty t0 (rt_trace (fst t)) | (t, Inr _) \<Rightarrow> trusty t0 (rt_trace (fst t))"
      by (auto simp: trusty_def split: prod.splits sum.splits)
  qed
  show "triple (on_trace (within_operation t0 b)) (record_event P kind payload) (\<lambda>_. on_trace (within_operation t0 b)) (on_trace (trusty t0))"
    unfolding triple_def on_trace_def
  proof (intro allI impI)
    fix s :: "runtime \<times> 'w" assume "within_operation t0 b (rt_trace (fst s))"
    with effect [of s] show "case record_event P kind payload s of (t, Inl _) \<Rightarrow> trusty t0 (rt_trace (fst t))
        | (t, Inr _) \<Rightarrow> within_operation t0 b (rt_trace (fst t))"
      by (auto simp: trusty_def within_operation_def split: prod.splits sum.splits)
  qed
qed

section \<open>The requests of an agent\<close>

lemma within_trusty: "within_operation t0 b t \<Longrightarrow> trusty t0 t"
  by (simp add: within_operation_def trusty_def)

lemma operation_triple:
  assumes "\<And>b. triple (on_trace (within_operation t0 b)) (g b) q e"
  shows "triple (on_trace (trusty t0)) (bnd (rt (\<lambda>R. tr_complete (rt_trace R))) (\<lambda>b. bnd (set_complete False) (\<lambda>_. g b))) q e"
  unfolding triple_def
proof (intro allI impI)
  fix s :: "runtime \<times> 'a" assume s: "on_trace (trusty t0) s"
  let ?b = "tr_complete (rt_trace (fst s))" and ?t = "fst (set_complete False s)"
  have "on_trace (within_operation t0 ?b) ?t"
    using s by (simp add: on_trace_def trusty_def within_operation_def set_complete_def put_def upd_def set_trace_def)
  from tripleD [OF assms [of ?b] this] have "case g ?b ?t of (t, Inl _) \<Rightarrow> e t | (t, Inr x) \<Rightarrow> q x t" .
  then show "case bnd (rt (\<lambda>R. tr_complete (rt_trace R))) (\<lambda>b. bnd (set_complete False) (\<lambda>_. g b)) s of (t, Inl _) \<Rightarrow> e t | (t, Inr x) \<Rightarrow> q x t"
    by (simp add: bnd_def rt_def getting_def set_complete_def put_def upd_def)
qed

lemma finish_triple: "triple (on_trace (within_operation t0 b)) (set_complete b) (\<lambda>_. on_trace (trusty t0)) (on_trace (trusty t0))"
  by (simp add: triple_def on_trace_def within_operation_def trusty_def set_complete_def put_def upd_def set_trace_def)

lemma fail_trusty: "triple (on_trace (within_operation t0 b)) (fail_call P call failure) q (on_trace (trusty t0))"
  unfolding fail_call_def
  by (rule triple_bnd [OF record_triple(2)]) (simp add: triple_def lift_def on_trace_def within_trusty)

lemma open_call_same: "moves (\<lambda>_. True) same_trace (open_call P call)"
  unfolding open_call_def by (intro same_trace_intros same_trace_checks) simp

lemma open_generation_same: "moves (\<lambda>_. True) same_trace (open_generation P messages)"
  unfolding open_generation_def by (intro same_trace_intros same_trace_checks) simp

lemma step_triple: "triple (on_trace (trusty t0)) (step_inner P call) (\<lambda>_. on_trace (trusty t0)) (on_trace (trusty t0))"
  unfolding step_inner_def
proof (intro same_trace_bnd [OF open_call_same] triple_case_prod triple_bnd [OF record_triple(1)] operation_triple
    same_trace_bnd [OF same_trace_basic(8)], simp_all only: within_trusty)
  fix binding call' b r
  show "triple (on_trace (within_operation t0 b)) (case r of Inl failure \<Rightarrow> fail_call P call' failure
     | Inr result \<Rightarrow> (case check_result (wp_contract P) call' result of Inl e \<Rightarrow> fail_call P call' (e, False)
        | Inr _ \<Rightarrow> bnd (put (observe_result result)) (\<lambda>_. bnd (record_event P ''tool_result'' result) (\<lambda>_.
            bnd (set_complete b) (\<lambda>_. bnd (check_active P) (\<lambda>_. ret result)))))) (\<lambda>_. on_trace (trusty t0)) (on_trace (trusty t0))"
    by (auto split: sum.split intro!: fail_trusty same_trace_bnd [OF same_trace_basic(1)] same_trace_bnd [OF same_trace_checks(1)]
        triple_bnd [OF record_triple(2)] triple_bnd [OF finish_triple] ret_triple within_trusty simp: observe_result_def)
qed

lemma close_triple: "triple (on_trace (within_operation t0 b)) (close_generation P b limit n event) (\<lambda>_. on_trace (trusty t0)) (on_trace (trusty t0))"
  unfolding close_generation_def
  by (intro same_trace_bnd same_trace_basic(2,3,6) same_trace_checks triple_bnd [OF record_triple(2)] triple_bnd [OF finish_triple]
      same_trace_basic(1) ret_triple)
    (simp_all add: add_calls_def fix_version_def within_trusty)

lemma generate_triple: "triple (on_trace (trusty t0)) (generate_inner P messages) (\<lambda>_. on_trace (trusty t0)) (on_trace (trusty t0))"
  unfolding generate_inner_def
  by (intro same_trace_bnd [OF open_generation_same] triple_case_prod operation_triple same_trace_bnd same_trace_basic(2,3,7)
      same_trace_basic(1) same_trace_checks close_triple)
    (simp_all add: within_trusty)

lemma denial_triple:
  assumes "triple (on_trace (trusty t0)) m (\<lambda>_. on_trace (trusty t0)) (on_trace (trusty t0))"
  shows "triple (on_trace (trusty t0)) (record_budget_denial m) (\<lambda>_. on_trace (trusty t0)) (on_trace (trusty t0))"
  unfolding record_budget_denial_def
proof (rule triple_or_else [OF assms])
  show "triple (on_trace (trusty t0)) (bnd (if c \<in> set denial_codes then put (rt_budget_denied_update (\<lambda>_. True)) else ret ()) (\<lambda>_. lift (Inl c)))
    (\<lambda>_. on_trace (trusty t0)) (on_trace (trusty t0))" for c
    by (simp add: triple_def bnd_def put_def upd_def ret_def lift_def on_trace_def)
qed

lemma serve_trusty:
  assumes "on_trace (trusty t0) s"
  shows "on_trace (trusty t0) (fst (serve_agent P mthd v s))"
proof -
  have "on_trace (trusty t0) (fst (runtime_generate P v s))" "on_trace (trusty t0) (fst (runtime_step P v s))"
    unfolding runtime_generate_def runtime_step_def
    by (rule triple_state [OF denial_triple assms], rule generate_triple step_triple)+
  with assms show ?thesis by (auto simp: serve_agent_def Let_def split: prod.split)
qed

lemma requests_trusty: "on_trace (trusty t0) s \<Longrightarrow> on_trace (trusty t0) (serve_requests P rs s)"
  by (induction P rs s rule: serve_requests.induct) (simp_all add: serve_trusty)

lemma complete_solid:
  assumes "new_trace plan = Inr t0" "new_runtime contract plan b t0 initial = Inr R0"
    and "serve_requests P requests (R0, w) = (R, w')" "tr_complete (rt_trace R)"
  shows "solid t0 (rt_trace R)"
proof -
  from assms(1,2) have "rt_trace R0 = t0" "tr_events t0 = []" "tr_next_sequence t0 = 0"
    by (auto simp: new_trace_def new_runtime_def)
  then have "on_trace (trusty t0) (R0, w)" by (simp add: on_trace_def trusty_def solid_def gapless_def)
  from requests_trusty [OF this, of P requests] assms(3,4) show ?thesis by (simp add: on_trace_def trusty_def)
qed

text \<open>C20: After any requests of an agent, whatever failed in between, a trajectory that still counts as
  complete holds one event for every number from zero on, each with the identity of the attempt
  and the identifier made of its number.\<close>
theorem complete_trajectory_is_gapless:
  assumes "new_trace plan = Inr t0" "new_runtime contract plan b t0 initial = Inr R0"
    and "serve_requests P requests (R0, w) = (R, w')" "tr_complete (rt_trace R)"
  shows "(\<forall>i < length (tr_events (rt_trace R)). \<exists>ms kind payload.
      tr_events (rt_trace R) ! i = event_of t0 (of_nat i) ms kind payload) \<and>
    unat (tr_next_sequence (rt_trace R)) = length (tr_events (rt_trace R))"
  using complete_solid [OF assms] by (simp add: solid_def gapless_def)

definition recorded_run :: "runtime \<times> nat" where
  "recorded_run = (let (R, w, calls) = small_start in serve_requests small_ports small_requests (R, w))"

theorem complete_trajectory_is_gapless_witness:
  "length (tr_events (rt_trace (fst recorded_run))) = 3 \<and> unat (tr_next_sequence (rt_trace (fst recorded_run))) = 3"
proof -
  have run: "length (tr_events (rt_trace (fst recorded_run))) = 3 \<and> tr_complete (rt_trace (fst recorded_run))" by code_simp
  from small_start_ok obtain tr0 R0 where R: "small_start = (R0, 0, [])" "new_trace small_plan = Inr tr0"
    "new_runtime (wp_contract small_ports) small_plan small_budget tr0 small_observation = Inr R0" by blast
  from R(1) have "serve_requests small_ports small_requests (R0, 0) = (fst recorded_run, snd recorded_run)"
    unfolding recorded_run_def R(1) by simp
  from complete_trajectory_is_gapless [OF R(2,3) this] run show ?thesis by simp
qed

end
