(* ===== verification/Trajectory_Files.thy ===== *)
theory Trajectory_Files
  imports Runtime
begin

text \<open>
  The files of a trajectory (\<open>TrajectoryWriter\<close> of \<open>reference-control/src/runtime.rs\<close> and
  \<open>LocalFileStore\<close> of \<open>storage.rs\<close>): events are written as lines of canonical JSON, cut into segments
  of bounded size, with a manifest that names the segments by digest. The store is immutable: a file
  is kept under the digest of its content. That an existing file cannot be read is not modelled.
\<close>

section \<open>A store of immutable files\<close>

datatype io =                     \<comment> \<open>what the file system answers to one publication\<close>
    Written
  | Not_Written
  | Unsynced                      \<comment> \<open>published, but a later call to the system failed\<close>
  | Raced "nat list" bool         \<comment> \<open>another writer published this content first; whether the later calls succeeded\<close>

record files =
  fl_objects :: "string \<rightharpoonup> nat list"        \<comment> \<open>the files by the hexadecimal digest in their path\<close>
  fl_answers :: "io list"                     \<comment> \<open>the answers to come; \<open>Written\<close> after the last\<close>

definition storage_failed :: string where
  "storage_failed = ''STORAGE_IO_FAILED''"

definition write_immutable :: "string \<Rightarrow> nat list \<Rightarrow> files \<Rightarrow> files \<times> unit ctl" where
  "write_immutable key content s =
     (case fl_objects s key of
        Some old \<Rightarrow> (s, need (old = content) ''IMMUTABLE_CONTENT_CONFLICT'')
      | None \<Rightarrow>
          (let (answer, rest) = (case fl_answers s of [] \<Rightarrow> (Written, []) | a # as \<Rightarrow> (a, as));
               published = (\<lambda>c. \<lparr>fl_objects = (fl_objects s)(key \<mapsto> c), fl_answers = rest\<rparr>)
           in case answer of
                Written \<Rightarrow> (published content, Inr ())
              | Not_Written \<Rightarrow> (s\<lparr>fl_answers := rest\<rparr>, Inl storage_failed)
              | Unsynced \<Rightarrow> (published content, Inl storage_failed)
              | Raced other synced \<Rightarrow>
                  (published other, cbind (need (other = content) ''IMMUTABLE_CONTENT_CONFLICT'') (\<lambda>_. need synced storage_failed))))"

definition object_key :: "string \<Rightarrow> string ctl" where
  \<comment> \<open>\<open>object_path\<close>: the path is determined by these characters\<close>
  "object_key digest =
     (let hex = drop 7 digest in
      if take 7 digest = ''sha256:'' \<and> length hex = 64 \<and> list_all (\<lambda>c. is_digit c \<or> c \<in> set ''abcdef'') hex
      then Inr hex else Inl ''INVALID_ARTIFACT_DIGEST'')"

definition file_reference :: "string \<Rightarrow> int \<Rightarrow> string \<Rightarrow> val" where
  "file_reference digest size_bytes media_type =
     VDict [(''uri'', VStr (''uenv-file://'' @ digest)), (''digest'', VStr digest), (''size_bytes'', VInt size_bytes),
            (''media_type'', VStr media_type)]"

definition local_put :: "lib \<Rightarrow> nat list \<Rightarrow> string \<Rightarrow> (files, val) act" where
  \<comment> \<open>\<open>LocalFileStore::put_bytes\<close>\<close>
  "local_put L content media_type =
     bnd (lift (object_key (sha256_ref L content))) (\<lambda>key.
     bnd (write_immutable key content) (\<lambda>_.
       ret (file_reference (sha256_ref L content) (int (length content)) media_type)))"

definition local_read :: "lib \<Rightarrow> files \<Rightarrow> val \<Rightarrow> nat list ctl" where
  "local_read L s reference =
     cbind (string_field reference ''digest'') (\<lambda>digest.
     cbind (string_field reference ''uri'') (\<lambda>uri.
     cbind (need (uri = ''uenv-file://'' @ digest) ''ARTIFACT_LOCATION_MISMATCH'') (\<lambda>_.
     cbind (object_key digest) (\<lambda>key.
     cbind (ok_or (fl_objects s key) storage_failed) (\<lambda>content.
     cbind (need (sha256_ref L content = digest) ''ARTIFACT_INTEGRITY_MISMATCH'') (\<lambda>_.
     cbind (u64_field reference ''size_bytes'') (\<lambda>n.
     cbind (need (of_nat (length content) = n) ''ARTIFACT_INTEGRITY_MISMATCH'') (\<lambda>_. Inr content))))))))"

section \<open>Segments and manifests\<close>

definition canonical :: "lib \<Rightarrow> val \<Rightarrow> nat list ctl" where
  "canonical L v = (case canonical_bytes L v of Inl _ \<Rightarrow> Inl ''CANONICAL_JSON_FAILED'' | Inr content \<Rightarrow> Inr content)"

fun encode_events :: "lib \<Rightarrow> int \<Rightarrow> val list \<Rightarrow> nat list list \<Rightarrow> nat list \<Rightarrow> nat list list ctl" where
  "encode_events L m [] segments current = Inr (if current \<noteq> [] \<or> segments = [] then segments @ [current] else segments)"
| "encode_events L m (event # events) segments current =
     cbind (canonical L event) (\<lambda>content.
       let line = content @ [10] in
       if m < int (length line) then Inl ''TRAJECTORY_EVENT_TOO_LARGE''
       else if current \<noteq> [] \<and> m < int (length current + length line) then encode_events L m events (segments @ [current]) line
       else encode_events L m events segments (current @ line))"

definition encode_jsonl_segments :: "lib \<Rightarrow> int \<Rightarrow> val list \<Rightarrow> nat list list ctl" where
  "encode_jsonl_segments L m events =
     (if m = 0 then Inl ''INVALID_TRAJECTORY_SEGMENT_SIZE'' else encode_events L m events [] [])"

type_synonym 'f put = "nat list \<Rightarrow> string \<Rightarrow> ('f, val) act"

fun put_segments :: "'f put \<Rightarrow> nat list list \<Rightarrow> ('f, val list) act" where
  \<comment> \<open>in order; the first failure ends it\<close>
  "put_segments put_bytes [] = ret []"
| "put_segments put_bytes (segment # segments) =
     bnd (put_bytes segment ''application/x-ndjson'') (\<lambda>reference.
     bnd (put_segments put_bytes segments) (\<lambda>references. ret (reference # references)))"

definition write_segments :: "lib \<Rightarrow> 'f put \<Rightarrow> trace \<Rightarrow> ('f, val list) act" where
  "write_segments L put_bytes t =
     bnd (lift (encode_jsonl_segments L max_segment_bytes (tr_events t))) (put_segments put_bytes)"

definition put_json :: "lib \<Rightarrow> 'f put \<Rightarrow> val \<Rightarrow> ('f, val) act" where
  "put_json L put_bytes v = bnd (lift (canonical L v)) (\<lambda>content. put_bytes content ''application/json'')"

definition trajectory_manifest :: "trace \<Rightarrow> val list \<Rightarrow> string \<Rightarrow> u64 \<Rightarrow> val" where
  "trajectory_manifest t segments status now_ms =
     VDict [(''schema_version'', VStr ''vnext.3''), (''run_id'', VStr (tr_run_id t)), (''episode_id'', VStr (tr_episode_id t)),
            (''attempt_id'', of_u64 (tr_attempt_id t)), (''task_id'', VStr (tr_task_id t)), (''event_segments'', VList segments),
            (''event_count'', VInt (int (length (tr_events t)))), (''trajectory_status'', VStr status),
            (''created_at_ms'', of_u64 now_ms)]"

definition write_manifest :: "lib \<Rightarrow> val \<Rightarrow> 'f put \<Rightarrow> trace \<Rightarrow> string \<Rightarrow> u64 \<Rightarrow> ('f, val) act" where
  "write_manifest L contract put_bytes t status now_ms =
     bnd (write_segments L put_bytes t) (\<lambda>segments.
     bnd (lift (validate_shape contract ''TrajectoryManifest'' (trajectory_manifest t segments status now_ms))) (\<lambda>_.
       put_json L put_bytes (trajectory_manifest t segments status now_ms)))"

definition checkpoint :: "lib \<Rightarrow> val \<Rightarrow> 'f put \<Rightarrow> u64 \<Rightarrow> (trace \<times> 'f, val) act" where
  \<comment> \<open>a failed checkpoint makes the trajectory incomplete\<close>
  "checkpoint L contract put_bytes now_ms s =
     (let (f, r) = write_manifest L contract put_bytes (fst s) ''scoring_checkpoint'' now_ms (snd s)
      in ((if isl r then (fst s)\<lparr>tr_complete := False\<rparr> else fst s, f), r))"

definition seal :: "lib \<Rightarrow> val \<Rightarrow> 'f put \<Rightarrow> u64 \<Rightarrow> (trace \<times> 'f, val) act" where
  "seal L contract put_bytes now_ms s =
     (let status = (if tr_complete (fst s) then ''final_complete'' else ''final_partial'');
          (f, r) = write_manifest L contract put_bytes (fst s) status now_ms (snd s)
      in ((if isl r then fst s else (fst s)\<lparr>tr_sealed := True\<rparr>, f), r))"

section \<open>The store keeps what was put\<close>

text \<open>What the writer and the readers of a store rely on. A reference may have passed through JSON,
  which orders its keys.\<close>

locale file_store =
  fixes put_bytes :: "'f put" and read_bytes :: "'f \<Rightarrow> val \<Rightarrow> nat list ctl" and digest :: "nat list \<Rightarrow> string"
  assumes put_read: "put_bytes content media_type s = (s', Inr r) \<Longrightarrow> length content < 2 ^ 64 \<Longrightarrow> read_bytes s' r = Inr content"
    and put_keeps: "put_bytes content media_type s = (s', x) \<Longrightarrow> read_bytes s r = Inr c \<Longrightarrow> read_bytes s' r = Inr c"
    and put_reference: "put_bytes content media_type s = (s', Inr r) \<Longrightarrow>
      r = file_reference (digest content) (int (length content)) media_type"
    and read_sorted: "read_bytes s (sorted_val r) = read_bytes s r"
begin

lemma put_segments_read:
  assumes "put_segments put_bytes segments s = (s', Inr references)" "\<forall>segment \<in> set segments. length segment < 2 ^ 64"
  shows "list_all2 (\<lambda>segment r. read_bytes s' r = Inr segment \<and>
      r = file_reference (digest segment) (int (length segment)) ''application/x-ndjson'') segments references \<and>
    (\<forall>r c. read_bytes s r = Inr c \<longrightarrow> read_bytes s' r = Inr c)"
  using assms
proof (induction segments arbitrary: s references)
  case (Cons segment segments)
  from Cons.prems(1) obtain t x xs where t: "put_bytes segment ''application/x-ndjson'' s = (t, Inr x)"
    "put_segments put_bytes segments t = (s', Inr xs)" "references = x # xs"
    by (auto simp: bnd_Inr_iff ret_def)
  from Cons.prems(2) Cons.IH [OF t(2)] put_read [OF t(1)] put_reference [OF t(1)] put_keeps [OF t(1)] t(3)
  show ?case by simp
qed (simp add: ret_def)

end

lemma map_of_sort_key [simp]: "map_of (sort_key fst d) k = map_of d k"
proof -
  have m: "map_of xs k = (case filter (\<lambda>p. fst p = k) xs of [] \<Rightarrow> None | p # _ \<Rightarrow> Some (snd p))" for xs
    by (induction xs) auto
  have "filter (\<lambda>p. fst p = k) (sort_key fst d) = filter (\<lambda>p. fst p = k) d"
    using sort_key_stable [of fst k d] by (simp add: eq_commute)
  then show ?thesis unfolding m by simp
qed

lemma vget_sorted: "vget (sorted_val v) k = map_option sorted_val (vget v k)"
  by (cases v) (simp_all add: vget_def map_of_map [of sorted_val, unfolded case_prod_unfold])

lemma field_sorted [simp]:
  "string_field (sorted_val v) k = string_field v k" "u64_field (sorted_val v) k = u64_field v k"
proof -
  have "str_opt (sorted_val x) = str_opt x" "as_u64 (sorted_val x) = as_u64 x" for x
    by (cases x; simp add: str_opt_def as_u64_def)+
  then show "string_field (sorted_val v) k = string_field v k" "u64_field (sorted_val v) k = u64_field v k"
    by (simp_all add: string_field_def u64_field_def vget_sorted bind_map_option comp_def)
qed

lemma write_immutable_Inr: "write_immutable key content s = (s', Inr u) \<Longrightarrow> fl_objects s' key = Some content"
  by (auto simp: write_immutable_def ctl_simps Let_def split: option.splits list.splits io.splits prod.splits)

lemma write_immutable_keeps: "write_immutable key content s = (s', r) \<Longrightarrow> fl_objects s k = Some c \<Longrightarrow> fl_objects s' k = Some c"
  by (auto simp: write_immutable_def Let_def split: option.splits list.splits io.splits prod.splits)

lemma local_put_cases:
  assumes "local_put L content media_type s = (s', x)"
  obtains e where "x = Inl e" "s' = s" | key u where "object_key (sha256_ref L content) = Inr key" "write_immutable key content s = (s', u)"
    "\<And>r. x = Inr r \<Longrightarrow> u = Inr () \<and> r = file_reference (sha256_ref L content) (int (length content)) media_type"
  using assms by (auto simp: local_put_def bnd_def lift_def ret_def split: sum.splits prod.splits)

interpretation local_store: file_store "local_put L" "local_read L" "sha256_ref L" for L
proof
  fix content media_type s s' r
  assume p: "local_put L content media_type s = (s', Inr r)"
  then show r: "r = file_reference (sha256_ref L content) (int (length content)) media_type"
    by (rule local_put_cases) auto
  show "local_read L s' r = Inr content" if "length content < 2 ^ 64"
  proof -
    from p obtain key where "object_key (sha256_ref L content) = Inr key" "fl_objects s' key = Some content"
      by (rule local_put_cases) (auto dest: write_immutable_Inr)
    with that show ?thesis
      by (simp add: r local_read_def file_reference_def string_field_def u64_field_def vget_def str_opt_def as_u64_def ok_or_def
          need_def)
  qed
next
  fix content media_type s s' x r c
  assume p: "local_put L content media_type s = (s', x)" and r: "local_read L s r = Inr c"
  have "fl_objects s' k = Some b" if "fl_objects s k = Some b" for k b
    using p by (rule local_put_cases) (use that in \<open>auto dest: write_immutable_keeps\<close>)
  with r show "local_read L s' r = Inr c"
    by (auto simp: local_read_def ctl_simps)
next
  show "local_read L s (sorted_val r) = local_read L s r" for s r by (simp add: local_read_def)
qed

end
