(* ===== verification/Trajectory_Handover.thy ===== *)
theory Trajectory_Handover
  imports Trace_Invariant Trajectory_Files Sdk_Core Eval_Json
begin

text \<open>
  From the Worker to the scorer: the checkpoint that the Worker writes of a gapless trajectory is what
  \<open>read_scoring_trajectory\<close> of the Python SDK accepts, and it reads the recorded events back in order.
\<close>

section \<open>Lines of canonical JSON\<close>

lemma printable_join: "(\<forall>t \<in> set ts. \<forall>c \<in> set t. P c) \<Longrightarrow> \<forall>c \<in> set sep. P c \<Longrightarrow> \<forall>c \<in> set (join sep ts). P c"
  by (induction sep ts rule: join.induct) auto

lemma hex_digit_printable: "n < 16 \<Longrightarrow> 32 \<le> code (hex_digit n)"
  by (simp add: hex_digit_def code_char_of)

lemma esc_printable: "\<forall>d \<in> set (esc_char c). 32 \<le> code d"
  by (auto simp: esc_char_def intro!: hex_digit_printable)

lemma number_printable: "c \<in> number_chars \<Longrightarrow> 32 \<le> code c"
  by (auto simp: number_chars_def is_digit_def)

lemma json_string_printable: "\<forall>c \<in> set (json_string s). 32 \<le> code c"
  using esc_printable by (auto simp: json_string_def)

lemma rmap_join_printable:
  assumes "rmap f xs = Inr ts" "\<And>x t. x \<in> set xs \<Longrightarrow> f x = Inr t \<Longrightarrow> \<forall>c \<in> set t. 32 \<le> code c"
  shows "\<forall>c \<in> set (join '','' ts). 32 \<le> code c"
proof (rule printable_join)
  show "\<forall>t \<in> set ts. \<forall>c \<in> set t. 32 \<le> code c"
    using assms by (fastforce simp: rmap_Inr_iff list_all2_conv_all_nth in_set_conv_nth)
qed simp

lemma dumps_printable:
  assumes "float_repr_ok L" "cdumps L v = Inr t"
  shows "\<forall>c \<in> set t. 32 \<le> code c"
  using assms(2)
proof (induction v arbitrary: t rule: val.induct)
  case (VInt i)
  then show ?case using show_int_chars [of i] by (auto simp: is_digit_def)
next
  case (VFloat x)
  then show ?case using assms(1) number_printable
    by (cases x) (auto simp: float_repr_ok_def canonical_opts_def subset_iff)
next
  case (VStr s)
  then show ?case using json_string_printable by auto
next
  case (VList xs)
  then obtain ts where ts: "rmap (cdumps L) xs = Inr ts" "t = ''['' @ join '','' ts @ '']''"
    by (auto simp: rbind_Inr_iff canonical_opts_def)
  from rmap_join_printable [OF ts(1)] VList.IH ts(2) show ?case by auto
next
  case (VTuple xs)
  then obtain ts where ts: "rmap (cdumps L) xs = Inr ts" "t = ''['' @ join '','' ts @ '']''"
    by (auto simp: rbind_Inr_iff canonical_opts_def)
  from rmap_join_printable [OF ts(1)] VTuple.IH ts(2) show ?case by auto
next
  case (VDict d)
  then obtain ts where ts: "rmap (\<lambda>p. rbind (cdumps L (snd p)) (\<lambda>t. Inr (json_string (fst p) @ '':'' @ t))) (sort_key fst d) = Inr ts"
    "t = ''{'' @ join '','' ts @ ''}''"
    by (simp add: rbind_Inr_iff dict_items_def) (auto simp: canonical_opts_def)
  have "\<forall>c \<in> set (join '','' ts). 32 \<le> code c"
  proof (rule rmap_join_printable [OF ts(1)])
    show "\<forall>c \<in> set u. 32 \<le> code c" if "p \<in> set (sort_key fst d)"
      "rbind (cdumps L (snd p)) (\<lambda>t. Inr (json_string (fst p) @ '':'' @ t)) = Inr u" for p u
      using that VDict.IH [of p "snd p"] json_string_printable [of "fst p"] by (auto simp: rbind_Inr_iff prod_set_defs)
  qed
  with ts(2) show ?case by auto
qed (auto simp: rbind_Inr_iff)

lemma utf8_printable: "\<forall>c \<in> set t. 32 \<le> code c \<Longrightarrow> \<forall>b \<in> set (utf8 t). 32 \<le> b"
  by (auto simp: utf8_def utf8_char_def split: if_splits)

lemma canonical_one_line:
  assumes "float_repr_ok L" "canonical_bytes L v = Inr content"
  shows "10 \<notin> set content" "13 \<notin> set content"
  using assms dumps_printable utf8_printable by (fastforce simp: canonical_bytes_def rbind_Inr_iff)+

lemma canonical_dict_nonempty: "canonical_bytes L (VDict d) = Inr content \<Longrightarrow> content \<noteq> []"
  by (auto simp: canonical_bytes_def rbind_Inr_iff utf8_def utf8_char_def split: if_splits)

lemma lines_from_line:
  "10 \<notin> set content \<Longrightarrow> 13 \<notin> set content \<Longrightarrow> lines_from acc (content @ 10 # rest) = (acc @ content) # lines_from [] rest"
  by (induction content arbitrary: acc) auto

lemma splitlines_lines:
  assumes "\<forall>content \<in> set contents. 10 \<notin> set content \<and> 13 \<notin> set content"
  shows "splitlines (concat (map (\<lambda>content. content @ [10]) contents)) = contents"
  using assms by (induction contents) (auto simp: splitlines_def lines_from_line)

section \<open>Segments\<close>

definition content_of :: "lib \<Rightarrow> val \<Rightarrow> nat list" where
  "content_of L v = (case canonical_bytes L v of Inr content \<Rightarrow> content | Inl _ \<Rightarrow> [])"

definition segment_of :: "lib \<Rightarrow> val list \<Rightarrow> nat list" where
  "segment_of L events = concat (map (\<lambda>content. content @ [10]) (map (content_of L) events))"

lemma segment_of_append [simp]: "segment_of L (es @ fs) = segment_of L es @ segment_of L fs"
  by (simp add: segment_of_def)

lemma canonical_Inr: "canonical L v = Inr content \<longleftrightarrow> canonical_bytes L v = Inr content"
  by (auto simp: canonical_def split: sum.split)

lemma encode_events_split:
  assumes "encode_events L m events (map (segment_of L) parts0) (segment_of L part) = Inr segments"
    "\<forall>g \<in> set parts0. int (length (segment_of L g)) \<le> m" "int (length (segment_of L part)) \<le> m"
  shows "(\<exists>parts. segments = map (segment_of L) parts \<and> concat parts = concat parts0 @ part @ events) \<and>
    (\<forall>event \<in> set events. ok (canonical_bytes L event)) \<and> (\<forall>segment \<in> set segments. int (length segment) \<le> m)"
  using assms
proof (induction events arbitrary: parts0 part)
  case Nil
  show ?case
  proof (cases "segment_of L part = []")
    case True
    have "part = []" using True by (cases part) (simp_all add: segment_of_def)
    with Nil True show ?thesis
      by (cases parts0) (auto intro: exI [of _ parts0] exI [of _ "[[]]"] simp: segment_of_def)
  next
    case False
    with Nil have "segments = map (segment_of L) (parts0 @ [part])" by simp
    with Nil.prems(2,3) show ?thesis by (intro conjI exI [of _ "parts0 @ [part]"]) auto
  qed
next
  case (Cons event events)
  from Cons.prems(1) obtain content where c: "canonical_bytes L event = Inr content"
    by (auto simp: ctl_simps canonical_Inr)
  then have line: "content @ [10] = segment_of L [event]" by (simp add: segment_of_def content_of_def)
  have g: "map (segment_of L) parts0 @ [segment_of L part] = map (segment_of L) (parts0 @ [part])" by simp
  have a: "segment_of L part @ segment_of L [event] = segment_of L (part @ [event])" by simp
  from Cons.prems(1) c have e: "int (length (segment_of L [event])) \<le> m"
    "encode_events L m events (map (segment_of L) (parts0 @ [part])) (segment_of L [event]) = Inr segments \<or>
     encode_events L m events (map (segment_of L) parts0) (segment_of L (part @ [event])) = Inr segments \<and>
       (segment_of L part = [] \<or> int (length (segment_of L (part @ [event]))) \<le> m)"
    unfolding g [symmetric] a [symmetric] line [symmetric]
    by (auto simp: canonical_def Let_def split: if_splits)
  from e(2) show ?case
  proof (elim disjE conjE)
    assume "encode_events L m events (map (segment_of L) (parts0 @ [part])) (segment_of L [event]) = Inr segments"
    from Cons.IH [OF this] Cons.prems(2,3) e(1) c show ?thesis by simp
  next
    assume "encode_events L m events (map (segment_of L) parts0) (segment_of L (part @ [event])) = Inr segments"
      "segment_of L part = []"
    from Cons.IH [OF this(1)] this(2) Cons.prems(2,3) e(1) c show ?thesis by simp
  next
    assume "encode_events L m events (map (segment_of L) parts0) (segment_of L (part @ [event])) = Inr segments"
      "int (length (segment_of L (part @ [event]))) \<le> m"
    from Cons.IH [OF this(1)] this(2) Cons.prems(2,3) e(1) c show ?thesis by simp
  qed
qed

lemma encode_segments_split:
  assumes "encode_jsonl_segments L m events = Inr segments" "0 \<le> m"
  obtains parts where "segments = map (segment_of L) parts" "concat parts = events"
    "\<forall>event \<in> set events. ok (canonical_bytes L event)" "\<forall>segment \<in> set segments. int (length segment) \<le> m"
proof -
  have "encode_events L m events (map (segment_of L) []) (segment_of L []) = Inr segments"
    using assms(1) by (simp add: encode_jsonl_segments_def segment_of_def split: if_splits)
  moreover have "segment_of L [] = []" by (simp add: segment_of_def)
  ultimately show thesis using encode_events_split [of L m events "[]" "[]" segments] assms(2) that by auto
qed

lemma splitlines_segment:
  assumes "float_repr_ok L" "\<forall>event \<in> set events. ok (canonical_bytes L event)"
  shows "splitlines (segment_of L events) = map (content_of L) events"
  unfolding segment_of_def
  using assms canonical_one_line by (intro splitlines_lines) (fastforce simp: ok_iff content_of_def)

section \<open>Reading a segment\<close>

definition loads_back :: "lib \<Rightarrow> val \<Rightarrow> bool" where
  \<comment> \<open>\<open>json.loads\<close> reads the canonical text of this document back, its keys in order\<close>
  "loads_back L v \<longleftrightarrow> json_loads L (content_of L v) = Inr (sorted_val v)"

definition scorable :: "lib \<Rightarrow> registry \<Rightarrow> val \<Rightarrow> nat \<Rightarrow> val \<Rightarrow> bool" where
  \<comment> \<open>an event that the reader accepts at this position of a trajectory\<close>
  "scorable L reg manifest n event \<longleftrightarrow> content_of L event \<noteq> [] \<and> loads_back L event \<and>
     validate L reg ''TrajectoryEvent'' (sorted_val event) = Inr () \<and>
     (\<forall>k \<in> set identity_fields. \<exists>a. item (sorted_val event) k = Inr a \<and> item manifest k = Inr a \<and> py_eq a a) \<and>
     item (sorted_val event) ''sequence'' = Inr (VInt (int n))"

lemma add_event_scorable:
  assumes "scorable L reg manifest (length events) event"
  shows "add_event L reg manifest (content_of L event) events = Inr (events @ [sorted_val event])"
proof -
  have "rany (\<lambda>k. rbind (item (sorted_val event) k) (\<lambda>a. rbind (item manifest k) (\<lambda>b. Inr (\<not> py_eq a b)))) identity_fields = Inr False"
    unfolding rany_False_iff using assms by (fastforce simp: scorable_def)
  then show ?thesis using assms by (simp add: add_event_def scorable_def loads_back_def)
qed

lemma add_events_scorable:
  assumes "\<forall>i < length new. scorable L reg manifest (length events + i) (new ! i)"
  shows "rfold (add_event L reg manifest) (map (content_of L) new) events = Inr (events @ map sorted_val new)"
  using assms
proof (induction new arbitrary: events)
  case (Cons event new)
  have "scorable L reg manifest (length events) event" using Cons.prems by (auto dest: spec [of _ 0])
  moreover have "\<forall>i < length new. scorable L reg manifest (length (events @ [sorted_val event]) + i) (new ! i)"
    using Cons.prems by (auto dest: spec [of _ "Suc _"])
  ultimately show ?case using Cons.IH by (simp add: add_event_scorable)
qed simp

lemma read_verified_put:
  assumes "scoring_check ctx i = Inr ()" "read_artifact r = Inr content"
    "item r ''size_bytes'' = Inr (VInt (int (length content)))" "item r ''digest'' = Inr (VStr (sha256_ref L content))"
  shows "read_verified L ctx read_artifact i r = Inr content"
  using assms by (simp add: read_verified_def)

lemma read_segments_scorable:
  assumes "float_repr_ok L" "\<forall>i. scoring_check ctx i = Inr ()"
    and "list_all2 (\<lambda>part r. read_artifact r = Inr (segment_of L part) \<and>
        item r ''size_bytes'' = Inr (VInt (int (length (segment_of L part)))) \<and>
        item r ''digest'' = Inr (VStr (sha256_ref L (segment_of L part)))) parts refs"
    and "\<forall>event \<in> set (concat parts). ok (canonical_bytes L event)"
    and "\<forall>i < length (concat parts). scorable L (sc_registry ctx) manifest (length events + i) (concat parts ! i)"
  shows "rfold (read_segment L ctx read_artifact manifest) refs (n, events) =
    Inr (n + length refs, events @ map sorted_val (concat parts))"
  using assms(3-)
proof (induction parts arbitrary: refs n events)
  case Nil
  then show ?case by simp
next
  case (Cons part parts)
  from Cons.prems(1) obtain r rs where refs: "refs = r # rs" by (cases refs) auto
  with Cons.prems(1) assms(2) have v: "read_verified L ctx read_artifact n r = Inr (segment_of L part)"
    by (intro read_verified_put) auto
  have 1: "\<forall>i < length part. scorable L (sc_registry ctx) manifest (length events + i) (part ! i)"
    using Cons.prems(3) by (auto simp: nth_append split: if_splits)
  have 2: "\<forall>i < length (concat parts). scorable L (sc_registry ctx) manifest (length (events @ map sorted_val part) + i) (concat parts ! i)"
  proof (intro allI impI)
    fix i assume "i < length (concat parts)"
    with Cons.prems(3) show "scorable L (sc_registry ctx) manifest (length (events @ map sorted_val part) + i) (concat parts ! i)"
      by (auto simp: nth_append add.assoc dest: spec [of _ "length part + i"])
  qed
  have "read_segment L ctx read_artifact manifest r (n, events) = Inr (Suc n, events @ map sorted_val part)"
    using v add_events_scorable [OF 1] splitlines_segment [OF assms(1), of part] Cons.prems(2) by (simp add: read_segment_def)
  moreover have "rfold (read_segment L ctx read_artifact manifest) rs (Suc n, events @ map sorted_val part) =
    Inr (Suc n + length rs, (events @ map sorted_val part) @ map sorted_val (concat parts))"
    using Cons.prems(1,2) refs 2 by (intro Cons.IH) simp_all
  ultimately show ?case by (simp add: refs)
qed

section \<open>The files of a checkpoint\<close>

lemma item_sorted: "item (sorted_val (VDict d)) k = (case map_of d k of Some x \<Rightarrow> Inr (sorted_val x) | None \<Rightarrow> Inl (KeyError k))"
  by (simp add: ditem_def map_of_map [of sorted_val, unfolded case_prod_unfold] split: option.split)

lemma reference_items [simp]:
  "item (sorted_val (file_reference digest n media_type)) ''size_bytes'' = Inr (VInt n)"
  "item (sorted_val (file_reference digest n media_type)) ''digest'' = Inr (VStr digest)"
  unfolding file_reference_def item_sorted by simp_all

lemma max_segment: "int (length content) \<le> max_segment_bytes \<Longrightarrow> length content < 2 ^ 64"
  by (simp add: max_segment_bytes_def)

lemma canonical_content: "canonical_bytes L v = Inr content \<Longrightarrow> content_of L v = content"
  by (simp add: content_of_def)

context file_store
begin

lemma checkpoint_files:
  assumes "checkpoint L contract put_bytes now_ms (t, s) = ((t', s'), Inr reference)"
    and "snd (write_segments L put_bytes t s) = Inr references"
    and "length (content_of L (trajectory_manifest t references ''scoring_checkpoint'' now_ms)) < 2 ^ 64"
  obtains parts where "concat parts = tr_events t" "\<forall>event \<in> set (tr_events t). ok (canonical_bytes L event)"
    "list_all2 (\<lambda>part r. read_bytes s' r = Inr (segment_of L part) \<and>
       r = file_reference (digest (segment_of L part)) (int (length (segment_of L part))) ''application/x-ndjson'') parts references"
    "read_bytes s' reference = Inr (content_of L (trajectory_manifest t references ''scoring_checkpoint'' now_ms))"
    "\<exists>n. reference = file_reference (digest (content_of L (trajectory_manifest t references ''scoring_checkpoint'' now_ms)))
       (int (length (content_of L (trajectory_manifest t references ''scoring_checkpoint'' now_ms)))) ''application/json''"
proof -
  let ?m = "trajectory_manifest t references ''scoring_checkpoint'' now_ms"
  from assms(1) have "write_manifest L contract put_bytes t ''scoring_checkpoint'' now_ms s = (s', Inr reference)"
    by (simp add: checkpoint_def split: prod.splits)
  with assms(2) obtain u content where u: "write_segments L put_bytes t s = (u, Inr references)"
    and c: "canonical_bytes L ?m = Inr content" and p: "put_bytes content ''application/json'' u = (s', Inr reference)"
    by (auto simp: write_manifest_def put_json_def bnd_Inr_iff lift_def canonical_Inr)
  from u obtain segments where s: "encode_jsonl_segments L max_segment_bytes (tr_events t) = Inr segments"
    "put_segments put_bytes segments s = (u, Inr references)" by (auto simp: write_segments_def bnd_Inr_iff lift_def)
  from s(1) obtain parts where parts: "segments = map (segment_of L) parts" "concat parts = tr_events t"
    "\<forall>event \<in> set (tr_events t). ok (canonical_bytes L event)" "\<forall>segment \<in> set segments. int (length segment) \<le> max_segment_bytes"
    by (rule encode_segments_split) (simp_all add: max_segment_bytes_def)
  from put_segments_read [OF s(2)] parts(4) max_segment
  have r: "list_all2 (\<lambda>segment r. read_bytes u r = Inr segment \<and>
      r = file_reference (digest segment) (int (length segment)) ''application/x-ndjson'') segments references" by blast
  have "list_all2 (\<lambda>part r. read_bytes s' r = Inr (segment_of L part) \<and>
       r = file_reference (digest (segment_of L part)) (int (length (segment_of L part))) ''application/x-ndjson'') parts references"
    using r put_keeps [OF p] unfolding parts(1) list_all2_map1 by (auto elim!: list_all2_mono)
  with that parts(2,3) put_read [OF p] put_reference [OF p] assms(3) canonical_content [OF c] show thesis by auto
qed

end

lemma manifest_items:
  "item (sorted_val (trajectory_manifest t refs status now_ms)) ''trajectory_status'' = Inr (VStr status)"
  "item (sorted_val (trajectory_manifest t refs status now_ms)) ''task_id'' = Inr (VStr (tr_task_id t))"
  "item (sorted_val (trajectory_manifest t refs status now_ms)) ''run_id'' = Inr (VStr (tr_run_id t))"
  "item (sorted_val (trajectory_manifest t refs status now_ms)) ''episode_id'' = Inr (VStr (tr_episode_id t))"
  "item (sorted_val (trajectory_manifest t refs status now_ms)) ''attempt_id'' = Inr (of_u64 (tr_attempt_id t))"
  "item (sorted_val (trajectory_manifest t refs status now_ms)) ''event_segments'' = Inr (VList (map sorted_val refs))"
  "item (sorted_val (trajectory_manifest t refs status now_ms)) ''event_count'' = Inr (VInt (int (length (tr_events t))))"
  unfolding trajectory_manifest_def item_sorted by (simp_all add: of_u64_def)

lemma event_items:
  "item (sorted_val (event_of t n ms kind payload)) ''task_id'' = Inr (VStr (tr_task_id t))"
  "item (sorted_val (event_of t n ms kind payload)) ''run_id'' = Inr (VStr (tr_run_id t))"
  "item (sorted_val (event_of t n ms kind payload)) ''episode_id'' = Inr (VStr (tr_episode_id t))"
  "item (sorted_val (event_of t n ms kind payload)) ''attempt_id'' = Inr (of_u64 (tr_attempt_id t))"
  "item (sorted_val (event_of t n ms kind payload)) ''sequence'' = Inr (of_u64 n)"
  unfolding event_of_def item_sorted by (simp_all add: of_u64_def)

lemma solid_scorable:
  assumes "solid t0 t" "i < length (tr_events t)" "float_repr_ok L" "ok (canonical_bytes L (tr_events t ! i))"
    and "loads_back L (tr_events t ! i)" "validate L reg ''TrajectoryEvent'' (sorted_val (tr_events t ! i)) = Inr ()"
  shows "scorable L reg (sorted_val (trajectory_manifest t refs status now_ms)) i (tr_events t ! i)"
proof -
  from assms(1,2) obtain ms kind payload where e: "tr_events t ! i = event_of t (of_nat i) ms kind payload"
    unfolding solid_def gapless_def by metis
  have "unat (tr_next_sequence t) < 2 ^ 64" using unsigned_less [of "tr_next_sequence t"] by simp
  with assms(1) have "length (tr_events t) < 2 ^ 64" by (simp add: solid_def)
  with assms(2) have n: "of_u64 (of_nat i) = VInt (int i)" by (simp add: of_u64_def unsigned_of_nat take_bit_nat_eq_self)
  from assms(4) have "content_of L (tr_events t ! i) \<noteq> []"
    unfolding e event_of_def using canonical_dict_nonempty by (auto simp: ok_iff content_of_def)
  then show ?thesis
    unfolding scorable_def
  proof (intro conjI assms(5,6))
    show "\<forall>k \<in> set identity_fields. \<exists>a. item (sorted_val (tr_events t ! i)) k = Inr a \<and>
        item (sorted_val (trajectory_manifest t refs status now_ms)) k = Inr a \<and> py_eq a a"
      unfolding e by (simp add: identity_fields_def event_items manifest_items) (simp add: of_u64_def)
    show "item (sorted_val (tr_events t ! i)) ''sequence'' = Inr (VInt (int i))"
      unfolding e by (simp add: event_items n)
  qed
qed

section \<open>The handover\<close>

definition accepted :: "lib \<Rightarrow> registry \<Rightarrow> string \<Rightarrow> val \<Rightarrow> bool" where
  \<comment> \<open>the reader's library parses the document and its registry accepts it\<close>
  "accepted L reg name v \<longleftrightarrow> loads_back L v \<and> validate L reg name (sorted_val v) = Inr ()"

context file_store
begin

lemma checkpoint_handover:
  assumes written: "checkpoint L contract put_bytes now_ms (t, s) = ((t', s'), Inr reference)"
      "snd (write_segments L put_bytes t s) = Inr references" "digest = sha256_ref L"
    and t: "solid t0 t" "\<forall>event \<in> set (tr_events t). accepted L (sc_registry ctx) ''TrajectoryEvent'' event"
    and m: "accepted L (sc_registry ctx) ''TrajectoryManifest'' (trajectory_manifest t references ''scoring_checkpoint'' now_ms)"
      "length (content_of L (trajectory_manifest t references ''scoring_checkpoint'' now_ms)) < 2 ^ 64" "float_repr_ok L"
    and reader: "sc_read_artifact ctx = Some read_artifact" "\<forall>r c. read_bytes s' r = Inr c \<longrightarrow> read_artifact r = Inr c"
      "\<forall>i. scoring_check ctx i = Inr ()"
    and request: "si_trajectory_ref request = sorted_val reference" "task_id (si_task request) = VStr (tr_task_id t)"
  shows "read_scoring_trajectory L request ctx = Inr (map sorted_val (tr_events t))"
proof -
  let ?m = "trajectory_manifest t references ''scoring_checkpoint'' now_ms"
  obtain parts where parts: "concat parts = tr_events t" "\<forall>event \<in> set (tr_events t). ok (canonical_bytes L event)"
    and segments: "list_all2 (\<lambda>part r. read_bytes s' r = Inr (segment_of L part) \<and>
       r = file_reference (digest (segment_of L part)) (int (length (segment_of L part))) ''application/x-ndjson'') parts references"
    and manifest: "read_bytes s' reference = Inr (content_of L ?m)"
      "\<exists>n. reference = file_reference (digest (content_of L ?m)) (int (length (content_of L ?m))) ''application/json''"
    by (rule checkpoint_files [OF written(1,2) m(2)])
  have 1: "read_verified L ctx read_artifact 0 (sorted_val reference) = Inr (content_of L ?m)"
    using manifest reader by (intro read_verified_put) (auto simp: read_sorted written(3))
  have "\<forall>i < length (concat parts). scorable L (sc_registry ctx) (sorted_val ?m) (length [] + i) (concat parts ! i)"
    using t parts solid_scorable [OF t(1) _ m(3)] by (simp add: accepted_def)
  moreover have "list_all2 (\<lambda>part r. read_artifact r = Inr (segment_of L part) \<and>
        item r ''size_bytes'' = Inr (VInt (int (length (segment_of L part)))) \<and>
        item r ''digest'' = Inr (VStr (sha256_ref L (segment_of L part)))) parts (map sorted_val references)"
    unfolding list_all2_map2 using segments
    by (rule list_all2_mono) (use reader(2) in \<open>auto simp: read_sorted written(3)\<close>)
  ultimately have 2: "rfold (read_segment L ctx read_artifact (sorted_val ?m)) (map sorted_val references) (1, []) =
      Inr (1 + length references, map sorted_val (tr_events t))"
    using read_segments_scorable [OF m(3) reader(3), of read_artifact parts "map sorted_val references"] parts by simp
  show ?thesis
    using 1 2 m(1) reader(1,3) request
    by (simp add: read_scoring_trajectory_def accepted_def loads_back_def manifest_items)
qed

end

text \<open>C8: From the Worker to the scorer: the events that a complete attempt recorded, written to immutable
  files as segments of bounded size and named by a checkpoint, are read back by the scorer in
  order and unchanged up to the order of keys, when the reader delivers what the store holds, its
  library parses the documents and its registry accepts them.\<close>
theorem scorer_reads_what_was_recorded:
  assumes attempt: "new_trace plan = Inr t0" "new_runtime contract plan b t0 initial = Inr R0"
      "serve_requests P requests (R0, w) = (R, w')" "tr_complete (rt_trace R)"
    and written: "checkpoint L contract' (local_put L) now_ms (rt_trace R, s) = ((t', s'), Inr reference)"
      "snd (write_segments L (local_put L) (rt_trace R) s) = Inr references"
    and accepted: "\<forall>event \<in> set (tr_events (rt_trace R)). accepted L (sc_registry ctx) ''TrajectoryEvent'' event"
      "accepted L (sc_registry ctx) ''TrajectoryManifest'' (trajectory_manifest (rt_trace R) references ''scoring_checkpoint'' now_ms)"
      "length (content_of L (trajectory_manifest (rt_trace R) references ''scoring_checkpoint'' now_ms)) < 2 ^ 64" "float_repr_ok L"
    and reader: "sc_read_artifact ctx = Some read_artifact" "\<forall>r c. local_read L s' r = Inr c \<longrightarrow> read_artifact r = Inr c"
      "\<forall>i. scoring_check ctx i = Inr ()"
    and request: "si_trajectory_ref request = sorted_val reference" "task_id (si_task request) = VStr (tr_task_id t0)"
  shows "read_scoring_trajectory L request ctx = Inr (map sorted_val (tr_events (rt_trace R)))"
proof -
  note solid = complete_solid [OF attempt]
  then have "event_of (rt_trace R) 0 0 [] VNone = event_of t0 0 0 [] VNone" by (simp add: solid_def)
  then have "tr_task_id (rt_trace R) = tr_task_id t0" by (simp add: event_of_def)
  with request(2) local_store.checkpoint_handover [OF written refl solid accepted reader request(1)] show ?thesis by simp
qed

text \<open>One generation recorded, checkpointed into an empty store and read.\<close>

definition handed_event :: val where
  "handed_event = VDict
     [(''schema_version'', VStr ''vnext.3''), (''event_id'', VStr ''e:1:0''), (''run_id'', VStr ''r''), (''episode_id'', VStr ''e''),
      (''attempt_id'', VInt 1), (''task_id'', VStr ''t''), (''sequence'', VInt 0), (''occurred_at_ms'', VInt 0), (''kind'', VStr ''generation''),
      (''payload'', VDict [(''generation_id'', VStr ''e:1:generation:0''), (''model_id'', VStr ''m''), (''messages'', VList []),
        (''response'', VList []), (''output_token_count'', VInt 2), (''finish_reason'', VStr ''tool_calls''),
        (''tool_calls'', VList [small_call])])]"

definition handed_trace :: trace where
  "handed_trace = \<lparr>tr_run_id = ''r'', tr_episode_id = ''e'', tr_attempt_id = 1, tr_task_id = ''t'', tr_events = [handed_event],
     tr_next_sequence = 1, tr_sealed = False, tr_complete = True\<rparr>"

definition handed_run :: "runtime \<times> nat" where
  "handed_run = (let (R, w, calls) = small_start in serve_requests small_ports [(''generate'', VList [])] (R, w))"

definition digest_lib :: lib where
  "digest_lib = rational_lib\<lparr>sha256_hex := (\<lambda>b. replicate 63 (CHR ''a'') @ [if b ! 17 = 99 then CHR ''b'' else CHR ''c''])\<rparr>"

definition no_files :: files where
  "no_files = \<lparr>fl_objects = Map.empty, fl_answers = []\<rparr>"

definition manifest_contract :: val where
  "manifest_contract = VDict [(''$defs'', VDict [(''TrajectoryManifest'', VDict [(''properties'', VDict (map (\<lambda>k. (k, VBool True))
     [''schema_version'', ''run_id'', ''episode_id'', ''attempt_id'', ''task_id'', ''event_segments'', ''event_count'',
      ''trajectory_status'', ''created_at_ms'']))])])]"

definition handed_reference :: val where
  "handed_reference = file_reference (''sha256:'' @ replicate 63 (CHR ''a'') @ ''c'') (int (length (segment_of digest_lib [handed_event])))
     ''application/x-ndjson''"

definition handed_manifest :: val where
  "handed_manifest = trajectory_manifest handed_trace [handed_reference] ''scoring_checkpoint'' 7"

definition handed_lib :: lib where
  \<comment> \<open>it parses the two documents, told apart by a character\<close>
  "handed_lib = digest_lib\<lparr>json_loads := (\<lambda>b. Inr (sorted_val (if b ! 17 = 99 then handed_manifest else handed_event)))\<rparr>"

definition handed_registry :: registry where
  "handed_registry = \<lparr>core = VDict [(''$id'', VStr ''urn:core''), (''$defs'', VDict [(''TrajectoryManifest'', VBool True), (''TrajectoryEvent'', VBool True)])],
     extensions = []\<rparr>"

lemma handed_run_trace: "rt_trace (fst handed_run) = handed_trace"
  by code_simp

lemma handed_written: "snd (write_segments handed_lib (local_put handed_lib) handed_trace no_files) = Inr [handed_reference]"
  by code_simp

lemma handed_checkpoint: "\<not> isl (snd (checkpoint handed_lib manifest_contract (local_put handed_lib) 7 (handed_trace, no_files)))"
  by code_simp

lemma handed_distinct: "content_of handed_lib handed_manifest ! 17 = 99 \<and> content_of handed_lib handed_event ! 17 \<noteq> 99"
  by code_simp

lemma handed_valid:
  "validate handed_lib handed_registry ''TrajectoryEvent'' (sorted_val handed_event) = Inr ()"
  "validate handed_lib handed_registry ''TrajectoryManifest'' (sorted_val handed_manifest) = Inr ()"
  by code_simp+

lemma handed_size: "length (content_of handed_lib handed_manifest) < 1000"
  by code_simp

definition handed_context :: "files \<Rightarrow> scoring_context" where
  "handed_context s = \<lparr>sc_deadline = Fin 10, sc_registry = handed_registry, sc_ticks = (\<lambda>n. (False, Fin 1)), sc_run_harness = None,
     sc_read_artifact = Some (\<lambda>r. case local_read handed_lib s r of Inr c \<Rightarrow> Inr c | Inl e \<Rightarrow> Inl (RpcError e))\<rparr>"

definition handed_request :: "val \<Rightarrow> score_input" where
  "handed_request reference = \<lparr>si_task = \<lparr>task_id = VStr ''t'', dataset = VNone, sample_id = VNone, task_input = VNone, runtime = VNone\<rparr>,
     si_final_answer = VList [], si_trajectory_ref = sorted_val reference, si_state = VNone, si_private_data = VNone\<rparr>"

theorem scorer_reads_what_was_recorded_witness:
  "\<exists>t s reference. checkpoint handed_lib manifest_contract (local_put handed_lib) 7 (handed_trace, no_files) = ((t, s), Inr reference) \<and>
     read_scoring_trajectory handed_lib (handed_request reference) (handed_context s) = Inr [sorted_val handed_event]"
proof -
  from small_start_ok obtain t0 R0 where R: "small_start = (R0, 0, [])" "new_trace small_plan = Inr t0"
    "new_runtime (wp_contract small_ports) small_plan small_budget t0 small_observation = Inr R0" by blast
  obtain R w where run: "serve_requests small_ports [(''generate'', VList [])] (R0, 0) = (R, w)" by fastforce
  then have r: "handed_run = (R, w)" unfolding handed_run_def R(1) by simp
  have t: "rt_trace R = handed_trace" using handed_run_trace unfolding r by simp
  obtain t' s' reference where c: "checkpoint handed_lib manifest_contract (local_put handed_lib) 7 (handed_trace, no_files) =
      ((t', s'), Inr reference)"
    using handed_checkpoint by (metis isl_def prod.collapse snd_conv sum.exhaust_sel sum.collapse(2))
  have loads: "loads_back handed_lib handed_event" "loads_back handed_lib handed_manifest"
    using handed_distinct unfolding loads_back_def by (simp_all add: handed_lib_def)
  have complete: "tr_complete (rt_trace R)" by (simp add: t handed_trace_def)
  have task: "tr_task_id t0 = ''t''" using R(2) by (auto simp: new_trace_def small_plan_def ctl_simps vget_def str_opt_def)
  have "float_repr_ok handed_lib"
    using rational_lib_ok by (simp add: float_repr_ok_def handed_lib_def digest_lib_def)
  from scorer_reads_what_was_recorded [OF R(2,3) run complete, unfolded t, OF c handed_written _ _ _ this,
      where ctx = "handed_context s'" and request = "handed_request reference"
        and read_artifact = "\<lambda>r. case local_read handed_lib s' r of Inr c \<Rightarrow> Inr c | Inl e \<Rightarrow> Inl (RpcError e)"]
  have "read_scoring_trajectory handed_lib (handed_request reference) (handed_context s') = Inr (map sorted_val (tr_events handed_trace))"
    using handed_valid handed_size loads task
    by (simp add: accepted_def handed_context_def handed_request_def scoring_check_def context_check_def handed_manifest_def
        handed_trace_def)
  with c show ?thesis by (auto simp: handed_trace_def)
qed

end
