(* ===== verification/Spec2Isabelle.thy ===== *)
theory Spec2Isabelle
  imports Scoring_Correct Modeling_Correct Registry_Correct Sdk_Correct Tool_Correct Tool_Schedule Session Env_Host
    Scorer_Host Worker_Correct Rpc Loader_Correct Fixture_Plan Datasets_Correct Model_Provider Component_Correct
    Counter Mcp_Calls Framework_Worker Build_Examples Contract_Build Trajectory_Handover
begin

text \<open>
  A verification library for the reference implementation of UEnv, a system that runs agents on the
  tasks of dataset packages and scores what they did. All paths below are under \<open>src/\<close>; \<open>sdk/\<close> stands for
  \<open>reference/sdk/src/uenv/sdk/\<close>.

  \<^bold>\<open>The program.\<close> A package author writes typed models, an adapter, an environment, tools and a scorer in
  Python. The package loader checks the package, generates a manifest and expands a public run file to
  a complete run specification; a resolver fixes one sealed execution plan for every episode. A Worker (Rust)
  owns the budget, the trajectory and the routing of tool calls. It talks over JSON lines with role
  processes (Python), each with one host: the environment with its sandbox tools, the agent with its own
  tools, the model provider, the scorer. The agent, built-in or a framework behind an adapter, asks the
  Worker for generations and tool steps; after the interaction the tools are frozen, the state is taken,
  and the scorer gets the typed request.

  \<^bold>\<open>The base.\<close>
  \<^item> \<open>Py_Base\<close>: the values the Python code computes with (\<open>val\<close>; a dict is an association list in insertion
    order; a model instance \<open>VModel\<close> and another dataclass instance \<open>VObj\<close>), exceptions as the sum \<open>'a res\<close>,
    binary64 floating point with rounding written out (\<open>dbl\<close>), \<open>named_theorems\<close> and the shared lemmas on results and dicts.
  \<^item> \<open>Py_Text\<close>, \<open>Py_Float\<close>, \<open>Py_Json\<close>, \<open>Eval_Json\<close>: string operations on code points below 256, rounding
    facts, \<open>json.dumps\<close> with its options, and code equations for evaluating it.
  \<^item> \<open>Transition\<close>: reachable states and the contract of an invariant (\<open>step_invariant\<close>) for every step relation.

  \<^bold>\<open>Values, schemas and scoring.\<close>
  \<^item> \<open>Modeling\<close>, \<open>Dataset_Models\<close> with \<open>Modeling_Correct\<close> (\<open>sdk/modeling.py\<close>, the packages' \<open>models.py\<close>): class tables,
    constructors, envelopes and schema generation; an instance survives its envelope, and the schema
    and the constructor accept the same data. A nested class is resolved with at most \<open>frames\<close> = 9 levels,
    more than any class of the repository has.
  \<^item> \<open>Schema_Registry\<close>, \<open>Canonical_Json\<close> with \<open>Registry_Correct\<close> (\<open>sdk/schema_registry.py\<close>): registration, defaults and
    validation; canonical bytes tell documents apart; a registered identifier keeps its content (the
    locale \<open>content_store\<close>).
  \<^item> \<open>Score_Result\<close>, \<open>Scoring_Rules\<close> with \<open>Scoring_Correct\<close> (\<open>reference/shared\<close>): the four text rules.
  \<^item> \<open>Sdk_Core\<close> with \<open>Sdk_Correct\<close> (\<open>sdk/__init__.py\<close>): wire values, tasks, trajectories for scoring, harnesses.
  \<^item> \<open>Datasets\<close> with \<open>Datasets_Correct\<close> (\<open>reference/datasets\<close>): adapter, environment and scorer of the nine packages.

  \<^bold>\<open>The role processes.\<close>
  \<^item> \<open>Tool_Host\<close> with \<open>Tool_Correct\<close> (\<open>sdk/tools.py\<close>): tool definitions and the attempt's tool table;
    \<open>Tool_Schedule\<close>: the interleavings of its calls (refused ones record threads too), freezes, background
    tasks and threads as a step relation. The ghost \<open>sc_left\<close> holds the threads that tool bodies started; what a
    background task or another thread starts later is recorded by the code only while a call runs.
  \<^item> \<open>Session\<close> (\<open>sdk/session.py\<close>): workspace files with symbolic links and directories, processes, freezing. Opening a
    file is the operating system's own walk along links, which may fail, also after part of a write; looking at a path
    and opening the file are one step.
  \<^item> \<open>Env_Host\<close>, \<open>Env_World\<close> (\<open>sdk/environment_host.py\<close>): every handler of the environment process and what a
    snapshot fixes against later requests; the locale \<open>env_world\<close>
    lifts a property of a package's world from its single operations to whole sequences of requests.
  \<^item> \<open>Scorer_Host\<close>, \<open>Component_Host\<close> with \<open>Component_Correct\<close>, \<open>Model_Provider\<close> (\<open>sdk/scorer_host.py\<close>, \<open>component_host.py\<close>,
    \<open>model_provider.py\<close>, \<open>model_host.py\<close>): the scorer, agent and model processes.
  \<^item> \<open>Rpc\<close> (\<open>sdk/rpc.py\<close>): frames, futures and dispatch of a peer as a step relation of its threads; a waiting
    future is resolved by the frame with its identifier or by the close.
  \<^item> \<open>Agents\<close> (\<open>sdk/agent_context.py\<close>, \<open>agents.py\<close>): the agent's side of the Worker and the built-in agent. Its loop
    runs with fuel; \<open>plain_agent_returns\<close> shows that one round more than the allowed generations suffices
    (the locale \<open>generation_budget\<close>, interpreted on the Worker).
  \<^item> \<open>Mcp_Server\<close>, \<open>OpenHands\<close> with \<open>OpenHands_Correct\<close>, \<open>Mcp_Calls\<close> (\<open>sdk/interfaces/mcp_server.py\<close>, \<open>integrations/openhands.py\<close>): the MCP
    service, the adapter of the framework for any sequence of what a framework may ask of it, how a denial of
    the Worker ends its run, and
    the path of one MCP call through both. The wait for the service looks at its state once per turn.
  \<^item> \<open>Counter\<close> (\<open>reference/examples\<close>): the example package on the hosts above.

  \<^bold>\<open>The Worker.\<close>
  \<^item> \<open>Budget\<close>, \<open>Runtime\<close>, \<open>Worker\<close> with \<open>Worker_Correct\<close> (\<open>reference-control/src/runtime.rs\<close>, parts of \<open>contracts.rs\<close> and \<open>rpc.rs\<close>): counters and
    limits on 64-bit words, model calls and tool calls with all their checks, the trajectory; every
    request refines a ledger in which a call is proposed, started once and executed as proposed.
    The locales \<open>move_relation\<close> and \<open>kept_ports\<close> prove once what an operation leaves alone.
  \<^item> \<open>Trace_Invariant\<close>: a trajectory that counts as complete has no gap, by triples that tell the state after a success
    from the state after an error. \<open>Trajectory_Files\<close> (\<open>runtime.rs\<close>, \<open>storage.rs\<close>): segments, checkpoints and sealing, and the
    immutable store behind the locale \<open>file_store\<close>; segments hold at most 4 MiB. \<open>Trajectory_Handover\<close>: what the Worker's
    checkpoint holds is what \<open>read_scoring_trajectory\<close> of the SDK returns.
  \<^item> \<open>Framework_Worker\<close>: the framework's adapter on this Worker; its theorem is at the end of this theory.

  \<^bold>\<open>Packages, plans and tools of the repository.\<close>
  \<^item> \<open>Package_Loader\<close>, \<open>Run_Files\<close> with \<open>Loader_Correct\<close>, \<open>Fixture_Plan\<close> (\<open>reference/package_loader.py\<close>, \<open>fixture_plan.py\<close>): declarations,
    manifests, expanded runs, sealed plans.
  \<^item> \<open>Build_Examples\<close>, \<open>Contract_Build\<close> (\<open>scripts/build_examples.py\<close>, \<open>proto_contracts.py\<close>, \<open>build_contracts.py\<close>): the files built
    for the packages and runs, and the contract documents made of the message descriptors.

  \<^bold>\<open>Parameters.\<close> What is not code of the repository is an argument of the definitions that use it: the texts of
  floating-point numbers, the hash and \<open>json.loads\<close> (\<open>lib\<close>), YAML and module loading (\<open>run_env\<close>), the clock, the operating system's
  processes, HTTP, the MCP library, the OpenHands framework with its tools and conversation loop, the
  plugins of a package, and the ports of the Worker. What a theorem needs of them is a named hypothesis.

  \<^bold>\<open>Simplifications.\<close> The two zeros of binary64 are one value, so the text of a negative zero is outside the model;
  strings are code points below 256; \<open>isinstance\<close> with a model class is equality of classes, since no package derives
  one of its models from another; the log filter of the MCP service is modelled on the message of a record.

  \<^bold>\<open>Not modelled.\<close> The test suites (\<open>scripts/validate_design.py\<close>, \<open>validate_agent_integration.py\<close>, \<open>sdk/tests\<close>) and the fixture
  server, which run the program on fixtures; \<open>scripts/build_module_map.py\<close> and the field dictionary of
  \<open>build_contracts.py\<close>, which print documentation; the message classes that protoc generates; of the Rust control
  plane, everything but the Worker's runtime and the files of trajectories: leases, the event spool and recovery
  from it, process and container backends, the production resolver of plans, the supervisor.
\<close>

section \<open>The framework within the Worker's budget\<close>

text \<open>C21: Whatever a framework asks of the OpenHands adapter on the Worker, the Worker grants at most as
  many generations as the budget allows, and the tool calls that the adapter sends it are calls of
  generations, none more often than proposed.\<close>
theorem framework_stays_within_budget:
  assumes "new_integration version factories bindings offered w0 = Inr (h, R, w, [])" "native_ports P"
    "framework_run L (framework_worker L reg P) ops (c, h, R, w, []) = (c', h', R', w', tr)"
  shows "granted tr \<le> unat (max_generations (rt_budget R)) \<and> mset (sent_calls tr) \<subseteq># mset (all_proposed tr)"
proof
  have "inside_budget (generations_left (R, ())) (snd (h, R, w, [] :: exchange list))"
    by (simp add: inside_budget_def exchanged_def granted_def)
  from framework_run_within [OF assms(3) this]
  show "granted tr \<le> unat (max_generations (rt_budget R))" by (simp add: inside_budget_def exchanged_def generations_left_def)
  have "accounted exchanged (h, R, w, [])"
    using new_integration_start(1) [OF assms(1)] by (simp add: accounted_def sent_calls_def all_proposed_def exchanged_def)
  from framework_run_accounted [OF assms(3) framework_worker_serves [OF assms(2)] framework_worker_observed this]
  show "mset (sent_calls tr) \<subseteq># mset (all_proposed tr)"
    by (auto simp: accounted_def exchanged_def intro: subset_mset.order_trans [rotated])
qed

theorem framework_stays_within_budget_witness:
  "\<exists>h R c' h' R' tr. lone_start = Inr (h, R, (), []) \<and>
     framework_run rational_lib (framework_worker rational_lib result_registry lone_ports)
       [Complete [] [], Complete [] []] (new_worker_context VNone, h, R, (), []) = (c', h', R', (), tr) \<and>
     granted tr = 1 \<and> 1 \<le> unat (max_generations (rt_budget R))"
proof -
  let ?A = "framework_worker rational_lib result_registry lone_ports"
  let ?run = "\<lambda>s. framework_run rational_lib ?A [Complete [] [], Complete [] []] (new_worker_context VNone, s)"
  have "case lone_start of Inl _ \<Rightarrow> False | Inr (h, R, u, tr) \<Rightarrow> tr = []" by code_simp
  then obtain h R where s: "lone_start = Inr (h, R, (), [])" by (auto split: sum.splits)
  obtain c' h' R' tr where f: "?run (h, R, (), []) = (c', h', R', (), tr)" by (cases "?run (h, R, (), [])") auto
  have "(case lone_start of Inl _ \<Rightarrow> 0 | Inr s \<Rightarrow> granted (snd (snd (snd (snd (?run s)))))) = 1" by code_simp
  then have g: "granted tr = 1" unfolding s by (simp add: f)
  with framework_stays_within_budget [OF s [unfolded lone_start_def] lone_native f]
  have "1 \<le> unat (max_generations (rt_budget R))" by simp
  with s f g show ?thesis by blast
qed

end
